(* ===== verification/Prelude.thy ===== *)
theory Prelude
  imports Main "HOL-Library.Sublist"
begin

text \<open>
  Shared vocabulary of the development.

  \<^item> Go errors: a sentinel value (\<^verbatim>\<open>errors.New\<close> bound to a package variable), an
    error wrapped by \<^verbatim>\<open>fmt.Errorf("...: %w", err)\<close>, or an error made elsewhere (a driver or
    library error, or \<^verbatim>\<open>fmt.Errorf\<close> without \<open>%w\<close>). \<^verbatim>\<open>errors.Is\<close> walks the wrapping chain.
  \<^item> Results: a function returning \<^verbatim>\<open>(T, error)\<close> returns \<open>goerr + T\<close>, \<open>Inl\<close> for a non-nil error.
  \<^item> Strings are Go strings: lists of bytes (\<^typ>\<open>char\<close> is one byte), \<open>length\<close> is \<^verbatim>\<open>len\<close>.
    \<^verbatim>\<open>strings.ToLower\<close> and \<^verbatim>\<open>strings.TrimSpace\<close> are modelled on ASCII bytes; bytes above 127
    are left as they are.
  \<^item> Times are nanoseconds since the Unix epoch, durations are nanoseconds; both unbounded \<^typ>\<open>int\<close>.
    \<^verbatim>\<open>t.UTC().Format(time.RFC3339)\<close> keeps whole seconds: a formatted time is represented by
    the number of seconds it denotes, and \<^verbatim>\<open>time.Parse\<close> reads the second back.
\<close>

named_theorems err_simps \<comment> \<open>how \<open>errors.Is\<close> sees the errors of the model\<close>
named_theorems repo_simps \<comment> \<open>effect of repository operations on the abstract tables\<close>

section \<open>Errors\<close>

datatype sentinel =
    ErrUserNotFound | ErrUserAlreadyExists | ErrInvalidCredentials | ErrInvalidInput
  | ErrTokenExpired | ErrTokenInvalid | ErrUnauthorized | ErrRateLimited
  | ErrSessionNotFound | ErrSessionRevoked | ErrSessionExpired | ErrRefreshReplayed
  | ErrRefreshExpired | ErrSessionNotOwned
  | ErrRefreshTokenReplayed

datatype goerr = Sentinel sentinel | Wrap string goerr | Foreign string

fun errors_is :: "goerr \<Rightarrow> sentinel \<Rightarrow> bool" where
  "errors_is (Sentinel s) t = (s = t)"
| "errors_is (Wrap _ e) t = errors_is e t"
| "errors_is (Foreign _) t = False"

declare errors_is.simps [err_simps]

type_synonym 'a res = "goerr + 'a"

definition is_ok :: "'a res \<Rightarrow> bool" where
  "is_ok r = (case r of Inl _ \<Rightarrow> False | Inr _ \<Rightarrow> True)"

lemma is_ok_simps [simp]: "\<not> is_ok (Inl e)" "is_ok (Inr x)"
  by (simp_all add: is_ok_def)

lemma errors_is_unique: "errors_is e s \<Longrightarrow> errors_is e t \<Longrightarrow> s = t"
  by (induction e) auto

section \<open>Strings\<close>

definition byte :: "char \<Rightarrow> nat" where
  "byte c = of_char c"

definition is_upper :: "char \<Rightarrow> bool" where
  "is_upper c = (65 \<le> byte c \<and> byte c \<le> 90)"

definition lower_char :: "char \<Rightarrow> char" where
  "lower_char c = (if is_upper c then char_of (byte c + 32) else c)"

definition to_lower :: "string \<Rightarrow> string" where
  "to_lower s = map lower_char s"

definition is_space :: "char \<Rightarrow> bool" where
  "is_space c = (byte c = 32 \<or> (9 \<le> byte c \<and> byte c \<le> 13))"

definition trim_space :: "string \<Rightarrow> string" where
  "trim_space s = rev (dropWhile is_space (rev (dropWhile is_space s)))"

definition has_prefix :: "string \<Rightarrow> string \<Rightarrow> bool" where
  "has_prefix s p = (take (length p) s = p)"

definition trim_prefix :: "string \<Rightarrow> string \<Rightarrow> string" where
  "trim_prefix s p = (if has_prefix s p then drop (length p) s else s)"

fun str_join :: "string \<Rightarrow> string list \<Rightarrow> string" where
  "str_join sep [] = []"
| "str_join sep [x] = x"
| "str_join sep (x # y # xs) = x @ sep @ str_join sep (y # xs)"

fun split_char :: "char \<Rightarrow> string \<Rightarrow> string list" where \<comment> \<open>\<open>strings.Split\<close> at a one-byte separator\<close>
  "split_char c [] = [[]]"
| "split_char c (x # xs) =
     (if x = c then [] # split_char c xs
      else case split_char c xs of [] \<Rightarrow> [[x]] | p # ps \<Rightarrow> (x # p) # ps)"

fun split_n :: "nat \<Rightarrow> char \<Rightarrow> string \<Rightarrow> string list" where \<comment> \<open>\<open>strings.SplitN\<close>, for a positive count\<close>
  "split_n 0 c s = []"
| "split_n (Suc 0) c s = [s]"
| "split_n (Suc (Suc n)) c s =
     (if List.member s c then takeWhile (\<lambda>x. x \<noteq> c) s # split_n (Suc n) c (tl (dropWhile (\<lambda>x. x \<noteq> c) s))
      else [s])"

fun str_contains :: "string \<Rightarrow> string \<Rightarrow> bool" where
  "str_contains [] t = (t = [])"
| "str_contains (c # s) t = (has_prefix (c # s) t \<or> str_contains s t)"

lemma split_char_not_Nil [simp]: "split_char c s \<noteq> []"
  by (induction s) (auto split: list.splits)

lemma split_char_none: "c \<notin> set s \<Longrightarrow> split_char c s = [s]"
  by (induction s) auto

lemma split_char_app: "c \<notin> set s \<Longrightarrow> split_char c (s @ c # t) = s # split_char c t"
  by (induction s) auto

lemma split_n_app: "c \<notin> set s \<Longrightarrow> split_n (Suc (Suc n)) c (s @ c # t) = s # split_n (Suc n) c t"
  by (simp add: takeWhile_append dropWhile_append)


lemma str_contains_prepend: "str_contains s t \<Longrightarrow> str_contains (p @ s) t"
  by (induction p) auto

lemma has_prefix_append [simp]: "has_prefix (p @ s) p"
  by (simp add: has_prefix_def)

lemma str_contains_app: "str_contains (s @ t @ u) t"
proof (induction s)
  case Nil
  show ?case
  proof (cases "t @ u")
    case (Cons x xs)
    then show ?thesis using has_prefix_append [of t u] by simp
  qed simp
qed auto

lemma trim_prefix_append [simp]: "trim_prefix (p @ s) p = s"
  by (simp add: trim_prefix_def)

lemma has_prefixE:
  assumes "has_prefix s p"
  obtains t where "s = p @ t"
  using assms by (metis append_take_drop_id has_prefix_def)

lemma byte_lower: "byte (lower_char c) = (if is_upper c then byte c + 32 else byte c)"
  by (auto simp: lower_char_def byte_def is_upper_def of_char_of)

lemma lower_char_idem [simp]: "lower_char (lower_char c) = lower_char c"
proof -
  have "\<not> is_upper (lower_char c)"
    by (auto simp: is_upper_def byte_lower)
  then show ?thesis by (simp add: lower_char_def [of "lower_char c"])
qed

lemma to_lower_idem [simp]: "to_lower (to_lower s) = to_lower s"
  by (simp add: to_lower_def)

lemma is_space_lower [simp]: "is_space (lower_char c) = is_space c"
  by (auto simp: is_space_def byte_lower is_upper_def)

lemma to_lower_trim: "to_lower (trim_space s) = trim_space (to_lower s)"
proof -
  have *: "map lower_char (dropWhile is_space t) = dropWhile is_space (map lower_char t)" for t
    by (induction t) auto
  show ?thesis by (simp add: to_lower_def trim_space_def rev_map * flip: rev_map)
qed

lemma dropWhile_hd: "dropWhile P xs \<noteq> [] \<Longrightarrow> \<not> P (hd (dropWhile P xs))"
  by (rule hd_dropWhile)

lemma dropWhile_rev_dropWhile:
  "dropWhile P (rev (dropWhile P (rev (dropWhile P xs)))) = rev (dropWhile P (rev (dropWhile P xs)))"
proof (cases "rev (dropWhile P (rev (dropWhile P xs)))")
  case (Cons y ys)
  let ?d = "dropWhile P xs"
  obtain zs where "rev ?d = zs @ dropWhile P (rev ?d)"
    by (metis takeWhile_dropWhile_id)
  then have "?d = rev (dropWhile P (rev ?d)) @ rev zs"
    by (metis rev_append rev_rev_ident)
  with Cons have "hd ?d = y" "?d \<noteq> []" by (auto simp: hd_append)
  then have "\<not> P y" using dropWhile_hd [of P xs] by simp
  with Cons show ?thesis by simp
next
  case Nil
  show ?thesis unfolding Nil by simp
qed

lemma trim_space_idem [simp]: "trim_space (trim_space s) = trim_space s"
  by (simp add: trim_space_def dropWhile_rev_dropWhile)

section \<open>Time\<close>

definition second :: int where
  "second = 1000000000"

definition zero_time :: int where \<comment> \<open>Go's zero \<open>time.Time\<close>: 1 January of year 1\<close>
  "zero_time = - 62135596800 * second"

definition fmt_rfc3339 :: "int \<Rightarrow> int" where
  "fmt_rfc3339 t = t div second"

definition parse_rfc3339 :: "int \<Rightarrow> int" where
  "parse_rfc3339 s = s * second"

definition trunc_sec :: "int \<Rightarrow> int" where
  "trunc_sec t = parse_rfc3339 (fmt_rfc3339 t)"

lemma trunc_sec_le: "trunc_sec t \<le> t"
proof -
  have "t div second * second = t - t mod second"
    by (simp add: minus_mod_eq_div_mult)
  moreover have "0 \<le> t mod second" by (simp add: second_def)
  ultimately show ?thesis by (simp add: trunc_sec_def fmt_rfc3339_def parse_rfc3339_def)
qed

lemma trunc_sec_gt: "t - second < trunc_sec t"
proof -
  have "t div second * second = t - t mod second"
    by (simp add: minus_mod_eq_div_mult)
  moreover have "t mod second < second" by (simp add: second_def)
  ultimately show ?thesis by (simp add: trunc_sec_def fmt_rfc3339_def parse_rfc3339_def)
qed

lemma fmt_parse [simp]: "fmt_rfc3339 (parse_rfc3339 s) = s"
  by (simp add: fmt_rfc3339_def parse_rfc3339_def second_def)

lemma trunc_sec_idem [simp]: "trunc_sec (trunc_sec t) = trunc_sec t"
  by (simp add: trunc_sec_def)

end
