(* ===== verification/Regex.thy ===== *)
theory Regex
  imports Prelude
begin

text \<open>
  Go's \<^verbatim>\<open>regexp\<close> matching, for the anchored patterns this program compiles: a pattern
  \<open>^r$\<close> is a regular expression over byte classes, \<^verbatim>\<open>MatchString\<close> asks whether the whole
  string is in its language. \<open>matches\<close> is the language as an inductive relation, \<open>re_match\<close> the
  executable matcher by derivatives; \<open>re_match_iff\<close> shows they agree, so the validators may be
  evaluated by the one and reasoned about with the other.
\<close>

datatype re =
    Nothing
  | Eps
  | Cls "char \<Rightarrow> bool"
  | Cat re re
  | Alt re re
  | Star re

inductive matches :: "re \<Rightarrow> string \<Rightarrow> bool" where
  m_eps: "matches Eps []"
| m_cls: "p c \<Longrightarrow> matches (Cls p) [c]"
| m_cat: "matches r s \<Longrightarrow> matches q t \<Longrightarrow> matches (Cat r q) (s @ t)"
| m_alt1: "matches r s \<Longrightarrow> matches (Alt r q) s"
| m_alt2: "matches q s \<Longrightarrow> matches (Alt r q) s"
| m_star0: "matches (Star r) []"
| m_star: "matches r s \<Longrightarrow> matches (Star r) t \<Longrightarrow> matches (Star r) (s @ t)"

inductive_simps matches_Nothing [simp]: "matches Nothing s"
inductive_simps matches_Eps [simp]: "matches Eps s"
inductive_simps matches_Cls: "matches (Cls p) s"
inductive_simps matches_Cat: "matches (Cat r q) s"
inductive_simps matches_Alt [simp]: "matches (Alt r q) s"

text \<open>The operators of the patterns: \<open>c+\<close>, \<open>c{n,}\<close> and \<open>c{m,n}\<close>; a literal byte.\<close>

definition Plus :: "re \<Rightarrow> re" where
  "Plus r = Cat r (Star r)"

definition Lit :: "char \<Rightarrow> re" where
  "Lit c = Cls (\<lambda>d. d = c)"

fun Rep :: "nat \<Rightarrow> re \<Rightarrow> re" where
  "Rep 0 r = Eps"
| "Rep (Suc n) r = Cat r (Rep n r)"

fun UpTo :: "nat \<Rightarrow> re \<Rightarrow> re" where
  "UpTo 0 r = Eps"
| "UpTo (Suc n) r = Alt Eps (Cat r (UpTo n r))"

section \<open>Matching by derivatives\<close>

fun nullable :: "re \<Rightarrow> bool" where
  "nullable Nothing = False"
| "nullable Eps = True"
| "nullable (Cls p) = False"
| "nullable (Cat r q) = (nullable r \<and> nullable q)"
| "nullable (Alt r q) = (nullable r \<or> nullable q)"
| "nullable (Star r) = True"

fun mk_cat :: "re \<Rightarrow> re \<Rightarrow> re" where
  "mk_cat Nothing q = Nothing"
| "mk_cat Eps q = q"
| "mk_cat r q = Cat r q"

fun mk_alt :: "re \<Rightarrow> re \<Rightarrow> re" where
  "mk_alt Nothing q = q"
| "mk_alt r Nothing = r"
| "mk_alt r q = Alt r q"

fun deriv :: "char \<Rightarrow> re \<Rightarrow> re" where
  "deriv c Nothing = Nothing"
| "deriv c Eps = Nothing"
| "deriv c (Cls p) = (if p c then Eps else Nothing)"
| "deriv c (Cat r q) =
     (if nullable r then mk_alt (mk_cat (deriv c r) q) (deriv c q) else mk_cat (deriv c r) q)"
| "deriv c (Alt r q) = mk_alt (deriv c r) (deriv c q)"
| "deriv c (Star r) = mk_cat (deriv c r) (Star r)"

fun re_match :: "re \<Rightarrow> string \<Rightarrow> bool" where
  "re_match r [] = nullable r"
| "re_match r (c # s) = re_match (deriv c r) s"

lemma matches_star_nil [simp]: "matches (Star r) []"
  by (rule m_star0)

lemma nullable_iff: "nullable r \<longleftrightarrow> matches r []"
  by (induction r) (auto simp: matches_Cls matches_Cat)

lemma matches_mk_cat [simp]: "matches (mk_cat r q) s = matches (Cat r q) s"
  by (cases "(r, q)" rule: mk_cat.cases) (auto simp: matches_Cat)

lemma matches_mk_alt [simp]: "matches (mk_alt r q) s = matches (Alt r q) s"
  by (cases "(r, q)" rule: mk_alt.cases) auto

lemma matches_Star_Cons:
  "matches (Star r) (c # s) \<longleftrightarrow> (\<exists>u v. s = u @ v \<and> matches r (c # u) \<and> matches (Star r) v)"
  (is "?l = ?r")
proof
  have "\<exists>u v. s = u @ v \<and> matches r (c # u) \<and> matches (Star r) v"
    if "matches x w" "x = Star r" "w = c # s" for x w
    using that
    by (induction arbitrary: s rule: matches.induct) (auto simp: append_eq_Cons_conv)
  then show "?l \<Longrightarrow> ?r" by blast
next
  assume ?r
  then obtain u v where "s = u @ v" "matches r (c # u)" "matches (Star r) v" by blast
  then show ?l using m_star [of r "c # u" v] by simp
qed

lemma deriv_iff: "matches (deriv c r) s \<longleftrightarrow> matches r (c # s)"
proof (induction r arbitrary: s)
  case (Cat r q)
  then show ?case
    by (auto simp: matches_Cat nullable_iff Cons_eq_append_conv)
next
  case (Star r)
  then show ?case by (auto simp: matches_Cat matches_Star_Cons)
qed (auto simp: matches_Cls)

theorem re_match_iff: "re_match r s \<longleftrightarrow> matches r s"
  by (induction s arbitrary: r) (simp_all add: nullable_iff deriv_iff)

declare re_match.simps [simp del]

section \<open>Languages of the operators\<close>

lemma matches_Lit [simp]: "matches (Lit c) s \<longleftrightarrow> s = [c]"
  by (auto simp: Lit_def matches_Cls)

lemma matches_StarCls: "matches (Star (Cls p)) s \<longleftrightarrow> (\<forall>c \<in> set s. p c)"
  by (induction s) (auto simp: matches_Star_Cons matches_Cls)

lemma matches_CatCls [simp]:
  "\<not> matches (Cat (Cls p) q) []" "matches (Cat (Cls p) q) (c # s) \<longleftrightarrow> p c \<and> matches q s"
proof -
  show "\<not> matches (Cat (Cls p) q) []" by (simp add: matches_Cat matches_Cls)
  have "p c \<Longrightarrow> matches q s \<Longrightarrow> matches (Cat (Cls p) q) ([c] @ s)"
    by (intro m_cat m_cls)
  then show "matches (Cat (Cls p) q) (c # s) \<longleftrightarrow> p c \<and> matches q s"
    by (auto simp: matches_Cat matches_Cls)
qed

lemma matches_PlusCls: "matches (Plus (Cls p)) s \<longleftrightarrow> s \<noteq> [] \<and> (\<forall>c \<in> set s. p c)"
  by (cases s) (auto simp: Plus_def matches_StarCls)

lemma matches_RepCls: "matches (Rep n (Cls p)) s \<longleftrightarrow> length s = n \<and> (\<forall>c \<in> set s. p c)"
proof (induction n arbitrary: s)
  case (Suc n)
  then show ?case
    by (cases s) auto
qed auto

lemma matches_UpToCls: "matches (UpTo n (Cls p)) s \<longleftrightarrow> length s \<le> n \<and> (\<forall>c \<in> set s. p c)"
proof (induction n arbitrary: s)
  case (Suc n)
  then show ?case
    by (cases s) auto
qed auto

text \<open>\<open>c{m,n}\<close> and \<open>c{m,}\<close> as a repetition followed by the optional rest.\<close>

lemma matches_Between:
  "matches (Cat (Rep m (Cls p)) (UpTo k (Cls p))) s \<longleftrightarrow>
     m \<le> length s \<and> length s \<le> m + k \<and> (\<forall>c \<in> set s. p c)" (is "?l = ?r")
proof
  assume ?r
  then have "s = take m s @ drop m s" "length (take m s) = m" "length (drop m s) \<le> k"
    "\<forall>c \<in> set (take m s). p c" "\<forall>c \<in> set (drop m s). p c"
    by (auto dest: in_set_takeD in_set_dropD)
  then show ?l unfolding matches_Cat matches_RepCls matches_UpToCls by blast
qed (auto simp: matches_Cat matches_RepCls matches_UpToCls)

lemma matches_AtLeast:
  "matches (Cat (Rep m (Cls p)) (Star (Cls p))) s \<longleftrightarrow>
     m \<le> length s \<and> (\<forall>c \<in> set s. p c)" (is "?l = ?r")
proof
  assume ?r
  then have "s = take m s @ drop m s" "length (take m s) = m"
    "\<forall>c \<in> set (take m s). p c" "\<forall>c \<in> set (drop m s). p c"
    by (auto dest: in_set_takeD in_set_dropD)
  then show ?l unfolding matches_Cat matches_RepCls matches_StarCls by blast
qed (auto simp: matches_Cat matches_RepCls matches_StarCls)

end
