(* ===== verification/Domain.thy ===== *)
theory Domain
  imports Regex
begin

text \<open>
  \<^verbatim>\<open>internal/domain\<close>: the entities, their inputs and the validation rules at the boundary.
  Record fields carry the name of the Go field behind a prefix for their struct
  (\<open>usr_\<close> User, \<open>cui_\<close> CreateUserInput, \<open>uui_\<close> UpdateUserInput, \<open>sa_\<close> ServiceAccount,
  \<open>ses_\<close> Session, \<open>sci_\<close> SessionCreateInput, \<open>sri_\<close> SessionRefreshInput, \<open>prin_\<close> Principal,
  \<open>cai_\<close> ContextActivationInput). A \<^verbatim>\<open>Validate\<close> method with a pointer receiver returns the
  error, if any, and the receiver as it left it.
\<close>

section \<open>Actor types\<close>

type_synonym ActorType = string

definition ActorTypes :: "ActorType list" where
  "ActorTypes =
     [''SUPER_ADMIN'', ''ADMIN'', ''ORG_CHAIR'', ''GENERAL_MANAGER'', ''FLEET_MANAGER'',
      ''OPERATIONS_MANAGER'', ''BRANCH_MANAGER'', ''SECRETARY'', ''ACCOUNTANT'',
      ''ACCOUNTS_CLERK'', ''AUDITOR'', ''COMPLIANCE_OFFICER'', ''ROUTE_SUPERVISOR'',
      ''DISPATCHER'', ''MECHANIC'', ''FIELD_ATTENDANT'', ''DATA_CLERK'', ''CUSTOMER_SUPPORT'',
      ''SALES_MANAGER'', ''OPERATOR'', ''DRIVER'', ''CONDUCTOR'', ''PASSENGER'', ''GUEST'']"

definition orgStaffTypes :: "ActorType list" where
  "orgStaffTypes =
     [''GENERAL_MANAGER'', ''FLEET_MANAGER'', ''OPERATIONS_MANAGER'', ''BRANCH_MANAGER'',
      ''SECRETARY'', ''ACCOUNTANT'', ''ACCOUNTS_CLERK'', ''AUDITOR'', ''COMPLIANCE_OFFICER'',
      ''ROUTE_SUPERVISOR'', ''DISPATCHER'', ''MECHANIC'', ''FIELD_ATTENDANT'', ''DATA_CLERK'',
      ''CUSTOMER_SUPPORT'', ''SALES_MANAGER'']"

definition IsOrgStaff :: "ActorType \<Rightarrow> bool" where
  "IsOrgStaff t = List.member orgStaffTypes t"

definition ActorType_IsValid :: "ActorType \<Rightarrow> bool" where
  "ActorType_IsValid t = List.member ActorTypes t"

record ContextActivationInput =
  cai_UserID :: string
  cai_Nickname :: string
  cai_Email :: string
  cai_ActorID :: string
  cai_ActorType :: ActorType
  cai_Permissions :: "string list"
  cai_DelegatedPermissions :: "string list"
  cai_PolicyGroups :: "string list"

section \<open>Users\<close>

record User =
  usr_ID :: string
  usr_FirstName :: string
  usr_LastName :: string
  usr_Nickname :: string
  usr_PasswordHash :: string
  usr_Email :: string
  usr_Country :: string
  usr_Active :: bool
  usr_CreatedAt :: int
  usr_UpdatedAt :: int

record CreateUserInput =
  cui_FirstName :: string
  cui_LastName :: string
  cui_Nickname :: string
  cui_Password :: string
  cui_Email :: string
  cui_Country :: string

definition is_alpha :: "char \<Rightarrow> bool" where
  "is_alpha c = ((65 \<le> byte c \<and> byte c \<le> 90) \<or> (97 \<le> byte c \<and> byte c \<le> 122))"

definition is_digit :: "char \<Rightarrow> bool" where
  "is_digit c = (48 \<le> byte c \<and> byte c \<le> 57)"

definition local_char :: "char \<Rightarrow> bool" where
  "local_char c = (is_alpha c \<or> is_digit c \<or> List.member ''._%+-'' c)"

definition host_char :: "char \<Rightarrow> bool" where
  "host_char c = (is_alpha c \<or> is_digit c \<or> List.member ''.-'' c)"

definition nick_char :: "char \<Rightarrow> bool" where
  "nick_char c = (is_alpha c \<or> is_digit c \<or> List.member ''_-'' c)"

definition emailRegex :: re where
  "emailRegex =
     Cat (Plus (Cls local_char)) (Cat (Lit (CHR ''@'')) (Cat (Plus (Cls host_char))
       (Cat (Lit (CHR ''.'')) (Cat (Rep 2 (Cls is_alpha)) (Star (Cls is_alpha))))))"

definition nicknameRegex :: re where
  "nicknameRegex = Cat (Rep 3 (Cls nick_char)) (UpTo 29 (Cls nick_char))"

definition CreateUserInput_Validate :: "CreateUserInput \<Rightarrow> goerr option \<times> CreateUserInput" where
  "CreateUserInput_Validate i0 =
     (let i = i0\<lparr>cui_Email := to_lower (trim_space (cui_Email i0)),
                 cui_Nickname := trim_space (cui_Nickname i0),
                 cui_FirstName := trim_space (cui_FirstName i0),
                 cui_LastName := trim_space (cui_LastName i0),
                 cui_Country := trim_space (cui_Country i0)\<rparr> in
      if cui_FirstName i = '''' \<or> cui_LastName i = '''' then (Some (Sentinel ErrInvalidInput), i)
      else if \<not> re_match emailRegex (cui_Email i) then (Some (Sentinel ErrInvalidInput), i)
      else if \<not> re_match nicknameRegex (cui_Nickname i) then (Some (Sentinel ErrInvalidInput), i)
      else if length (cui_Password i) < 8 then (Some (Sentinel ErrInvalidInput), i)
      else if cui_Country i = '''' then (Some (Sentinel ErrInvalidInput), i)
      else (None, i))"

record UpdateUserInput =
  uui_FirstName :: "string option"
  uui_LastName :: "string option"
  uui_Nickname :: "string option"
  uui_Country :: "string option"

record LoginInput =
  li_Email :: string
  li_Password :: string

definition LoginInput_Validate :: "LoginInput \<Rightarrow> goerr option \<times> LoginInput" where
  "LoginInput_Validate i0 =
     (let i = i0\<lparr>li_Email := to_lower (trim_space (li_Email i0))\<rparr> in
      if \<not> re_match emailRegex (li_Email i) then (Some (Sentinel ErrInvalidInput), i)
      else if li_Password i = '''' then (Some (Sentinel ErrInvalidInput), i)
      else (None, i))"

text \<open>\<^verbatim>\<open>Page\<close> and \<^verbatim>\<open>PageSize\<close> are Go \<^verbatim>\<open>int\<close>s, 64 bits wide; \<open>wrap64\<close> reduces to that range.\<close>

definition wrap64 :: "int \<Rightarrow> int" where
  "wrap64 x = (x + 2 ^ 63) mod 2 ^ 64 - 2 ^ 63"

lemma wrap64_id: "- (2 ^ 63) \<le> x \<Longrightarrow> x < 2 ^ 63 \<Longrightarrow> wrap64 x = x"
  by (simp add: wrap64_def)

record ListFilter =
  lf_Country :: string
  lf_Page :: int
  lf_PageSize :: int

definition ListFilter_Normalise :: "ListFilter \<Rightarrow> ListFilter" where
  "ListFilter_Normalise f0 =
     (let f = (if lf_Page f0 < 1 then f0\<lparr>lf_Page := 1\<rparr> else f0) in
      if lf_PageSize f < 1 then f\<lparr>lf_PageSize := 20\<rparr>
      else if lf_PageSize f > 100 then f\<lparr>lf_PageSize := 100\<rparr>
      else f)"

record ListResult =
  lr_Users :: "User list"
  lr_Total :: int
  lr_Page :: int
  lr_Pages :: int

record TokenPair =
  tp_AccessToken :: string
  tp_RefreshToken :: string
  tp_ExpiresIn :: int

section \<open>Principals\<close>

type_synonym PrincipalKind = string

definition PrincipalKindUser :: PrincipalKind where
  "PrincipalKindUser = ''user''"

definition PrincipalKindService :: PrincipalKind where
  "PrincipalKindService = ''service''"

record Principal =
  prin_Kind :: PrincipalKind
  prin_ActorType :: ActorType
  prin_UserID :: string
  prin_ActorID :: string
  prin_Nickname :: string
  prin_Email :: string
  prin_Permissions :: "string list"
  prin_DelegatedPermissions :: "string list"
  prin_PolicyGroups :: "string list"
  prin_ClientID :: string
  prin_Name :: string

fun any_equal :: "string list \<Rightarrow> string \<Rightarrow> bool" where \<comment> \<open>the two search loops of \<open>HasPermission\<close>\<close>
  "any_equal [] action = False"
| "any_equal (perm # ps) action = (if perm = action then True else any_equal ps action)"

definition HasPermission :: "Principal \<Rightarrow> string \<Rightarrow> bool" where
  "HasPermission p action =
     (if any_equal (prin_Permissions p) action then True
      else any_equal (prin_DelegatedPermissions p) action)"

definition Principal_IsActorType :: "Principal \<Rightarrow> ActorType \<Rightarrow> bool" where
  "Principal_IsActorType p t = (prin_ActorType p = t)"

definition Principal_IsOrgStaff :: "Principal \<Rightarrow> bool" where
  "Principal_IsOrgStaff p = IsOrgStaff (prin_ActorType p)"

definition HasContext :: "Principal \<Rightarrow> bool" where
  "HasContext p = (prin_ActorID p \<noteq> '''' \<and> ActorType_IsValid (prin_ActorType p))"

section \<open>Service accounts\<close>

record ServiceAccount =
  sa_ID :: string
  sa_ClientID :: string
  sa_Name :: string
  sa_SecretHash :: string
  sa_ActorType :: ActorType
  sa_Permissions :: "string list"
  sa_Active :: bool
  sa_CreatedAt :: int
  sa_UpdatedAt :: int

record CreateServiceAccountInput =
  csi_ClientID :: string
  csi_Name :: string
  csi_ClientSecret :: string
  csi_ActorType :: ActorType
  csi_Permissions :: "string list"

definition CreateServiceAccountInput_Validate :: "CreateServiceAccountInput \<Rightarrow> goerr option" where
  "CreateServiceAccountInput_Validate i =
     (if csi_ClientID i = '''' \<or> length (csi_ClientID i) > 64 then Some (Sentinel ErrInvalidInput)
      else if csi_Name i = '''' then Some (Sentinel ErrInvalidInput)
      else if length (csi_ClientSecret i) < 32 then Some (Sentinel ErrInvalidInput)
      else if \<not> ActorType_IsValid (csi_ActorType i) then Some (Sentinel ErrInvalidInput)
      else None)"

record ServiceLoginInput =
  sli_ClientID :: string
  sli_ClientSecret :: string

definition ServiceLoginInput_Validate :: "ServiceLoginInput \<Rightarrow> goerr option" where
  "ServiceLoginInput_Validate i =
     (if sli_ClientID i = '''' then Some (Sentinel ErrInvalidInput)
      else if sli_ClientSecret i = '''' then Some (Sentinel ErrInvalidInput)
      else None)"

section \<open>Sessions\<close>

record Session =
  ses_ID :: string
  ses_Kind :: PrincipalKind
  ses_UserID :: string
  ses_ClientID :: string
  ses_ActorID :: string
  ses_ActorType :: ActorType
  ses_AccessTokenHash :: string
  ses_RefreshTokenHash :: string
  ses_RefreshJTI :: string
  ses_ReplacedByJTI :: string
  ses_Permissions :: "string list"
  ses_DelegatedPermissions :: "string list"
  ses_PolicyGroups :: "string list"
  ses_PermissionVersion :: nat
  ses_CreatedAt :: int
  ses_UpdatedAt :: int
  ses_LastSeenAt :: int
  ses_ExpiresAt :: int
  ses_RefreshExpiresAt :: int
  ses_Revoked :: bool
  ses_RevokedAt :: "int option"
  ses_UserAgent :: string
  ses_IPAddress :: string

definition IsExpired :: "int \<Rightarrow> Session \<Rightarrow> bool" where
  "IsExpired now s = (now > ses_ExpiresAt s)"

definition IsRefreshExpired :: "int \<Rightarrow> Session \<Rightarrow> bool" where
  "IsRefreshExpired now s = (now > ses_RefreshExpiresAt s)"

definition Session_IsValid :: "int \<Rightarrow> Session \<Rightarrow> bool" where
  "Session_IsValid now s = (\<not> ses_Revoked s \<and> \<not> IsExpired now s)"

record SessionCreateInput =
  sci_Kind :: PrincipalKind
  sci_UserID :: string
  sci_ClientID :: string
  sci_ActorID :: string
  sci_ActorType :: ActorType
  sci_AccessTokenHash :: string
  sci_RefreshTokenHash :: string
  sci_RefreshJTI :: string
  sci_Permissions :: "string list"
  sci_DelegatedPermissions :: "string list"
  sci_PolicyGroups :: "string list"
  sci_PermissionVersion :: nat
  sci_ExpiresAt :: int
  sci_RefreshExpiresAt :: int
  sci_UserAgent :: string
  sci_IPAddress :: string

record SessionRefreshInput =
  sri_OldSessionID :: string
  sri_NewAccessTokenHash :: string
  sri_NewRefreshTokenHash :: string
  sri_NewRefreshJTI :: string
  sri_Permissions :: "string list"
  sri_DelegatedPermissions :: "string list"
  sri_PolicyGroups :: "string list"
  sri_PermissionVersion :: nat
  sri_NewExpiresAt :: int
  sri_NewRefreshExpiresAt :: int
  sri_UserAgent :: string
  sri_IPAddress :: string

section \<open>Validation\<close>

lemma at_not_local: "\<not> local_char (CHR ''@'')"
  by (simp add: local_char_def is_alpha_def is_digit_def byte_def)

lemma emailRegex_matches:
  "re_match emailRegex s \<longleftrightarrow>
     (\<exists>l h t. s = l @ ''@'' @ h @ ''.'' @ t \<and> l \<noteq> [] \<and> h \<noteq> [] \<and> 2 \<le> length t \<and>
        (\<forall>c \<in> set l. local_char c) \<and> (\<forall>c \<in> set h. host_char c) \<and> (\<forall>c \<in> set t. is_alpha c))"
proof -
  have tail: "matches (Cat (Lit (CHR ''.'')) (Cat (Rep 2 (Cls is_alpha)) (Star (Cls is_alpha)))) u \<longleftrightarrow>
      (\<exists>t. u = ''.'' @ t \<and> 2 \<le> length t \<and> (\<forall>c \<in> set t. is_alpha c))" for u
    by (subst matches_Cat) (auto simp: matches_AtLeast)
  have host: "matches (Cat (Plus (Cls host_char)) (Cat (Lit (CHR ''.''))
        (Cat (Rep 2 (Cls is_alpha)) (Star (Cls is_alpha))))) u \<longleftrightarrow>
      (\<exists>h t. u = h @ ''.'' @ t \<and> h \<noteq> [] \<and> (\<forall>c \<in> set h. host_char c) \<and>
         2 \<le> length t \<and> (\<forall>c \<in> set t. is_alpha c))" for u
    by (subst matches_Cat, simp only: tail matches_PlusCls) blast
  have at: "matches (Cat (Lit (CHR ''@'')) q) u \<longleftrightarrow> (\<exists>v. u = ''@'' @ v \<and> matches q v)" for q u
    by (subst matches_Cat) auto
  show ?thesis
    unfolding re_match_iff emailRegex_def
    by (subst matches_Cat, simp only: at host matches_PlusCls) blast
qed

lemma nicknameRegex_matches:
  "re_match nicknameRegex s \<longleftrightarrow> 3 \<le> length s \<and> length s \<le> 32 \<and> (\<forall>c \<in> set s. nick_char c)"
  by (auto simp: re_match_iff nicknameRegex_def matches_Between)

lemma any_equal_iff [simp]: "any_equal ps a \<longleftrightarrow> a \<in> set ps"
  by (induction ps) auto

lemma ActorType_IsValid_iff: "ActorType_IsValid t \<longleftrightarrow> t \<in> set ActorTypes"
  by (simp add: ActorType_IsValid_def)

lemma empty_not_valid [simp]: "\<not> ActorType_IsValid ''''"
  by (simp add: ActorType_IsValid_iff ActorTypes_def)

lemma Validate_invalid_input:
  "CreateUserInput_Validate i = (Some e, j) \<Longrightarrow> e = Sentinel ErrInvalidInput"
  "LoginInput_Validate l = (Some e, m) \<Longrightarrow> e = Sentinel ErrInvalidInput"
  "CreateServiceAccountInput_Validate c = Some e \<Longrightarrow> e = Sentinel ErrInvalidInput"
  "ServiceLoginInput_Validate d = Some e \<Longrightarrow> e = Sentinel ErrInvalidInput"
  by (auto simp: CreateUserInput_Validate_def LoginInput_Validate_def
      CreateServiceAccountInput_Validate_def ServiceLoginInput_Validate_def Let_def
      split: if_splits)

lemma Session_IsValid_iff:
  "Session_IsValid now s \<longleftrightarrow> \<not> ses_Revoked s \<and> now \<le> ses_ExpiresAt s"
  by (auto simp: Session_IsValid_def IsExpired_def)

lemma Normalise_range:
  "1 \<le> lf_Page (ListFilter_Normalise f)"
  "1 \<le> lf_PageSize (ListFilter_Normalise f)"
  "lf_PageSize (ListFilter_Normalise f) \<le> 100"
  "lf_Country (ListFilter_Normalise f) = lf_Country f"
  by (auto simp: ListFilter_Normalise_def Let_def)

lemma Normalise_idem [simp]: "ListFilter_Normalise (ListFilter_Normalise f) = ListFilter_Normalise f"
  by (auto simp: ListFilter_Normalise_def Let_def)

end
