(* ===== verification/Encoding.thy ===== *)
theory Encoding
  imports Domain "HOL-Library.Word"
begin

text \<open>
  The encoders of Go's standard library that the tokens and zookies go through:
  \<^verbatim>\<open>encoding/hex\<close>, \<^verbatim>\<open>binary.LittleEndian\<close> and \<^verbatim>\<open>base64.RawURLEncoding\<close> (no padding), on byte
  strings; then \<^verbatim>\<open>internal/domain/zookie.go\<close>, which is built from the last two. Each encoder has
  a decoder and a round-trip lemma, from which injectivity follows.
\<close>

section \<open>Hexadecimal\<close>

definition hex_digit :: "nat \<Rightarrow> char" where
  "hex_digit n = ''0123456789abcdef'' ! n"

fun hex_encode :: "string \<Rightarrow> string" where
  "hex_encode [] = []"
| "hex_encode (b # bs) = hex_digit (byte b div 16) # hex_digit (byte b mod 16) # hex_encode bs"

lemma byte_less [simp]: "byte c < 256"
  using of_char_mod_256 [of c, where 'a = nat] by (simp add: byte_def)

lemma char_of_byte [simp]: "char_of (byte c) = c"
  by (simp add: byte_def)

lemma byte_char_of [simp]: "byte (char_of n) = n mod 256"
  by (simp add: byte_def of_char_of)

lemma char_of_eqI: "n mod 256 = byte c \<Longrightarrow> char_of n = c"
  by (metis char_of_byte char_of_mod_256)

lemma byte_inj: "byte c = byte d \<Longrightarrow> c = d"
  by (metis char_of_byte)

lemma hex_digit_inj: "m < 16 \<Longrightarrow> n < 16 \<Longrightarrow> hex_digit m = hex_digit n \<Longrightarrow> m = n"
  using nth_eq_iff_index_eq [of "''0123456789abcdef''" m n] by (simp add: hex_digit_def)

lemma length_hex_encode [simp]: "length (hex_encode bs) = 2 * length bs"
  by (induction bs) auto

definition is_lower_hex :: "char \<Rightarrow> bool" where
  "is_lower_hex c = List.member ''0123456789abcdef'' c"

lemma hex_encode_chars: "c \<in> set (hex_encode bs) \<Longrightarrow> is_lower_hex c"
proof (induction bs)
  case (Cons b bs)
  have "is_lower_hex (hex_digit n)" if "n < 16" for n
    using nth_mem [of n "''0123456789abcdef''"] that
    by (simp add: is_lower_hex_def hex_digit_def del: nth_mem)
  moreover have "byte b div 16 < 16"
    using byte_less [of b] by (simp add: less_mult_imp_div_less)
  ultimately show ?case using Cons by auto
qed simp

lemma hex_encode_inj: "hex_encode bs = hex_encode cs \<Longrightarrow> bs = cs"
proof (induction bs arbitrary: cs)
  case Nil
  then show ?case by (cases cs) auto
next
  case (Cons b bs)
  then obtain d ds where cs: "cs = d # ds" by (cases cs) auto
  with Cons.prems have "hex_digit (byte b div 16) = hex_digit (byte d div 16)"
    "hex_digit (byte b mod 16) = hex_digit (byte d mod 16)" "hex_encode bs = hex_encode ds" by auto
  moreover have "byte b div 16 < 16" "byte d div 16 < 16"
    using byte_less [of b] byte_less [of d] by (simp_all add: less_mult_imp_div_less)
  ultimately have "byte b div 16 = byte d div 16" "byte b mod 16 = byte d mod 16"
    by (auto intro: hex_digit_inj)
  then have "b = d" by (metis byte_inj div_mult_mod_eq)
  with cs Cons.IH \<open>hex_encode bs = hex_encode ds\<close> show ?case by simp
qed

section \<open>Little-endian bytes\<close>

fun le_bytes :: "nat \<Rightarrow> nat \<Rightarrow> string" where
  "le_bytes 0 x = []"
| "le_bytes (Suc k) x = char_of (x mod 256) # le_bytes k (x div 256)"

fun le_value :: "string \<Rightarrow> nat" where
  "le_value [] = 0"
| "le_value (b # bs) = byte b + 256 * le_value bs"

lemma length_le_bytes [simp]: "length (le_bytes k x) = k"
  by (induction k arbitrary: x) auto

lemma le_value_bytes: "le_value (le_bytes k x) = x mod 256 ^ k"
proof (induction k arbitrary: x)
  case (Suc k)
  then show ?case by (simp add: mod_mult2_eq add.commute)
qed simp

definition PutUint64 :: "64 word \<Rightarrow> string" where
  "PutUint64 v = le_bytes 8 (unat v)"

lemma PutUint64_inj: "PutUint64 v = PutUint64 w \<Longrightarrow> v = w"
proof -
  assume "PutUint64 v = PutUint64 w"
  then have "le_value (le_bytes 8 (unat v)) = le_value (le_bytes 8 (unat w))"
    by (simp add: PutUint64_def)
  moreover have "unat u < 256 ^ 8" for u :: "64 word"
    using unsigned_less [of u, where 'a = nat] by simp
  ultimately have "unat v = unat w" by (simp add: le_value_bytes)
  then show "v = w" by (rule unsigned_word_eqI)
qed

section \<open>Base64, URL alphabet, without padding\<close>

definition b64_alphabet :: string where
  "b64_alphabet = ''ABCDEFGHIJKLMNOPQRSTUVWXYZabcdefghijklmnopqrstuvwxyz0123456789-_''"

definition b64_char :: "nat \<Rightarrow> char" where
  "b64_char n = b64_alphabet ! n"

fun index_of :: "string \<Rightarrow> char \<Rightarrow> nat option" where
  "index_of [] c = None"
| "index_of (x # xs) c = (if x = c then Some 0 else map_option Suc (index_of xs c))"

definition b64_index :: "char \<Rightarrow> nat option" where
  "b64_index c = index_of b64_alphabet c"

fun b64_encode :: "string \<Rightarrow> string" where
  "b64_encode [] = []"
| "b64_encode [a] = (let n = byte a * 16 in [b64_char (n div 64), b64_char (n mod 64)])"
| "b64_encode [a, b] =
     (let n = (byte a * 256 + byte b) * 4
      in [b64_char (n div 4096), b64_char (n div 64 mod 64), b64_char (n mod 64)])"
| "b64_encode (a # b # c # rest) =
     (let n = byte a * 65536 + byte b * 256 + byte c
      in b64_char (n div 262144) # b64_char (n div 4096 mod 64) # b64_char (n div 64 mod 64)
         # b64_char (n mod 64) # b64_encode rest)"

text \<open>
  \<^verbatim>\<open>DecodeString\<close> of the raw encoding: quartets, then a rest of two or three symbols whose spare
  low bits are dropped (the non-strict mode). Line breaks, which Go skips, never occur in the
  strings the program decodes after encoding; other symbols outside the alphabet are an error.
\<close>

fun b64_decode_idx :: "nat list \<Rightarrow> string option" where
  "b64_decode_idx [] = Some []"
| "b64_decode_idx [i] = None"
| "b64_decode_idx [i, j] = Some [char_of ((i * 64 + j) div 16)]"
| "b64_decode_idx [i, j, k] =
     (let n = i * 4096 + j * 64 + k in Some [char_of (n div 1024), char_of (n div 4 mod 256)])"
| "b64_decode_idx (i # j # k # l # rest) =
     (let n = i * 262144 + j * 4096 + k * 64 + l
      in map_option (\<lambda>bs. char_of (n div 65536) # char_of (n div 256 mod 256) # char_of (n mod 256) # bs)
           (b64_decode_idx rest))"

definition b64_decode :: "string \<Rightarrow> string option" where
  "b64_decode s = (case those (map b64_index s) of None \<Rightarrow> None | Some is \<Rightarrow> b64_decode_idx is)"

lemma index_of_nth: "distinct xs \<Longrightarrow> n < length xs \<Longrightarrow> index_of xs (xs ! n) = Some n"
  by (induction xs arbitrary: n) (auto simp: nth_Cons split: nat.splits)

lemma b64_alphabet_facts: "distinct b64_alphabet" "length b64_alphabet = 64"
  by (simp_all add: b64_alphabet_def)

lemma b64_index_char: "n < 64 \<Longrightarrow> b64_index (b64_char n) = Some n"
  by (simp add: b64_index_def b64_char_def index_of_nth b64_alphabet_facts)

lemma b64_decode_Cons4:
  assumes "i < 64" "j < 64" "k < 64" "l < 64"
  shows "b64_decode (b64_char i # b64_char j # b64_char k # b64_char l # s) =
    (let n = i * 262144 + j * 4096 + k * 64 + l
     in map_option (\<lambda>bs. char_of (n div 65536) # char_of (n div 256 mod 256) # char_of (n mod 256) # bs)
           (b64_decode s))"
  using assms
  by (auto simp: b64_decode_def b64_index_char Let_def option.map_comp o_def split: option.splits)

lemma div_digit: "r < m \<Longrightarrow> (a * m + r) div m = (a :: nat)"
  by simp

lemma mod_digit: "r < m \<Longrightarrow> (a * m + r) mod m = (r :: nat)"
  by simp

lemma recompose4:
  "n = x * 64 + p \<Longrightarrow> x = y * 64 + q \<Longrightarrow> y = z * 64 + r \<Longrightarrow>
     z * 262144 + r * 4096 + q * 64 + p = (n :: nat)"
  by simp

lemma sextets4:
  fixes n :: nat
  shows "n div 262144 * 262144 + n div 4096 mod 64 * 4096 + n div 64 mod 64 * 64 + n mod 64 = n"
proof (rule recompose4)
  show "n = n div 64 * 64 + n mod 64" by (rule div_mult_mod_eq [symmetric])
  show "n div 64 = n div 4096 * 64 + n div 64 mod 64"
    using div_mult_mod_eq [of "n div 64" 64] by (simp flip: div_mult2_eq)
  show "n div 4096 = n div 262144 * 64 + n div 4096 mod 64"
    using div_mult_mod_eq [of "n div 4096" 64] by (simp flip: div_mult2_eq)
qed

lemma sextets3:
  fixes n :: nat
  shows "n div 4096 * 4096 + n div 64 mod 64 * 64 + n mod 64 = n"
proof -
  have "n = n div 64 * 64 + n mod 64" by (rule div_mult_mod_eq [symmetric])
  moreover have "n div 64 = n div 4096 * 64 + n div 64 mod 64"
    using div_mult_mod_eq [of "n div 64" 64] by (simp flip: div_mult2_eq)
  ultimately show ?thesis using recompose4 [of n "n div 64" "n mod 64" "n div 4096" "n div 64 mod 64" 0 "n div 4096"]
    by simp
qed

lemma b64_decode_3:
  "i < 64 \<Longrightarrow> j < 64 \<Longrightarrow> k < 64 \<Longrightarrow>
     b64_decode [b64_char i, b64_char j, b64_char k] =
       (let n = i * 4096 + j * 64 + k in Some [char_of (n div 1024), char_of (n div 4 mod 256)])"
  by (simp add: b64_decode_def b64_index_char)

lemma octets3:
  fixes a b c :: nat
  assumes "a < 256" "b < 256" "c < 256"
  shows "(a * 65536 + b * 256 + c) div 65536 = a" "(a * 65536 + b * 256 + c) div 256 mod 256 = b"
    "(a * 65536 + b * 256 + c) mod 256 = c" "(a * 65536 + b * 256 + c) div 262144 < 64"
proof -
  have "a * 65536 + b * 256 + c = a * 65536 + (b * 256 + c)" "b * 256 + c < 65536"
    using assms by linarith+
  then show "(a * 65536 + b * 256 + c) div 65536 = a" by (metis div_digit)
  have "a * 65536 + b * 256 + c = (a * 256 + b) * 256 + c" by simp
  then show "(a * 65536 + b * 256 + c) div 256 mod 256 = b" "(a * 65536 + b * 256 + c) mod 256 = c"
    using assms by (metis div_digit mod_digit)+
  show "(a * 65536 + b * 256 + c) div 262144 < 64"
    using assms by (simp add: less_mult_imp_div_less)
qed

lemma octets2:
  fixes a b :: nat
  assumes "a < 256" "b < 256"
  shows "(a * 256 + b) * 4 div 1024 = a" "(a * 256 + b) * 4 div 4 mod 256 = b"
    "(a * 256 + b) * 4 div 4096 < 64"
proof -
  have "(a * 256 + b) * 4 = a * 1024 + b * 4" "b * 4 < 1024" using assms by auto
  then show "(a * 256 + b) * 4 div 1024 = a" by (metis div_digit)
  show "(a * 256 + b) * 4 div 4 mod 256 = b" using assms by simp
  show "(a * 256 + b) * 4 div 4096 < 64"
    using assms by (simp add: less_mult_imp_div_less)
qed

lemma b64_round_trip: "b64_decode (b64_encode s) = Some s"
proof (induction s rule: b64_encode.induct)
  case 1
  show ?case by (simp add: b64_decode_def)
next
  case (2 a)
  define n where "n = byte a * 16"
  have "n div 64 < 64" using byte_less [of a] by (simp add: n_def less_mult_imp_div_less)
  moreover have "(n div 64 * 64 + n mod 64) div 16 = byte a"
    by (simp only: div_mult_mod_eq) (simp add: n_def)
  ultimately show ?case
    by (simp add: b64_decode_def b64_index_char Let_def flip: n_def)
next
  case (3 a b)
  define n where "n = (byte a * 256 + byte b) * 4"
  have "n div 1024 = byte a" "n div 4 mod 256 = byte b" "n div 4096 < 64"
    unfolding n_def by (rule octets2, rule byte_less, rule byte_less)+
  moreover have "b64_encode [a, b] = [b64_char (n div 4096), b64_char (n div 64 mod 64), b64_char (n mod 64)]"
    by (simp add: n_def Let_def)
  moreover have "char_of (n div 4) = b"
    using \<open>n div 4 mod 256 = byte b\<close> by (rule char_of_eqI)
  ultimately show ?case
    by (simp add: b64_decode_3 Let_def sextets3)
next
  case (4 a b c rest)
  define n where "n = byte a * 65536 + byte b * 256 + byte c"
  have "n div 65536 = byte a" "n div 256 mod 256 = byte b" "n mod 256 = byte c" "n div 262144 < 64"
    unfolding n_def by (rule octets3, (rule byte_less)+)+
  moreover have "b64_decode (b64_encode rest) = Some rest" by (rule 4) (rule n_def)
  moreover have "char_of (n div 256) = b" "char_of n = c"
    using \<open>n div 256 mod 256 = byte b\<close> \<open>n mod 256 = byte c\<close> by (auto intro: char_of_eqI)
  ultimately show ?case
    by (simp add: b64_decode_Cons4 Let_def sextets4 flip: n_def)
qed

lemma b64_encode_inj: "b64_encode s = b64_encode t \<Longrightarrow> s = t"
  by (metis b64_round_trip option.inject)

section \<open>Zookies\<close>

record Zookie =
  zk_Token :: string

definition NewZookie :: "64 word \<Rightarrow> Zookie" where
  "NewZookie commitTs = (let b = PutUint64 commitTs in \<lparr>zk_Token = b64_encode b\<rparr>)"

definition HasToken :: "Zookie \<Rightarrow> bool" where
  "HasToken z = (zk_Token z \<noteq> '''')"

definition zero_zookie :: Zookie where \<comment> \<open>\<open>domain.Zookie{}\<close>\<close>
  "zero_zookie = \<lparr>zk_Token = ''''\<rparr>"

definition StrongRead :: "Zookie option" where \<comment> \<open>a non-nil pointer to the zero zookie\<close>
  "StrongRead = Some zero_zookie"

lemma length_b64_encode8: "length s = 8 \<Longrightarrow> length (b64_encode s) = 11"
  by (simp add: numeral_eq_Suc length_Suc_conv) (elim exE conjE, simp add: Let_def)

end
