(* ===== verification/Opaque_Token.thy ===== *)
theory Opaque_Token
  imports Encoding
begin

text \<open>
  \<^verbatim>\<open>internal/token/opaque.go\<close>. A read of \<^verbatim>\<open>crypto/rand\<close> is an argument: either an error or the
  bytes it filled the buffer with. SHA-256 is an argument as well (\<open>sha256\<close>, from the bytes of the
  raw token to the digest bytes); \<open>Hash\<close> is its hexadecimal form.
\<close>

definition minute :: int where
  "minute = 60 * second"

definition hour :: int where
  "hour = 60 * minute"

definition DefaultAccessTTL :: int where
  "DefaultAccessTTL = 15 * minute"

definition DefaultRefreshTTL :: int where
  "DefaultRefreshTTL = 30 * 24 * hour"

definition MaxSessionLifetime :: int where
  "MaxSessionLifetime = 90 * 24 * hour"

definition prefixAccess :: string where
  "prefixAccess = ''atk_''"

definition prefixRefresh :: string where
  "prefixRefresh = ''rtk_''"

definition prefixJTI :: string where
  "prefixJTI = ''jti_''"

record OpaqueToken =
  ot_Raw :: string
  ot_Hash :: string

definition Hash :: "(string \<Rightarrow> string) \<Rightarrow> string \<Rightarrow> string" where
  "Hash sha256 raw = hex_encode (sha256 raw)"

definition generate :: "(string \<Rightarrow> string) \<Rightarrow> string res \<Rightarrow> string \<Rightarrow> OpaqueToken res" where
  "generate sha256 rd pre =
     (case rd of
        Inl e \<Rightarrow> Inl (Wrap ''generating token entropy'' e)
      | Inr b \<Rightarrow> (let raw = pre @ hex_encode b
                 in Inr \<lparr>ot_Raw = raw, ot_Hash = Hash sha256 raw\<rparr>))"

definition GenerateAccessToken :: "(string \<Rightarrow> string) \<Rightarrow> string res \<Rightarrow> OpaqueToken res" where
  "GenerateAccessToken sha256 rd = generate sha256 rd prefixAccess"

definition GenerateRefreshToken :: "(string \<Rightarrow> string) \<Rightarrow> string res \<Rightarrow> OpaqueToken res" where
  "GenerateRefreshToken sha256 rd = generate sha256 rd prefixRefresh"

definition GenerateJTI :: "string res \<Rightarrow> string res" where
  "GenerateJTI rd =
     (case rd of
        Inl e \<Rightarrow> Inl (Wrap ''generating JTI entropy'' e)
      | Inr b \<Rightarrow> Inr (prefixJTI @ hex_encode b))"

definition AccessExpiry :: "int \<Rightarrow> int \<Rightarrow> int" where
  "AccessExpiry now ttl = now + (if ttl = 0 then DefaultAccessTTL else ttl)"

definition RefreshExpiry :: "int \<Rightarrow> int \<Rightarrow> int" where
  "RefreshExpiry now ttl = now + (if ttl = 0 then DefaultRefreshTTL else ttl)"

lemmas token_defs = GenerateAccessToken_def GenerateRefreshToken_def generate_def
  prefixAccess_def prefixRefresh_def

lemma generate_Inr:
  "generate sha256 rd p = Inr t \<longleftrightarrow>
     (\<exists>b. rd = Inr b \<and> t = \<lparr>ot_Raw = p @ hex_encode b, ot_Hash = Hash sha256 (p @ hex_encode b)\<rparr>)"
  by (auto simp: generate_def Let_def split: sum.splits)

lemma generate_hash: "generate sha256 rd p = Inr t \<Longrightarrow> ot_Hash t = Hash sha256 (ot_Raw t)"
  by (auto simp: generate_Inr)

lemma generate_inj:
  assumes "generate sha256 (Inr b) p = Inr t" "generate sha256 (Inr c) p = Inr u" "ot_Raw t = ot_Raw u"
  shows "b = c"
  using assms by (auto simp: generate_Inr dest: hex_encode_inj)

lemma access_refresh_differ:
  "GenerateAccessToken sha256 r1 = Inr t \<Longrightarrow> GenerateRefreshToken sha256 r2 = Inr u \<Longrightarrow>
     ot_Raw t \<noteq> ot_Raw u"
  by (auto simp: GenerateAccessToken_def GenerateRefreshToken_def generate_Inr prefixAccess_def
      prefixRefresh_def)

lemma Hash_nonempty: "sha256 r \<noteq> [] \<Longrightarrow> Hash sha256 r \<noteq> ''''"
  by (cases "sha256 r") (auto simp: Hash_def)

end
