(* ===== verification/Dgraph.thy ===== *)
theory Dgraph
  imports Opaque_Token
begin

text \<open>
  The interface to Dgraph, the database behind \<^verbatim>\<open>internal/repository/dgraph\<close>. Dgraph and its
  client \<^verbatim>\<open>dgo\<close> are not part of the repository: they are the argument \<open>dg\<close> (a record of the three
  calls the repositories make) over an unspecified state type \<open>'db\<close>. What is fixed here is the
  vocabulary the repositories speak in: the predicates of the schemas the program applies, the DQL
  blocks and mutations it builds, and the locale \<open>dgraph_client\<close> with the documented behaviour
  the repositories rely on:

  \<^item> a strong read answers from the committed graph; a best-effort read promises nothing;
  \<^item> a mutation is atomic, assigns fresh uids to its blank nodes, and is skipped when its
    \<^verbatim>\<open>@if\<close> condition fails (then no uid is returned);
  \<^item> a failed call reports an error of its own; the mutation may or may not have been applied;
  \<^item> a transaction commits only when no other commit has changed a predicate it writes since its
    snapshot.

  \<open>mem_dgraph\<close> is an executable store over association lists that satisfies the locale.
\<close>

type_synonym uid = string

datatype pred =
    DgraphType
  | U_id | U_first_name | U_last_name | U_nickname | U_password_hash | U_email | U_country
  | U_active | U_created_at | U_updated_at
  | SA_id | SA_client_id | SA_name | SA_secret_hash | SA_actor_type | SA_permissions | SA_active
  | SA_created_at | SA_updated_at
  | S_kind | S_user_id | S_client_id | S_actor_id | S_actor_type | S_access_token_hash
  | S_refresh_token_hash | S_refresh_jti | S_replaced_by_jti | S_permissions
  | S_delegated_permissions | S_policy_groups | S_permission_version | S_created_at | S_updated_at
  | S_last_seen_at | S_expires_at | S_refresh_expires_at | S_revoked | S_revoked_at
  | S_user_agent | S_ip_address

datatype val = VStr string | VBool bool | VInt nat | VTime int

type_synonym node = "pred \<Rightarrow> val list"
type_synonym graph = "uid \<Rightarrow> node"

text \<open>The predicates the schemas declare with a list type (\<^verbatim>\<open>[string]\<close>); \<^verbatim>\<open>dgraph.type\<close> is one too.\<close>

definition is_list_pred :: "pred \<Rightarrow> bool" where
  "is_list_pred p = (p \<in> {DgraphType, SA_permissions, S_permissions, S_delegated_permissions, S_policy_groups})"

section \<open>Queries\<close>

datatype func = FuncEq pred val | FuncUid uid | FuncType string

datatype filt = FType string | FEq pred val | FLe pred val | FNot filt

record query =
  q_func :: func
  q_filter :: "filt list" \<comment> \<open>a conjunction\<close>
  q_orderasc :: "pred option"
  q_page :: "(int \<times> int) option" \<comment> \<open>offset and first\<close>
  q_fields :: "pred list"
  q_total :: bool \<comment> \<open>with a second block that counts the nodes without paging\<close>

datatype qmode = BestEffort | Strong

record jnode =
  jn_uid :: uid
  jn_val :: node

text \<open>The JSON of a response: unreadable, or the nodes of the block and the counts of its second one.\<close>

datatype qjson = BadJson | Json "jnode list" "nat list"

definition unmarshal :: "string \<Rightarrow> qjson \<Rightarrow> (jnode list \<times> nat list) res" where
  "unmarshal msg j =
     (case j of BadJson \<Rightarrow> Inl (Wrap msg (Foreign ''json'')) | Json ns cs \<Rightarrow> Inr (ns, cs))"

fun func_holds :: "func \<Rightarrow> uid \<Rightarrow> node \<Rightarrow> bool" where
  "func_holds (FuncEq p v) u n = (v \<in> set (n p))"
| "func_holds (FuncUid x) u n = (u = x)"
| "func_holds (FuncType t) u n = (VStr t \<in> set (n DgraphType))"

fun val_le :: "val \<Rightarrow> val \<Rightarrow> bool" where
  "val_le (VTime a) (VTime b) = (a \<le> b)"
| "val_le (VInt a) (VInt b) = (a \<le> b)"
| "val_le _ _ = False"

fun filt_holds :: "filt \<Rightarrow> node \<Rightarrow> bool" where
  "filt_holds (FType t) n = (VStr t \<in> set (n DgraphType))"
| "filt_holds (FEq p v) n = (v \<in> set (n p))"
| "filt_holds (FLe p v) n = list_ex (\<lambda>w. val_le w v) (n p)"
| "filt_holds (FNot f) n = (\<not> filt_holds f n)"

definition selected :: "query \<Rightarrow> uid \<Rightarrow> node \<Rightarrow> bool" where
  "selected q u n = (func_holds (q_func q) u n \<and> list_all (\<lambda>f. filt_holds f n) (q_filter q))"

definition project :: "pred list \<Rightarrow> node \<Rightarrow> node" where
  "project fs n = (\<lambda>p. if List.member fs p then n p else [])"

definition order_time :: "pred \<Rightarrow> node \<Rightarrow> int" where
  "order_time p n = (case n p of [VTime t] \<Rightarrow> t | _ \<Rightarrow> 0)"

definition paginate :: "(int \<times> int) option \<Rightarrow> 'a list \<Rightarrow> 'a list" where
  "paginate pg xs = (case pg of None \<Rightarrow> xs | Some (off, cnt) \<Rightarrow> take (nat cnt) (drop (nat off) xs))"

text \<open>
  A query by uid without a type filter also returns uids that carry no data; the repositories
  never read through one, and \<open>proper\<close> excludes it, as it excludes a negative offset.
  \<open>complete g q us\<close>: the uids \<open>us\<close> are those the block selects in \<open>g\<close>, each once, in the requested order.
\<close>

definition proper :: "query \<Rightarrow> bool" where
  "proper q =
     ((case q_func q of FuncUid _ \<Rightarrow> (\<exists>t. FType t \<in> set (q_filter q)) | _ \<Rightarrow> True) \<and>
      (case q_page q of None \<Rightarrow> True | Some (off, cnt) \<Rightarrow> 0 \<le> off \<and> 0 \<le> cnt))"

definition complete :: "graph \<Rightarrow> query \<Rightarrow> uid list \<Rightarrow> bool" where
  "complete g q us =
     (distinct us \<and> (\<forall>u. u \<in> set us \<longleftrightarrow> selected q u (g u)) \<and>
      (case q_orderasc q of None \<Rightarrow> True | Some p \<Rightarrow> sorted (map (\<lambda>u. order_time p (g u)) us)))"

definition answers :: "graph \<Rightarrow> query \<Rightarrow> qjson \<Rightarrow> bool" where
  "answers g q j =
     (\<exists>us. complete g q us \<and>
        j = Json (map (\<lambda>u. \<lparr>jn_uid = u, jn_val = project (q_fields q) (g u)\<rparr>) (paginate (q_page q) us))
                 (if q_total q then [length us] else []))"

text \<open>
  Decoding of a node into the fields of a wire struct: an absent predicate leaves the Go zero
  value. The values have the type the schema declares; a datetime arrives as RFC 3339 text, here
  the second it denotes, and \<open>None\<close> is the empty string of an absent one.
\<close>

definition jstr :: "node \<Rightarrow> pred \<Rightarrow> string" where
  "jstr n p = (case n p of [VStr s] \<Rightarrow> s | _ \<Rightarrow> '''')"

definition jbool :: "node \<Rightarrow> pred \<Rightarrow> bool" where
  "jbool n p = (case n p of [VBool b] \<Rightarrow> b | _ \<Rightarrow> False)"

definition jint :: "node \<Rightarrow> pred \<Rightarrow> nat" where
  "jint n p = (case n p of [VInt i] \<Rightarrow> i | _ \<Rightarrow> 0)"

definition jtime :: "node \<Rightarrow> pred \<Rightarrow> int option" where
  "jtime n p = (case n p of [VTime t] \<Rightarrow> Some t | _ \<Rightarrow> None)"

definition jstrs :: "node \<Rightarrow> pred \<Rightarrow> string list" where
  "jstrs n p = concat (map (\<lambda>v. case v of VStr s \<Rightarrow> [s] | _ \<Rightarrow> []) (n p))"

definition parse_time :: "int option \<Rightarrow> int" where \<comment> \<open>\<open>t, _ := time.Parse(time.RFC3339, s)\<close>\<close>
  "parse_time s = (case s of None \<Rightarrow> zero_time | Some x \<Rightarrow> parse_rfc3339 x)"

lemma jstr_single [simp]: "n p = [VStr s] \<Longrightarrow> jstr n p = s"
  and jbool_single [simp]: "n p = [VBool b] \<Longrightarrow> jbool n p = b"
  and jint_single [simp]: "n p = [VInt i] \<Longrightarrow> jint n p = i"
  and jtime_single [simp]: "n p = [VTime t] \<Longrightarrow> jtime n p = Some t"
  and jstr_none [simp]: "n p = [] \<Longrightarrow> jstr n p = ''''"
  and jtime_none [simp]: "n p = [] \<Longrightarrow> jtime n p = None"
  and jstrs_none [simp]: "n p = [] \<Longrightarrow> jstrs n p = []"
  by (simp_all add: jstr_def jbool_def jint_def jtime_def jstrs_def)

lemma set_jstrs: "set (jstrs n p) = {s. VStr s \<in> set (n p)}"
  by (force simp: jstrs_def split: val.splits)

lemma parse_time_simps [simp]:
  "parse_time None = zero_time" "parse_time (Some (fmt_rfc3339 t)) = trunc_sec t"
  by (simp_all add: parse_time_def trunc_sec_def)

section \<open>Mutations\<close>

datatype subj = Blank string | Uid uid

type_synonym nquad = "subj \<times> pred \<times> val"

record mutation =
  mu_set :: "nquad list"
  mu_del :: "uid list" \<comment> \<open>nodes deleted with all their predicates\<close>
  mu_cond :: "(pred \<times> val) list" \<comment> \<open>\<open>@if\<close>: every one of these \<open>eq\<close> blocks selects no node\<close>

definition set_nquads :: "nquad list \<Rightarrow> mutation" where
  "set_nquads qs = \<lparr>mu_set = qs, mu_del = [], mu_cond = []\<rparr>"

definition delete_uids :: "uid list \<Rightarrow> mutation" where
  "delete_uids us = \<lparr>mu_set = [], mu_del = us, mu_cond = []\<rparr>"

record mresp =
  mr_uids :: "(string \<times> uid) list" \<comment> \<open>\<open>resp.Uids\<close>: blank node name to uid\<close>
  mr_commit_ts :: "64 word option" \<comment> \<open>\<open>resp.Txn\<close>: nil, or with a commit timestamp\<close>

definition uids_get :: "mresp \<Rightarrow> string \<Rightarrow> uid" where \<comment> \<open>a missing map key reads as \<open>""\<close>\<close>
  "uids_get r b = (case map_of (mr_uids r) b of None \<Rightarrow> '''' | Some u \<Rightarrow> u)"

datatype txn_result = MutateErr goerr | CommitErr goerr | Committed mresp

record 'db dgraph =
  dg_query :: "qmode \<Rightarrow> query \<Rightarrow> 'db \<Rightarrow> qjson res"
  dg_mutate :: "mutation \<Rightarrow> 'db \<Rightarrow> mresp res \<times> 'db" \<comment> \<open>with \<open>CommitNow\<close>\<close>
  dg_commit :: "mutation \<Rightarrow> 'db \<Rightarrow> 'db \<Rightarrow> txn_result \<times> 'db" \<comment> \<open>mutation, snapshot, current state\<close>

fun resolve :: "(string \<times> uid) list \<Rightarrow> subj \<Rightarrow> uid option" where
  "resolve as (Blank b) = map_of as b"
| "resolve as (Uid u) = Some u"

definition blanks :: "mutation \<Rightarrow> string list" where
  "blanks m = remdups (concat (map (\<lambda>(s, _, _). case s of Blank b \<Rightarrow> [b] | Uid _ \<Rightarrow> []) (mu_set m)))"

fun vals_for :: "(string \<times> uid) list \<Rightarrow> nquad list \<Rightarrow> uid \<Rightarrow> pred \<Rightarrow> val list" where
  "vals_for as [] u p = []"
| "vals_for as ((s, q, v) # qs) u p =
     (if resolve as s = Some u \<and> q = p then v # vals_for as qs u p else vals_for as qs u p)"

definition cond_ok :: "graph \<Rightarrow> mutation \<Rightarrow> bool" where
  "cond_ok g m = (\<forall>(p, v) \<in> set (mu_cond m). \<forall>u. v \<notin> set (g u p))"

text \<open>
  \<open>applied as m g h\<close>: with blank nodes named by \<open>as\<close>, the mutation takes \<open>g\<close> to \<open>h\<close>. A scalar
  predicate keeps the last value set; a list predicate is a set of values, in no fixed order.
\<close>

definition applied :: "(string \<times> uid) list \<Rightarrow> mutation \<Rightarrow> graph \<Rightarrow> graph \<Rightarrow> bool" where
  "applied as m g h =
     (\<forall>u p. let vs = vals_for as (mu_set m) u p in
        if u \<in> set (mu_del m) then h u p = []
        else if vs = [] then h u p = g u p
        else if is_list_pred p then set (h u p) = set (g u p) \<union> set vs
        else h u p = [last vs])"

text \<open>Dgraph's uid format, which \<^verbatim>\<open>validDgraphUID\<close> in \<^verbatim>\<open>repository/dgraph/session.go\<close> checks.\<close>

definition hex_char :: "char \<Rightarrow> bool" where
  "hex_char c = List.member ''0123456789abcdefABCDEF'' c"

definition validDgraphUID :: re where
  "validDgraphUID = Cat (Lit (CHR ''0'')) (Cat (Lit (CHR ''x'')) (Plus (Cls hex_char)))"

definition fresh_names :: "(string \<times> uid) list \<Rightarrow> mutation \<Rightarrow> graph \<Rightarrow> bool" where
  "fresh_names as m g =
     (map fst as = blanks m \<and> distinct (map snd as) \<and>
      (\<forall>u \<in> set (map snd as). g u = (\<lambda>_. []) \<and> re_match validDgraphUID u \<and> (\<forall>q \<in> set (mu_set m). fst q \<noteq> Uid u)))"

definition mut_step :: "(string \<times> uid) list \<Rightarrow> mutation \<Rightarrow> graph \<Rightarrow> graph \<Rightarrow> bool" where
  "mut_step as m g h =
     (if cond_ok g m then fresh_names as m g \<and> applied as m g h else as = [] \<and> h = g)"

definition conflict_free :: "mutation \<Rightarrow> graph \<Rightarrow> graph \<Rightarrow> bool" where
  "conflict_free m g h = (\<forall>(s, p, v) \<in> set (mu_set m). \<forall>u. s = Uid u \<longrightarrow> h u p = g u p)"

definition foreign :: "goerr \<Rightarrow> bool" where
  "foreign e = (\<forall>s. \<not> errors_is e s)"

lemma foreign_simps [simp]:
  "foreign (Foreign m)" "foreign (Wrap m e) = foreign e" "\<not> foreign (Sentinel s)"
  by (auto simp: foreign_def)

lemma foreign_not_is [simp]: "foreign e \<Longrightarrow> \<not> errors_is e s"
  by (simp add: foreign_def)

text \<open>Results: an error that wraps none of the program's sentinels, and one that wraps a given sentinel.\<close>

definition store_error :: "'a res \<Rightarrow> bool" where
  "store_error r = (case r of Inl e \<Rightarrow> foreign e | Inr _ \<Rightarrow> False)"

lemma store_error_simps [simp]: "store_error (Inl e) = foreign e" "\<not> store_error (Inr x)"
  by (simp_all add: store_error_def)

definition fails_as :: "'a res \<Rightarrow> sentinel \<Rightarrow> bool" where
  "fails_as r k = (case r of Inl e \<Rightarrow> errors_is e k | Inr _ \<Rightarrow> False)"

lemma fails_as_sentinel: "fails_as r k \<Longrightarrow> \<not> store_error r"
  by (auto simp: fails_as_def store_error_def split: sum.splits)

section \<open>The contract\<close>

locale dgraph_client =
  fixes dg :: "'db dgraph" and graph :: "'db \<Rightarrow> graph"
  assumes query_ok: "dg_query dg Strong q db = Inr j \<Longrightarrow> proper q \<Longrightarrow> answers (graph db) q j"
    and query_err: "dg_query dg md q db = Inl e \<Longrightarrow> foreign e"
    and mutate_ok: "dg_mutate dg m db = (Inr r, db') \<Longrightarrow> mut_step (mr_uids r) m (graph db) (graph db')"
    and mutate_err: "dg_mutate dg m db = (Inl e, db') \<Longrightarrow>
      foreign e \<and> (graph db' = graph db \<or> (\<exists>as. mut_step as m (graph db) (graph db')))"
    and commit_ok: "dg_commit dg m snap db = (Committed r, db') \<Longrightarrow>
      conflict_free m (graph snap) (graph db) \<and> mut_step (mr_uids r) m (graph db) (graph db')"
    and commit_mutate_err: "dg_commit dg m snap db = (MutateErr e, db') \<Longrightarrow>
      foreign e \<and> graph db' = graph db"
    and commit_err: "dg_commit dg m snap db = (CommitErr e, db') \<Longrightarrow>
      foreign e \<and> (graph db' = graph db \<or>
        conflict_free m (graph snap) (graph db) \<and> (\<exists>as. mut_step as m (graph db) (graph db')))"
begin

lemma query_nodes:
  assumes "dg_query dg Strong q db = Inr (Json ns cs)" "proper q" "q_page q = None"
  shows "distinct (map jn_uid ns)"
    and "set (map jn_uid ns) = {u. selected q u (graph db u)}"
    and "n \<in> set ns \<Longrightarrow> jn_val n = project (q_fields q) (graph db (jn_uid n))"
proof -
  obtain us where us: "complete (graph db) q us"
      "ns = map (\<lambda>u. \<lparr>jn_uid = u, jn_val = project (q_fields q) (graph db u)\<rparr>) us"
    using query_ok [OF assms(1,2)] assms(3) by (auto simp: answers_def paginate_def)
  then have "map jn_uid ns = us" by (simp add: o_def)
  with us(1) show "distinct (map jn_uid ns)" "set (map jn_uid ns) = {u. selected q u (graph db u)}"
    by (auto simp: complete_def)
  show "n \<in> set ns \<Longrightarrow> jn_val n = project (q_fields q) (graph db (jn_uid n))"
    using us(2) by auto
qed

lemma query_not_bad:
  "dg_query dg Strong q db = Inr j \<Longrightarrow> proper q \<Longrightarrow> j \<noteq> BadJson"
  using query_ok by (auto simp: answers_def)

end

section \<open>Facts about mutations\<close>

lemma vals_for_append [simp]:
  "vals_for as (qs @ rs) u p = vals_for as qs u p @ vals_for as rs u p"
  by (induction qs) auto

lemma vals_for_map_list:
  "vals_for as (map (\<lambda>v. (s, q, VStr v)) vs) u p =
     (if resolve as s = Some u \<and> q = p then map VStr vs else [])"
  by (induction vs) auto

lemma vals_for_other:
  "\<forall>(s, q, v) \<in> set qs. resolve as s \<noteq> Some u \<Longrightarrow> vals_for as qs u p = []"
  by (induction qs) auto

lemma remdups_single: "set xs = {b} \<Longrightarrow> remdups xs = [b]"
proof (induction xs)
  case (Cons x xs)
  then show ?case by (cases "xs = []") (auto simp: subset_singleton_iff insert_eq_iff)
qed simp

text \<open>A mutation that creates one node, possibly guarded by a condition.\<close>

lemma blank_step:
  assumes st: "mut_step as m g h" and del: "mu_del m = []" and ne: "mu_set m \<noteq> []"
    and subj: "\<forall>q \<in> set (mu_set m). fst q = Blank b"
  obtains (skipped) "\<not> cond_ok g m" "as = []" "h = g"
  | (created) x where "cond_ok g m" "as = [(b, x)]" "g x = (\<lambda>_. [])" "re_match validDgraphUID x"
      "\<And>p. is_list_pred p \<Longrightarrow> set (h x p) = set (vals_for [(b, x)] (mu_set m) x p)"
      "\<And>p. \<not> is_list_pred p \<Longrightarrow> h x p = (let vs = vals_for [(b, x)] (mu_set m) x p in if vs = [] then [] else [last vs])"
      "\<And>y. y \<noteq> x \<Longrightarrow> h y = g y"
proof (cases "cond_ok g m")
  case False
  with st show ?thesis by (intro skipped) (auto simp: mut_step_def)
next
  case True
  with st have fr: "fresh_names as m g" and ap: "applied as m g h" by (auto simp: mut_step_def)
  have "set (concat (map (\<lambda>(s, _, _). case s of Blank b \<Rightarrow> [b] | Uid _ \<Rightarrow> []) (mu_set m))) = {b}"
    using subj ne by (cases "mu_set m") (auto simp: case_prod_beta)
  then have "blanks m = [b]" unfolding blanks_def by (rule remdups_single)
  with fr have "map fst as = [b]" by (simp add: fresh_names_def)
  then obtain x where as: "as = [(b, x)]" by (cases as) auto
  from fr as have x: "g x = (\<lambda>_. [])" "re_match validDgraphUID x" by (simp_all add: fresh_names_def)
  have oth: "vals_for as (mu_set m) y p = []" if "y \<noteq> x" for y p
    using subj that by (intro vals_for_other) (auto simp: as)
  have ap': "let vs = vals_for as (mu_set m) y p in
      if vs = [] then h y p = g y p
      else if is_list_pred p then set (h y p) = set (g y p) \<union> set vs else h y p = [last vs]" for y p
    using ap del by (simp add: applied_def)
  show ?thesis
  proof (rule created [OF True as x])
    show "set (h x p) = set (vals_for [(b, x)] (mu_set m) x p)" if "is_list_pred p" for p
      using ap' [of x p] that by (auto simp: as x Let_def split: if_splits)
    show "h x p = (let vs = vals_for [(b, x)] (mu_set m) x p in if vs = [] then [] else [last vs])"
      if "\<not> is_list_pred p" for p
      using ap' [of x p] that by (auto simp: as x Let_def split: if_splits)
    show "h y = g y" if "y \<noteq> x" for y
      using ap' [of y] oth [OF that] by (intro ext) (simp add: Let_def)
  qed
qed

text \<open>A mutation that sets scalar predicates of one existing node.\<close>

lemma uid_step:
  assumes st: "mut_step as (set_nquads qs) g h" and subj: "\<forall>q \<in> set qs. fst q = Uid x"
    and scalar: "\<forall>q \<in> set qs. \<not> is_list_pred (fst (snd q))"
  shows "h = g(x := \<lambda>p. let vs = vals_for [] qs x p in if vs = [] then g x p else [last vs])"
proof (intro ext)
  fix y p
  have ap: "applied as (set_nquads qs) g h"
    using st by (auto simp: mut_step_def cond_ok_def set_nquads_def)
  have v: "vals_for as qs y p = (if y = x then vals_for [] qs x p else [])"
    using subj by (induction qs) auto
  have l: "vals_for as qs y p = []" if "is_list_pred p"
    using that scalar by (induction qs) auto
  have ap': "let vs = vals_for as qs y p in
      if vs = [] then h y p = g y p
      else if is_list_pred p then set (h y p) = set (g y p) \<union> set vs else h y p = [last vs]"
    using ap by (simp add: applied_def set_nquads_def)
  show "h y p = (g(x := \<lambda>p. let vs = vals_for [] qs x p in if vs = [] then g x p else [last vs])) y p"
    using ap' v l by (cases "y = x"; cases "is_list_pred p") (auto simp: Let_def split: if_splits)
qed

lemma validDgraphUID_matches:
  "re_match validDgraphUID s \<longleftrightarrow> (\<exists>t. s = ''0x'' @ t \<and> t \<noteq> [] \<and> (\<forall>c \<in> set t. hex_char c))"
proof -
  have lit: "matches (Cat (Lit c) q) u \<longleftrightarrow> (\<exists>v. u = c # v \<and> matches q v)" for c q u
    by (subst matches_Cat) auto
  show ?thesis
    by (auto simp: re_match_iff validDgraphUID_def lit matches_PlusCls)
qed

lemma validDgraphUID_nonempty: "re_match validDgraphUID u \<Longrightarrow> u \<noteq> ''''"
  by (auto simp: validDgraphUID_matches)

section \<open>An executable store\<close>

text \<open>
  Nodes by uid, each a table of its predicates; a new node gets a uid longer than every uid in use.
\<close>

type_synonym mem = "(uid \<times> (pred \<times> val list) list) list"

definition all_preds :: "pred list" where
  "all_preds =
     [DgraphType, U_id, U_first_name, U_last_name, U_nickname, U_password_hash, U_email, U_country,
      U_active, U_created_at, U_updated_at, SA_id, SA_client_id, SA_name, SA_secret_hash, SA_actor_type,
      SA_permissions, SA_active, SA_created_at, SA_updated_at, S_kind, S_user_id, S_client_id,
      S_actor_id, S_actor_type, S_access_token_hash, S_refresh_token_hash, S_refresh_jti,
      S_replaced_by_jti, S_permissions, S_delegated_permissions, S_policy_groups,
      S_permission_version, S_created_at, S_updated_at, S_last_seen_at, S_expires_at,
      S_refresh_expires_at, S_revoked, S_revoked_at, S_user_agent, S_ip_address]"

definition tabulate :: "node \<Rightarrow> (pred \<times> val list) list" where
  "tabulate n = filter (\<lambda>(p, vs). vs \<noteq> []) (map (\<lambda>p. (p, n p)) all_preds)"

definition node_of :: "(pred \<times> val list) list \<Rightarrow> node" where
  "node_of t p = (case map_of t p of None \<Rightarrow> [] | Some vs \<Rightarrow> vs)"

definition mem_graph :: "mem \<Rightarrow> graph" where
  "mem_graph db u = (case map_of db u of None \<Rightarrow> (\<lambda>_. []) | Some n \<Rightarrow> node_of n)"

lemma mem_graph_Cons: "mem_graph ((u, t) # db) = (mem_graph db)(u := node_of t)"
  by (auto simp: mem_graph_def fun_eq_iff)

lemma node_of_tabulate [simp]: "node_of (tabulate n) = n"
proof
  fix p
  have all: "p \<in> set all_preds" by (cases p) (simp_all add: all_preds_def)
  have "map_of (filter (\<lambda>(p, vs). vs \<noteq> []) (map (\<lambda>p. (p, n p)) ps)) p =
      (if p \<in> set ps \<and> n p \<noteq> [] then Some (n p) else None)" for ps
    by (induction ps) auto
  then show "node_of (tabulate n) p = n p" using all by (simp add: node_of_def tabulate_def)
qed

definition mem_uids :: "mem \<Rightarrow> uid list" where
  "mem_uids db = remdups (map fst db)"

definition mem_select :: "query \<Rightarrow> mem \<Rightarrow> uid list" where
  "mem_select q db =
     (let us = filter (\<lambda>u. selected q u (mem_graph db u)) (mem_uids db)
      in case q_orderasc q of None \<Rightarrow> us | Some p \<Rightarrow> sort_key (\<lambda>u. order_time p (mem_graph db u)) us)"

definition mem_query :: "qmode \<Rightarrow> query \<Rightarrow> mem \<Rightarrow> qjson res" where
  "mem_query md q db =
     (let us = mem_select q db in
      Inr (Json (map (\<lambda>u. \<lparr>jn_uid = u, jn_val = project (q_fields q) (mem_graph db u)\<rparr>)
                  (paginate (q_page q) us))
                (if q_total q then [length us] else [])))"

definition mem_cond :: "mem \<Rightarrow> mutation \<Rightarrow> bool" where
  "mem_cond db m = list_all (\<lambda>(p, v). list_all (\<lambda>u. \<not> List.member (mem_graph db u p) v) (mem_uids db)) (mu_cond m)"

definition mem_fresh :: "mem \<Rightarrow> mutation \<Rightarrow> nat \<Rightarrow> uid" where
  "mem_fresh db m i =
     ''0x'' @ replicate (Suc i + fold max (map length (map fst db)) 0 +
       fold max (map (\<lambda>(s, _, _). case s of Uid u \<Rightarrow> length u | Blank _ \<Rightarrow> 0) (mu_set m)) 0) (CHR ''1'')"

definition mem_names :: "mem \<Rightarrow> mutation \<Rightarrow> (string \<times> uid) list" where
  "mem_names db m = map (\<lambda>(i, b). (b, mem_fresh db m i)) (enumerate 0 (blanks m))"

definition mem_node :: "(string \<times> uid) list \<Rightarrow> mutation \<Rightarrow> mem \<Rightarrow> uid \<Rightarrow> node" where
  "mem_node as m db u =
     (\<lambda>p. let vs = vals_for as (mu_set m) u p in
        if List.member (mu_del m) u then []
        else if vs = [] then mem_graph db u p
        else if is_list_pred p then remdups (mem_graph db u p @ vs)
        else [last vs])"

definition mem_apply :: "mutation \<Rightarrow> mem \<Rightarrow> mresp \<times> mem" where
  "mem_apply m db =
     (if mem_cond db m then
        (let as = mem_names db m;
             us = remdups (map fst db @ map snd as @
                    concat (map (\<lambda>(s, _, _). case s of Uid u \<Rightarrow> [u] | Blank _ \<Rightarrow> []) (mu_set m)))
         in (\<lparr>mr_uids = as, mr_commit_ts = None\<rparr>,
             map (\<lambda>u. (u, tabulate (mem_node as m db u))) us))
      else (\<lparr>mr_uids = [], mr_commit_ts = None\<rparr>, db))"

definition mem_mutate :: "mutation \<Rightarrow> mem \<Rightarrow> mresp res \<times> mem" where
  "mem_mutate m db = (case mem_apply m db of (r, db') \<Rightarrow> (Inr r, db'))"

definition mem_commit :: "mutation \<Rightarrow> mem \<Rightarrow> mem \<Rightarrow> txn_result \<times> mem" where
  "mem_commit m snap db =
     (if list_all (\<lambda>(s, p, v). case s of Uid u \<Rightarrow> mem_graph db u p = mem_graph snap u p | Blank _ \<Rightarrow> True) (mu_set m)
      then (case mem_apply m db of (r, db') \<Rightarrow> (Committed r, db'))
      else (CommitErr (Foreign ''aborted''), db))"

definition mem_dgraph :: "mem dgraph" where
  "mem_dgraph = \<lparr>dg_query = mem_query, dg_mutate = mem_mutate, dg_commit = mem_commit\<rparr>"

lemma fold_max_ge: "(x :: nat) \<in> set xs \<Longrightarrow> x \<le> fold max xs a"
proof (induction xs arbitrary: a)
  case (Cons y ys)
  have "b \<le> fold max zs b" for b :: nat and zs
    by (induction zs arbitrary: b) (auto intro: order_trans [OF max.cobounded2])
  then have "y \<le> fold max ys (max y a)" by (meson max.cobounded1 order_trans)
  with Cons show ?case by auto
qed simp

lemma mem_graph_outside: "u \<notin> fst ` set db \<Longrightarrow> mem_graph db u = (\<lambda>_. [])"
  by (auto simp: mem_graph_def map_of_eq_None_iff [symmetric])

lemma length_mem_fresh:
  "u \<in> fst ` set db \<Longrightarrow> length u < length (mem_fresh db m i)"
  "(Uid u, p, v) \<in> set (mu_set m) \<Longrightarrow> length u < length (mem_fresh db m i)"
proof -
  assume "u \<in> fst ` set db"
  then have "length u \<in> set (map length (map fst db))" by auto
  from fold_max_ge [OF this, of 0] show "length u < length (mem_fresh db m i)"
    by (simp add: mem_fresh_def)
next
  assume "(Uid u, p, v) \<in> set (mu_set m)"
  then have "length u \<in> set (map (\<lambda>(s, _, _). case s of Uid u \<Rightarrow> length u | Blank _ \<Rightarrow> 0) (mu_set m))"
    by force
  from fold_max_ge [OF this, of 0] show "length u < length (mem_fresh db m i)"
    by (simp add: mem_fresh_def)
qed

lemma mem_fresh_inj: "mem_fresh db m i = mem_fresh db m j \<Longrightarrow> i = j"
  by (drule arg_cong [where f = length]) (simp add: mem_fresh_def)

lemma mem_fresh_valid: "re_match validDgraphUID (mem_fresh db m i)"
  by (auto simp: validDgraphUID_matches mem_fresh_def hex_char_def)

lemma mem_names_fresh: "fresh_names (mem_names db m) m (mem_graph db)"
proof -
  have fst: "map fst (mem_names db m) = blanks m"
    by (simp add: mem_names_def o_def case_prod_beta)
  have snd: "map snd (mem_names db m) = map (mem_fresh db m) [0..<length (blanks m)]"
    by (rule nth_equalityI) (simp_all add: mem_names_def nth_enumerate_eq)
  have "distinct (map snd (mem_names db m))"
    unfolding snd by (auto simp: distinct_map inj_on_def dest: mem_fresh_inj)
  moreover have "mem_graph db (mem_fresh db m i) = (\<lambda>_. [])" for i
    using length_mem_fresh(1) [of "mem_fresh db m i" db m i] by (intro mem_graph_outside) auto
  moreover have "fst q \<noteq> Uid (mem_fresh db m i)" if "q \<in> set (mu_set m)" for q i
    using length_mem_fresh(2) [of "mem_fresh db m i" _ _ m db i] that by (cases q) auto
  ultimately show ?thesis
    by (auto simp: fresh_names_def fst snd mem_fresh_valid)
qed

lemma mem_cond_iff: "mem_cond db m \<longleftrightarrow> cond_ok (mem_graph db) m"
proof -
  have "u \<in> fst ` set db" if "v \<in> set (mem_graph db u p)" for u p v
    using that mem_graph_outside [of u db] by (metis empty_iff empty_set)
  then show ?thesis
    by (fastforce simp: mem_cond_def cond_ok_def list_all_iff mem_uids_def)
qed

lemma mem_apply_graph:
  assumes "mem_cond db m" "mem_apply m db = (r, db')"
  shows "mem_graph db' u = (if u \<in> fst ` set db' then mem_node (mr_uids r) m db u else (\<lambda>_. []))"
    and "u \<notin> fst ` set db' \<Longrightarrow> mem_graph db u p = [] \<and> vals_for (mr_uids r) (mu_set m) u p = []"
proof -
  let ?us = "remdups (map fst db @ map snd (mem_names db m) @
    concat (map (\<lambda>(s, _, _). case s of Uid u \<Rightarrow> [u] | Blank _ \<Rightarrow> []) (mu_set m)))"
  have r: "mr_uids r = mem_names db m" and db': "db' = map (\<lambda>u. (u, tabulate (mem_node (mem_names db m) m db u))) ?us"
    using assms by (auto simp: mem_apply_def Let_def)
  show "mem_graph db' u = (if u \<in> fst ` set db' then mem_node (mr_uids r) m db u else (\<lambda>_. []))"
    unfolding r by (auto simp: db' mem_graph_def map_of_map_restrict restrict_map_def image_image split: option.splits)
  assume u: "u \<notin> fst ` set db'"
  have "resolve (mem_names db m) s \<noteq> Some u" if "(s, q, v) \<in> set (mu_set m)" for s q v
  proof (cases s)
    case (Blank b)
    have "u \<notin> snd ` set (mem_names db m)" using u by (auto simp: db' image_image)
    with Blank show ?thesis by (force dest: map_of_SomeD)
  next
    case (Uid x)
    then show ?thesis using u that by (force simp: db' image_image)
  qed
  then have "vals_for (mem_names db m) (mu_set m) u p = []" by (intro vals_for_other) auto
  moreover have "u \<notin> fst ` set db" using u by (auto simp: db' image_image)
  ultimately show "mem_graph db u p = [] \<and> vals_for (mr_uids r) (mu_set m) u p = []"
    by (simp add: r mem_graph_outside)
qed

lemma mem_apply_step:
  assumes "mem_apply m db = (r, db')"
  shows "mut_step (mr_uids r) m (mem_graph db) (mem_graph db')"
proof (cases "mem_cond db m")
  case True
  have "applied (mr_uids r) m (mem_graph db) (mem_graph db')"
    unfolding applied_def Let_def
  proof (intro allI)
    fix u p
    show "if u \<in> set (mu_del m) then mem_graph db' u p = []
          else if vals_for (mr_uids r) (mu_set m) u p = [] then mem_graph db' u p = mem_graph db u p
          else if is_list_pred p then set (mem_graph db' u p) =
            set (mem_graph db u p) \<union> set (vals_for (mr_uids r) (mu_set m) u p)
          else mem_graph db' u p = [last (vals_for (mr_uids r) (mu_set m) u p)]"
      using mem_apply_graph(2) [OF True assms, of u p]
      by (simp add: mem_apply_graph(1) [OF True assms] mem_node_def Let_def)
  qed
  moreover have "mr_uids r = mem_names db m" using True assms by (auto simp: mem_apply_def Let_def)
  ultimately show ?thesis
    using True mem_cond_iff mem_names_fresh by (simp add: mut_step_def)
next
  case False
  then show ?thesis
    using assms mem_cond_iff by (auto simp: mem_apply_def mut_step_def)
qed

lemma mem_select_complete: "proper q \<Longrightarrow> complete (mem_graph db) q (mem_select q db)"
proof -
  assume pq: "proper q"
  have sel: "u \<in> fst ` set db" if "selected q u (mem_graph db u)" for u
  proof (rule ccontr)
    assume "u \<notin> fst ` set db"
    then have "mem_graph db u = (\<lambda>_. [])" by (rule mem_graph_outside)
    with that pq show False
      by (cases "q_func q") (auto simp: selected_def proper_def list_all_iff)
  qed
  show ?thesis
    by (auto simp: complete_def mem_select_def Let_def mem_uids_def intro: sel
        split: option.splits)
qed

interpretation mem: dgraph_client mem_dgraph mem_graph
proof
  fix q :: query and db :: mem and j
  assume "dg_query mem_dgraph Strong q db = Inr j" "proper q"
  then show "answers (mem_graph db) q j"
    by (auto simp: mem_dgraph_def mem_query_def answers_def Let_def
        intro!: exI [of _ "mem_select q db"] mem_select_complete)
qed (auto simp: mem_dgraph_def mem_query_def mem_mutate_def mem_commit_def Let_def
    conflict_free_def list_all_iff dest!: mem_apply_step split: prod.splits if_splits)

end
