(* ===== verification/Session_Repo.thy ===== *)
theory Session_Repo
  imports Dgraph
begin

text \<open>
  The contract of the session store, \<^verbatim>\<open>repository.SessionRepository\<close>: the record
  \<open>session_repo\<close> has one field per method of the Go interface, and the locale \<open>session_repository\<close>
  states over an abstract table of sessions by ID what each method promises. The theory
  \<^verbatim>\<open>Dgraph_Session\<close> implements the contract.

  Each call of \<^verbatim>\<open>time.Now()\<close> is an argument \<open>now\<close>. \<open>RotateTokens\<close> takes two database states, the one
  its transaction reads (the snapshot at its start) and the one it commits on; they are equal when
  no other request runs in between.
\<close>

section \<open>The contract\<close>

record 'db session_repo =
  sr_Create :: "int \<Rightarrow> SessionCreateInput \<Rightarrow> 'db \<Rightarrow> Session option res \<times> 'db"
  sr_GetByAccessHash :: "string \<Rightarrow> 'db \<Rightarrow> Session option res"
  sr_GetByRefreshHash :: "string \<Rightarrow> 'db \<Rightarrow> Session option res"
  sr_GetByID :: "string \<Rightarrow> 'db \<Rightarrow> Session option res"
  sr_ListForUser :: "string \<Rightarrow> 'db \<Rightarrow> Session list res"
  sr_RotateTokens :: "int \<Rightarrow> SessionRefreshInput \<Rightarrow> 'db \<Rightarrow> 'db \<Rightarrow> Session option res \<times> 'db"
  sr_Revoke :: "int \<Rightarrow> string \<Rightarrow> 'db \<Rightarrow> unit res \<times> 'db"
  sr_RevokeAllForUser :: "int \<Rightarrow> string \<Rightarrow> 'db \<Rightarrow> unit res \<times> 'db"
  sr_Touch :: "int \<Rightarrow> string \<Rightarrow> 'db \<Rightarrow> unit res \<times> 'db"
  sr_DeleteExpired :: "int \<Rightarrow> 'db \<Rightarrow> int res \<times> 'db"

type_synonym sessions = "string \<Rightarrow> Session option"

text \<open>
  A stored session: whole seconds, and permission lists that are sets (Dgraph's \<^verbatim>\<open>[string]\<close> keeps
  neither order nor duplicates), so sessions are compared up to the arrangement of their lists.
\<close>

definition same_session :: "Session \<Rightarrow> Session \<Rightarrow> bool" where
  "same_session s t =
     (s\<lparr>ses_Permissions := [], ses_DelegatedPermissions := [], ses_PolicyGroups := []\<rparr> =
      t\<lparr>ses_Permissions := [], ses_DelegatedPermissions := [], ses_PolicyGroups := []\<rparr> \<and>
      set (ses_Permissions s) = set (ses_Permissions t) \<and>
      set (ses_DelegatedPermissions s) = set (ses_DelegatedPermissions t) \<and>
      set (ses_PolicyGroups s) = set (ses_PolicyGroups t))"

definition new_session :: "string \<Rightarrow> int \<Rightarrow> SessionCreateInput \<Rightarrow> Session" where
  "new_session u now inp =
     \<lparr>ses_ID = u, ses_Kind = sci_Kind inp, ses_UserID = sci_UserID inp,
      ses_ClientID = sci_ClientID inp, ses_ActorID = sci_ActorID inp,
      ses_ActorType = sci_ActorType inp, ses_AccessTokenHash = sci_AccessTokenHash inp,
      ses_RefreshTokenHash = sci_RefreshTokenHash inp, ses_RefreshJTI = sci_RefreshJTI inp,
      ses_ReplacedByJTI = '''', ses_Permissions = sci_Permissions inp,
      ses_DelegatedPermissions = sci_DelegatedPermissions inp,
      ses_PolicyGroups = sci_PolicyGroups inp, ses_PermissionVersion = sci_PermissionVersion inp,
      ses_CreatedAt = trunc_sec now, ses_UpdatedAt = trunc_sec now, ses_LastSeenAt = trunc_sec now,
      ses_ExpiresAt = trunc_sec (sci_ExpiresAt inp),
      ses_RefreshExpiresAt = trunc_sec (sci_RefreshExpiresAt inp),
      ses_Revoked = False, ses_RevokedAt = None,
      ses_UserAgent = sci_UserAgent inp, ses_IPAddress = sci_IPAddress inp\<rparr>"

text \<open>What a rotation creates: the old session's identity, and its permissions unless new ones are given.\<close>

definition rotation_input :: "SessionRefreshInput \<Rightarrow> Session \<Rightarrow> SessionCreateInput" where
  "rotation_input inp old =
     (let carry = (sri_Permissions inp = []) in
      \<lparr>sci_Kind = ses_Kind old, sci_UserID = ses_UserID old, sci_ClientID = ses_ClientID old,
       sci_ActorID = ses_ActorID old, sci_ActorType = ses_ActorType old,
       sci_AccessTokenHash = sri_NewAccessTokenHash inp,
       sci_RefreshTokenHash = sri_NewRefreshTokenHash inp, sci_RefreshJTI = sri_NewRefreshJTI inp,
       sci_Permissions = (if carry then ses_Permissions old else sri_Permissions inp),
       sci_DelegatedPermissions =
         (if carry then ses_DelegatedPermissions old else sri_DelegatedPermissions inp),
       sci_PolicyGroups = (if carry then ses_PolicyGroups old else sri_PolicyGroups inp),
       sci_PermissionVersion = (if carry then ses_PermissionVersion old else sri_PermissionVersion inp),
       sci_ExpiresAt = sri_NewExpiresAt inp, sci_RefreshExpiresAt = sri_NewRefreshExpiresAt inp,
       sci_UserAgent = sri_UserAgent inp, sci_IPAddress = sri_IPAddress inp\<rparr>)"

definition revoked_at :: "int \<Rightarrow> Session \<Rightarrow> Session" where
  "revoked_at now s =
     s\<lparr>ses_Revoked := True, ses_RevokedAt := Some (trunc_sec now), ses_UpdatedAt := trunc_sec now\<rparr>"

definition rotated_away :: "int \<Rightarrow> string \<Rightarrow> Session \<Rightarrow> Session" where
  "rotated_away now jti s = (revoked_at now s)\<lparr>ses_ReplacedByJTI := jti\<rparr>"

text \<open>
  How a table of sessions may change while nothing is deleted: a session keeps everything but its
  revocation mark and its audit times, and a revoked one stays revoked. New IDs may appear.
\<close>

definition ages :: "Session \<Rightarrow> Session \<Rightarrow> bool" where
  "ages s t =
     (t = s\<lparr>ses_Revoked := ses_Revoked t, ses_RevokedAt := ses_RevokedAt t,
           ses_ReplacedByJTI := ses_ReplacedByJTI t, ses_UpdatedAt := ses_UpdatedAt t,
           ses_LastSeenAt := ses_LastSeenAt t\<rparr> \<and> (ses_Revoked s \<longrightarrow> ses_Revoked t))"

definition evolves :: "sessions \<Rightarrow> sessions \<Rightarrow> bool" where
  "evolves S T = (\<forall>u s. S u = Some s \<longrightarrow> (\<exists>t. T u = Some t \<and> ages s t))"

lemma ages_refl [simp]: "ages s s"
  by (simp add: ages_def)

lemma agesD:
  assumes "ages s t"
  shows "ses_Revoked s \<Longrightarrow> ses_Revoked t"
    and "ses_ID t = ses_ID s" "ses_Kind t = ses_Kind s" "ses_UserID t = ses_UserID s"
    and "ses_ClientID t = ses_ClientID s" "ses_AccessTokenHash t = ses_AccessTokenHash s"
    and "ses_RefreshTokenHash t = ses_RefreshTokenHash s" "ses_RefreshJTI t = ses_RefreshJTI s"
    and "ses_ExpiresAt t = ses_ExpiresAt s" "ses_RefreshExpiresAt t = ses_RefreshExpiresAt s"
    and "ses_ActorID t = ses_ActorID s" "ses_ActorType t = ses_ActorType s"
    and "ses_Permissions t = ses_Permissions s"
proof -
  show "ses_Revoked s \<Longrightarrow> ses_Revoked t" using assms by (simp add: ages_def)
  have t: "t = s\<lparr>ses_Revoked := ses_Revoked t, ses_RevokedAt := ses_RevokedAt t,
      ses_ReplacedByJTI := ses_ReplacedByJTI t, ses_UpdatedAt := ses_UpdatedAt t,
      ses_LastSeenAt := ses_LastSeenAt t\<rparr>"
    using assms by (simp add: ages_def)
  show "ses_ID t = ses_ID s" by (subst t) simp
  show "ses_Kind t = ses_Kind s" by (subst t) simp
  show "ses_UserID t = ses_UserID s" by (subst t) simp
  show "ses_ClientID t = ses_ClientID s" by (subst t) simp
  show "ses_AccessTokenHash t = ses_AccessTokenHash s" by (subst t) simp
  show "ses_RefreshTokenHash t = ses_RefreshTokenHash s" by (subst t) simp
  show "ses_RefreshJTI t = ses_RefreshJTI s" by (subst t) simp
  show "ses_ExpiresAt t = ses_ExpiresAt s" by (subst t) simp
  show "ses_RefreshExpiresAt t = ses_RefreshExpiresAt s" by (subst t) simp
  show "ses_ActorID t = ses_ActorID s" by (subst t) simp
  show "ses_ActorType t = ses_ActorType s" by (subst t) simp
  show "ses_Permissions t = ses_Permissions s" by (subst t) simp
qed

lemma ages_trans: "ages s t \<Longrightarrow> ages t u \<Longrightarrow> ages s u"
  by (cases s, cases t, cases u) (simp add: ages_def)

lemma ages_revoked_at [simp]: "ages s (revoked_at now s)"
  by (simp add: ages_def revoked_at_def)

lemma ages_rotated_away [simp]: "ages s (rotated_away now j s)"
  by (simp add: ages_def rotated_away_def revoked_at_def)

lemma evolves_refl [simp]: "evolves S S"
  by (simp add: evolves_def)

lemma evolves_trans [trans]: "evolves S T \<Longrightarrow> evolves T U \<Longrightarrow> evolves S U"
  unfolding evolves_def by (meson ages_trans)

lemma evolves_new: "S u = None \<Longrightarrow> evolves S (S(u \<mapsto> s))"
  by (auto simp: evolves_def)

locale session_repository =
  fixes repo :: "'db session_repo"
    and sessions :: "'db \<Rightarrow> sessions"
    and inv :: "'db \<Rightarrow> bool"
  assumes id_ok: "inv db \<Longrightarrow> sessions db u = Some s \<Longrightarrow> ses_ID s = u"
    and create_ok: "inv db \<Longrightarrow> sr_Create repo now inp db = (Inr r, db') \<Longrightarrow>
      \<exists>s. r = Some s \<and> sessions db (ses_ID s) = None \<and> same_session s (new_session (ses_ID s) now inp) \<and>
          sessions db' = (sessions db)(ses_ID s \<mapsto> s)"
    and create_err: "inv db \<Longrightarrow> sr_Create repo now inp db = (Inl e, db') \<Longrightarrow> foreign e"
    and create_step: "inv db \<Longrightarrow> sr_Create repo now inp db = (cr, db') \<Longrightarrow>
      inv db' \<and> evolves (sessions db) (sessions db')"
    and access_some: "inv db \<Longrightarrow> sr_GetByAccessHash repo h db = Inr (Some s) \<Longrightarrow>
      sessions db (ses_ID s) = Some s \<and> ses_AccessTokenHash s = h"
    and access_none: "inv db \<Longrightarrow> sr_GetByAccessHash repo h db = Inr None \<Longrightarrow>
      sessions db u = Some s \<Longrightarrow> ses_AccessTokenHash s \<noteq> h"
    and access_err: "sr_GetByAccessHash repo h db = Inl e \<Longrightarrow> foreign e"
    and refresh_some: "inv db \<Longrightarrow> sr_GetByRefreshHash repo h db = Inr (Some s) \<Longrightarrow>
      sessions db (ses_ID s) = Some s \<and> ses_RefreshTokenHash s = h"
    and refresh_none: "inv db \<Longrightarrow> sr_GetByRefreshHash repo h db = Inr None \<Longrightarrow>
      sessions db u = Some s \<Longrightarrow> ses_RefreshTokenHash s \<noteq> h"
    and refresh_err: "sr_GetByRefreshHash repo h db = Inl e \<Longrightarrow> foreign e"
    and by_id_ok: "inv db \<Longrightarrow> sr_GetByID repo u db = Inr r \<Longrightarrow> r = sessions db u"
    and by_id_err: "sr_GetByID repo u db = Inl e \<Longrightarrow> foreign e"
    and list_ok: "inv db \<Longrightarrow> sr_ListForUser repo usr db = Inr ss \<Longrightarrow>
      distinct (map ses_ID ss) \<and> sorted (map ses_LastSeenAt ss) \<and>
      set ss = {s. \<exists>u. sessions db u = Some s \<and> ses_UserID s = usr \<and> \<not> ses_Revoked s}"
    and rotate_ok: "inv snap \<Longrightarrow> inv db \<Longrightarrow> sr_RotateTokens repo now rin snap db = (Inr r, db') \<Longrightarrow>
      \<exists>old cur s. sessions snap (sri_OldSessionID rin) = Some old \<and> \<not> ses_Revoked old \<and>
        sessions db (sri_OldSessionID rin) = Some cur \<and> \<not> ses_Revoked cur \<and>
        r = Some s \<and> sessions db (ses_ID s) = None \<and>
        same_session s (new_session (ses_ID s) now (rotation_input rin old)) \<and>
        sessions db' = (sessions db)(sri_OldSessionID rin \<mapsto> rotated_away now (sri_NewRefreshJTI rin) cur,
                                     ses_ID s \<mapsto> s)"
    and rotate_err: "inv snap \<Longrightarrow> inv db \<Longrightarrow> sr_RotateTokens repo now rin snap db = (Inl e, db') \<Longrightarrow>
      foreign e \<or> e = Sentinel ErrRefreshTokenReplayed \<and> db' = db \<and>
        (\<exists>old. sessions snap (sri_OldSessionID rin) = Some old \<and> ses_Revoked old)"
    and rotate_step: "inv snap \<Longrightarrow> inv db \<Longrightarrow> sr_RotateTokens repo now rin snap db = (cr, db') \<Longrightarrow>
      inv db' \<and> evolves (sessions db) (sessions db')"
    and revoke_ok: "inv db \<Longrightarrow> sr_Revoke repo now u db = (Inr x, db') \<Longrightarrow>
      sessions db' = (sessions db)(u := map_option (revoked_at now) (sessions db u))"
    and revoke_err: "inv db \<Longrightarrow> sr_Revoke repo now u db = (Inl e, db') \<Longrightarrow> foreign e"
    and revoke_step: "inv db \<Longrightarrow> sr_Revoke repo now u db = (y, db') \<Longrightarrow>
      inv db' \<and> evolves (sessions db) (sessions db')"
    and revoke_all_ok: "inv db \<Longrightarrow> sr_RevokeAllForUser repo now usr db = (Inr x, db') \<Longrightarrow>
      sessions db' = (\<lambda>u. map_option (\<lambda>s. if ses_UserID s = usr \<and> \<not> ses_Revoked s then revoked_at now s else s)
                            (sessions db u))"
    and revoke_all_err: "inv db \<Longrightarrow> sr_RevokeAllForUser repo now usr db = (Inl e, db') \<Longrightarrow> foreign e"
    and revoke_all_step: "inv db \<Longrightarrow> sr_RevokeAllForUser repo now usr db = (y, db') \<Longrightarrow>
      inv db' \<and> evolves (sessions db) (sessions db')"
    and touch_step: "inv db \<Longrightarrow> sr_Touch repo now u db = (y, db') \<Longrightarrow>
      inv db' \<and> evolves (sessions db) (sessions db') \<and>
      (\<forall>v s t. sessions db v = Some s \<longrightarrow> sessions db' v = Some t \<longrightarrow>
         ses_Revoked t = ses_Revoked s)"
    and delete_ok: "inv db \<Longrightarrow> sr_DeleteExpired repo now db = (Inr k, db') \<Longrightarrow>
      k = int (card {u. \<exists>s. sessions db u = Some s \<and> fmt_rfc3339 (ses_RefreshExpiresAt s) \<le> fmt_rfc3339 now}) \<and>
      sessions db' = (\<lambda>u. case sessions db u of None \<Rightarrow> None
                        | Some s \<Rightarrow> if fmt_rfc3339 (ses_RefreshExpiresAt s) \<le> fmt_rfc3339 now then None else Some s)"
    and delete_step: "inv db \<Longrightarrow> sr_DeleteExpired repo now db = (k', db') \<Longrightarrow>
      inv db' \<and> (\<forall>u. sessions db' u = sessions db u \<or> sessions db' u = None)"
begin

lemma step_inv [intro]:
  "inv db \<Longrightarrow> sr_Create repo now inp db = (cr, db') \<Longrightarrow> inv db'"
  "inv db \<Longrightarrow> sr_Revoke repo now u db = (y, db') \<Longrightarrow> inv db'"
  "inv db \<Longrightarrow> sr_RevokeAllForUser repo now usr db = (y, db') \<Longrightarrow> inv db'"
  using create_step revoke_step revoke_all_step by blast+

end

end
