(* ===== verification/Dgraph_Session.thy ===== *)
theory Dgraph_Session
  imports Session_Repo
begin

text \<open>
  \<^verbatim>\<open>internal/repository/dgraph/session.go\<close>: the wire struct, the queries and the N-Quads of every
  method of \<^verbatim>\<open>SessionRepo\<close>, over any Dgraph client. The second half shows that a \<open>dgraph_client\<close>
  makes it a \<open>session_repository\<close> for the table \<open>session_view\<close> of the committed graph, on graphs
  whose session nodes carry all the predicates the program writes (\<open>wf_graph\<close>, kept by every method).
\<close>

section \<open>The Dgraph implementation\<close>

record sessionNode =
  sn_UID :: string
  sn_Kind :: string
  sn_UserID :: string
  sn_ClientID :: string
  sn_ActorID :: string
  sn_ActorType :: string
  sn_AccessTokenHash :: string
  sn_RefreshTokenHash :: string
  sn_RefreshJTI :: string
  sn_ReplacedByJTI :: string
  sn_Permissions :: "string list"
  sn_DelegPerms :: "string list"
  sn_PolicyGroups :: "string list"
  sn_PermVersion :: nat
  sn_CreatedAt :: "int option"
  sn_UpdatedAt :: "int option"
  sn_LastSeenAt :: "int option"
  sn_ExpiresAt :: "int option"
  sn_RefreshExpiresAt :: "int option"
  sn_Revoked :: bool
  sn_RevokedAt :: "int option"
  sn_UserAgent :: string
  sn_IPAddress :: string

definition decode_session :: "jnode \<Rightarrow> sessionNode" where \<comment> \<open>the struct's JSON tags\<close>
  "decode_session j =
     (let n = jn_val j in
      \<lparr>sn_UID = jn_uid j, sn_Kind = jstr n S_kind, sn_UserID = jstr n S_user_id,
       sn_ClientID = jstr n S_client_id, sn_ActorID = jstr n S_actor_id,
       sn_ActorType = jstr n S_actor_type, sn_AccessTokenHash = jstr n S_access_token_hash,
       sn_RefreshTokenHash = jstr n S_refresh_token_hash, sn_RefreshJTI = jstr n S_refresh_jti,
       sn_ReplacedByJTI = jstr n S_replaced_by_jti, sn_Permissions = jstrs n S_permissions,
       sn_DelegPerms = jstrs n S_delegated_permissions, sn_PolicyGroups = jstrs n S_policy_groups,
       sn_PermVersion = jint n S_permission_version, sn_CreatedAt = jtime n S_created_at,
       sn_UpdatedAt = jtime n S_updated_at, sn_LastSeenAt = jtime n S_last_seen_at,
       sn_ExpiresAt = jtime n S_expires_at, sn_RefreshExpiresAt = jtime n S_refresh_expires_at,
       sn_Revoked = jbool n S_revoked, sn_RevokedAt = jtime n S_revoked_at,
       sn_UserAgent = jstr n S_user_agent, sn_IPAddress = jstr n S_ip_address\<rparr>)"

definition nodeToSession :: "sessionNode \<Rightarrow> Session" where
  "nodeToSession n =
     \<lparr>ses_ID = sn_UID n, ses_Kind = sn_Kind n, ses_UserID = sn_UserID n,
      ses_ClientID = sn_ClientID n, ses_ActorID = sn_ActorID n, ses_ActorType = sn_ActorType n,
      ses_AccessTokenHash = sn_AccessTokenHash n, ses_RefreshTokenHash = sn_RefreshTokenHash n,
      ses_RefreshJTI = sn_RefreshJTI n, ses_ReplacedByJTI = sn_ReplacedByJTI n,
      ses_Permissions = sn_Permissions n, ses_DelegatedPermissions = sn_DelegPerms n,
      ses_PolicyGroups = sn_PolicyGroups n, ses_PermissionVersion = sn_PermVersion n,
      ses_CreatedAt = parse_time (sn_CreatedAt n), ses_UpdatedAt = parse_time (sn_UpdatedAt n),
      ses_LastSeenAt = parse_time (sn_LastSeenAt n), ses_ExpiresAt = parse_time (sn_ExpiresAt n),
      ses_RefreshExpiresAt = parse_time (sn_RefreshExpiresAt n), ses_Revoked = sn_Revoked n,
      ses_RevokedAt = map_option parse_rfc3339 (sn_RevokedAt n),
      ses_UserAgent = sn_UserAgent n, ses_IPAddress = sn_IPAddress n\<rparr>"

definition sessionFields :: "pred list" where
  "sessionFields =
     [S_kind, S_user_id, S_client_id, S_actor_id, S_actor_type, S_access_token_hash,
      S_refresh_token_hash, S_refresh_jti, S_replaced_by_jti, S_permissions,
      S_delegated_permissions, S_policy_groups, S_permission_version, S_created_at, S_updated_at,
      S_last_seen_at, S_expires_at, S_refresh_expires_at, S_revoked, S_revoked_at, S_user_agent,
      S_ip_address]"

definition uid_query :: "uid \<Rightarrow> pred list \<Rightarrow> query" where \<comment> \<open>\<open>func: uid(id)\<close> with \<open>@filter(type(Session))\<close>\<close>
  "uid_query u fs =
     \<lparr>q_func = FuncUid u, q_filter = [FType ''Session''], q_orderasc = None, q_page = None,
      q_fields = fs, q_total = False\<rparr>"

definition SessionRepo_GetByID :: "'db dgraph \<Rightarrow> string \<Rightarrow> 'db \<Rightarrow> Session option res" where
  "SessionRepo_GetByID dg sid db =
     (if \<not> re_match validDgraphUID sid
      then Inl (Foreign ''dgraph: get session by id: invalid uid format'')
      else case dg_query dg Strong (uid_query sid sessionFields) db of
        Inl e \<Rightarrow> Inl (Wrap ''dgraph: get session by id'' e)
      | Inr resp \<Rightarrow> (case unmarshal ''dgraph: unmarshal session'' resp of
          Inl e \<Rightarrow> Inl e
        | Inr (ns, _) \<Rightarrow> (case ns of [] \<Rightarrow> Inr None
                           | n # _ \<Rightarrow> Inr (Some (nodeToSession (decode_session n))))))"

definition eq_query :: "pred \<Rightarrow> string \<Rightarrow> query" where
  "eq_query p v =
     \<lparr>q_func = FuncEq p (VStr v), q_filter = [FType ''Session''], q_orderasc = None, q_page = None,
      q_fields = sessionFields, q_total = False\<rparr>"

definition SessionRepo_queryOne :: "'db dgraph \<Rightarrow> pred \<Rightarrow> string \<Rightarrow> 'db \<Rightarrow> Session option res" where
  "SessionRepo_queryOne dg p v db =
     (case dg_query dg Strong (eq_query p v) db of
        Inl e \<Rightarrow> Inl (Wrap ''dgraph: query session by predicate'' e)
      | Inr resp \<Rightarrow> (case unmarshal ''dgraph: unmarshal session'' resp of
          Inl e \<Rightarrow> Inl e
        | Inr (ns, _) \<Rightarrow> (case ns of [] \<Rightarrow> Inr None
                           | n # _ \<Rightarrow> Inr (Some (nodeToSession (decode_session n))))))"

definition SessionRepo_GetByAccessHash :: "'db dgraph \<Rightarrow> string \<Rightarrow> 'db \<Rightarrow> Session option res" where
  "SessionRepo_GetByAccessHash dg h db = SessionRepo_queryOne dg S_access_token_hash h db"

definition SessionRepo_GetByRefreshHash :: "'db dgraph \<Rightarrow> string \<Rightarrow> 'db \<Rightarrow> Session option res" where
  "SessionRepo_GetByRefreshHash dg h db = SessionRepo_queryOne dg S_refresh_token_hash h db"

definition session_quads :: "subj \<Rightarrow> int \<Rightarrow> SessionCreateInput \<Rightarrow> nquad list" where
  "session_quads s now inp =
     (let t = VTime (fmt_rfc3339 now) in
      [(s, DgraphType, VStr ''Session''),
       (s, S_kind, VStr (sci_Kind inp)),
       (s, S_user_id, VStr (sci_UserID inp)),
       (s, S_client_id, VStr (sci_ClientID inp)),
       (s, S_actor_id, VStr (sci_ActorID inp)),
       (s, S_actor_type, VStr (sci_ActorType inp)),
       (s, S_access_token_hash, VStr (sci_AccessTokenHash inp)),
       (s, S_refresh_token_hash, VStr (sci_RefreshTokenHash inp)),
       (s, S_refresh_jti, VStr (sci_RefreshJTI inp)),
       (s, S_permission_version, VInt (sci_PermissionVersion inp)),
       (s, S_expires_at, VTime (fmt_rfc3339 (sci_ExpiresAt inp))),
       (s, S_refresh_expires_at, VTime (fmt_rfc3339 (sci_RefreshExpiresAt inp))),
       (s, S_revoked, VBool False),
       (s, S_created_at, t),
       (s, S_updated_at, t),
       (s, S_last_seen_at, t),
       (s, S_user_agent, VStr (sci_UserAgent inp)),
       (s, S_ip_address, VStr (sci_IPAddress inp))] @
      map (\<lambda>p. (s, S_permissions, VStr p)) (sci_Permissions inp) @
      map (\<lambda>p. (s, S_delegated_permissions, VStr p)) (sci_DelegatedPermissions inp) @
      map (\<lambda>g. (s, S_policy_groups, VStr g)) (sci_PolicyGroups inp))"

definition create_nquads :: "int \<Rightarrow> SessionCreateInput \<Rightarrow> nquad list" where
  "create_nquads now inp = session_quads (Blank ''session'') now inp"

definition SessionRepo_Create :: "'db dgraph \<Rightarrow> int \<Rightarrow> SessionCreateInput \<Rightarrow> 'db \<Rightarrow> Session option res \<times> 'db" where
  "SessionRepo_Create dg now inp db =
     (case dg_mutate dg (set_nquads (create_nquads now inp)) db of
        (Inl e, db') \<Rightarrow> (Inl (Wrap ''dgraph: create session'' e), db')
      | (Inr resp, db') \<Rightarrow>
          (let u = uids_get resp ''session'' in
           if u = '''' then (Inl (Foreign ''dgraph: create session: no uid returned''), db')
           else (SessionRepo_GetByID dg u db', db')))"

definition list_query :: "string \<Rightarrow> query" where
  "list_query userID =
     \<lparr>q_func = FuncEq S_user_id (VStr userID), q_filter = [FNot (FEq S_revoked (VBool True))],
      q_orderasc = Some S_last_seen_at, q_page = None, q_fields = sessionFields, q_total = False\<rparr>"

definition SessionRepo_ListForUser :: "'db dgraph \<Rightarrow> string \<Rightarrow> 'db \<Rightarrow> Session list res" where
  "SessionRepo_ListForUser dg userID db =
     (case dg_query dg Strong (list_query userID) db of
        Inl e \<Rightarrow> Inl (Wrap ''dgraph: list sessions for user'' e)
      | Inr resp \<Rightarrow> (case unmarshal ''dgraph: unmarshal session list'' resp of
          Inl e \<Rightarrow> Inl e
        | Inr (ns, _) \<Rightarrow> Inr (map (\<lambda>n. nodeToSession (decode_session n)) ns)))"

definition rotateFields :: "pred list" where
  "rotateFields =
     [S_revoked, S_kind, S_user_id, S_client_id, S_actor_id, S_actor_type, S_permissions,
      S_delegated_permissions, S_policy_groups, S_permission_version, S_user_agent, S_ip_address]"

definition rotate_nquads :: "int \<Rightarrow> SessionRefreshInput \<Rightarrow> sessionNode \<Rightarrow> nquad list" where
  "rotate_nquads now inp old =
     (let carry = (length (sri_Permissions inp) = 0);
          perms = (if carry then sn_Permissions old else sri_Permissions inp);
          delegPerms = (if carry then sn_DelegPerms old else sri_DelegatedPermissions inp);
          pgroups = (if carry then sn_PolicyGroups old else sri_PolicyGroups inp);
          permVersion = (if carry then sn_PermVersion old else sri_PermissionVersion inp);
          t = VTime (fmt_rfc3339 now); o' = Uid (sn_UID old); s = Blank ''new'' in
      [(o', S_revoked, VBool True),
       (o', S_revoked_at, t),
       (o', S_replaced_by_jti, VStr (sri_NewRefreshJTI inp)),
       (o', S_updated_at, t)] @
      [(s, DgraphType, VStr ''Session''),
       (s, S_kind, VStr (sn_Kind old)),
       (s, S_user_id, VStr (sn_UserID old)),
       (s, S_client_id, VStr (sn_ClientID old)),
       (s, S_actor_id, VStr (sn_ActorID old)),
       (s, S_actor_type, VStr (sn_ActorType old)),
       (s, S_access_token_hash, VStr (sri_NewAccessTokenHash inp)),
       (s, S_refresh_token_hash, VStr (sri_NewRefreshTokenHash inp)),
       (s, S_refresh_jti, VStr (sri_NewRefreshJTI inp)),
       (s, S_permission_version, VInt permVersion),
       (s, S_expires_at, VTime (fmt_rfc3339 (sri_NewExpiresAt inp))),
       (s, S_refresh_expires_at, VTime (fmt_rfc3339 (sri_NewRefreshExpiresAt inp))),
       (s, S_revoked, VBool False),
       (s, S_created_at, t),
       (s, S_updated_at, t),
       (s, S_last_seen_at, t),
       (s, S_user_agent, VStr (sri_UserAgent inp)),
       (s, S_ip_address, VStr (sri_IPAddress inp))] @
      map (\<lambda>p. (s, S_permissions, VStr p)) perms @
      map (\<lambda>p. (s, S_delegated_permissions, VStr p)) delegPerms @
      map (\<lambda>g. (s, S_policy_groups, VStr g)) pgroups)"

definition SessionRepo_RotateTokens ::
  "'db dgraph \<Rightarrow> int \<Rightarrow> SessionRefreshInput \<Rightarrow> 'db \<Rightarrow> 'db \<Rightarrow> Session option res \<times> 'db" where
  "SessionRepo_RotateTokens dg now inp snap db =
     (if \<not> re_match validDgraphUID (sri_OldSessionID inp)
      then (Inl (Foreign ''dgraph: rotate tokens: invalid uid format''), db)
      else case dg_query dg Strong (uid_query (sri_OldSessionID inp) rotateFields) snap of
        Inl e \<Rightarrow> (Inl (Wrap ''dgraph: rotate tokens read'' e), db)
      | Inr qresp \<Rightarrow> (case unmarshal ''dgraph: rotate tokens unmarshal'' qresp of
          Inl e \<Rightarrow> (Inl e, db)
        | Inr (ns, _) \<Rightarrow> (case ns of
            [] \<Rightarrow> (Inl (Foreign ''dgraph: session not found during rotation''), db)
          | n # _ \<Rightarrow>
              (let old = decode_session n in
               if sn_Revoked old then (Inl (Sentinel ErrRefreshTokenReplayed), db)
               else case dg_commit dg (set_nquads (rotate_nquads now inp old)) snap db of
                 (MutateErr e, db') \<Rightarrow> (Inl (Wrap ''dgraph: rotate tokens mutate'' e), db')
               | (CommitErr e, db') \<Rightarrow> (Inl (Wrap ''dgraph: rotate tokens commit'' e), db')
               | (Committed mresp, db') \<Rightarrow>
                   (let u = uids_get mresp ''new'' in
                    if u = '''' then (Inl (Foreign ''dgraph: rotate tokens: no uid returned for new session''), db')
                    else (SessionRepo_GetByID dg u db', db'))))))"

definition revoke_nquads :: "int \<Rightarrow> uid \<Rightarrow> nquad list" where
  "revoke_nquads now u =
     [(Uid u, S_revoked, VBool True),
      (Uid u, S_revoked_at, VTime (fmt_rfc3339 now)),
      (Uid u, S_updated_at, VTime (fmt_rfc3339 now))]"

definition SessionRepo_Revoke :: "'db dgraph \<Rightarrow> int \<Rightarrow> string \<Rightarrow> 'db \<Rightarrow> unit res \<times> 'db" where
  "SessionRepo_Revoke dg now sessionID db =
     (case dg_mutate dg (set_nquads (revoke_nquads now sessionID)) db of
        (Inl e, db') \<Rightarrow> (Inl (Wrap ''dgraph: revoke session'' e), db')
      | (Inr _, db') \<Rightarrow> (Inr (), db'))"

definition active_query :: "string \<Rightarrow> query" where
  "active_query userID =
     \<lparr>q_func = FuncEq S_user_id (VStr userID), q_filter = [FNot (FEq S_revoked (VBool True))],
      q_orderasc = None, q_page = None, q_fields = [], q_total = False\<rparr>"

definition SessionRepo_RevokeAllForUser :: "'db dgraph \<Rightarrow> int \<Rightarrow> string \<Rightarrow> 'db \<Rightarrow> unit res \<times> 'db" where
  "SessionRepo_RevokeAllForUser dg now userID db =
     (case dg_query dg Strong (active_query userID) db of
        Inl e \<Rightarrow> (Inl (Wrap ''dgraph: list sessions for bulk revoke'' e), db)
      | Inr resp \<Rightarrow> (case unmarshal ''dgraph: unmarshal sessions for bulk revoke'' resp of
          Inl e \<Rightarrow> (Inl e, db)
        | Inr (ns, _) \<Rightarrow>
            if length ns = 0 then (Inr (), db)
            else (case dg_mutate dg (set_nquads (concat (map (\<lambda>n. revoke_nquads now (jn_uid n)) ns))) db of
                    (Inl e, db') \<Rightarrow> (Inl (Wrap ''dgraph: bulk revoke sessions for user'' e), db')
                  | (Inr _, db') \<Rightarrow> (Inr (), db'))))"

definition SessionRepo_Touch :: "'db dgraph \<Rightarrow> int \<Rightarrow> string \<Rightarrow> 'db \<Rightarrow> unit res \<times> 'db" where
  "SessionRepo_Touch dg now sessionID db =
     (case dg_mutate dg (set_nquads [(Uid sessionID, S_last_seen_at, VTime (fmt_rfc3339 now))]) db of
        (Inl e, db') \<Rightarrow> (Inl (Wrap ''dgraph: touch session'' e), db')
      | (Inr _, db') \<Rightarrow> (Inr (), db'))"

definition expired_query :: "int \<Rightarrow> query" where
  "expired_query now =
     \<lparr>q_func = FuncType ''Session'', q_filter = [FLe S_refresh_expires_at (VTime (fmt_rfc3339 now))],
      q_orderasc = None, q_page = None, q_fields = [], q_total = False\<rparr>"

definition SessionRepo_DeleteExpired :: "'db dgraph \<Rightarrow> int \<Rightarrow> 'db \<Rightarrow> int res \<times> 'db" where
  "SessionRepo_DeleteExpired dg now db =
     (case dg_query dg Strong (expired_query now) db of
        Inl e \<Rightarrow> (Inl (Wrap ''dgraph: query expired sessions'' e), db)
      | Inr resp \<Rightarrow> (case unmarshal ''dgraph: unmarshal expired sessions'' resp of
          Inl e \<Rightarrow> (Inl e, db)
        | Inr (ns, _) \<Rightarrow>
            if length ns = 0 then (Inr 0, db)
            else (case dg_mutate dg (delete_uids (map jn_uid ns)) db of
                    (Inl e, db') \<Rightarrow> (Inl (Wrap ''dgraph: delete expired sessions'' e), db')
                  | (Inr _, db') \<Rightarrow> (Inr (int (length ns)), db'))))"

definition dgraph_session_repo :: "'db dgraph \<Rightarrow> 'db session_repo" where
  "dgraph_session_repo dg =
     \<lparr>sr_Create = SessionRepo_Create dg, sr_GetByAccessHash = SessionRepo_GetByAccessHash dg,
      sr_GetByRefreshHash = SessionRepo_GetByRefreshHash dg, sr_GetByID = SessionRepo_GetByID dg,
      sr_ListForUser = SessionRepo_ListForUser dg, sr_RotateTokens = SessionRepo_RotateTokens dg,
      sr_Revoke = SessionRepo_Revoke dg, sr_RevokeAllForUser = SessionRepo_RevokeAllForUser dg,
      sr_Touch = SessionRepo_Touch dg, sr_DeleteExpired = SessionRepo_DeleteExpired dg\<rparr>"

section \<open>The sessions of a graph\<close>

definition session_typed :: "node \<Rightarrow> bool" where
  "session_typed n = (VStr ''Session'' \<in> set (n DgraphType))"

definition session_view :: "graph \<Rightarrow> sessions" where
  "session_view g u =
     (if session_typed (g u) then Some (nodeToSession (decode_session \<lparr>jn_uid = u, jn_val = g u\<rparr>)) else None)"

definition str_preds :: "pred list" where
  "str_preds = [S_kind, S_user_id, S_client_id, S_actor_id, S_actor_type, S_access_token_hash,
     S_refresh_token_hash, S_refresh_jti, S_user_agent, S_ip_address]"

definition time_preds :: "pred list" where
  "time_preds = [S_created_at, S_updated_at, S_last_seen_at, S_expires_at, S_refresh_expires_at]"

definition is_str :: "node \<Rightarrow> pred \<Rightarrow> bool" where
  "is_str n p = (\<exists>x. n p = [VStr x])"

definition is_time :: "node \<Rightarrow> pred \<Rightarrow> bool" where
  "is_time n p = (\<exists>t. n p = [VTime t])"

definition wf_node :: "node \<Rightarrow> bool" where
  "wf_node n =
     (if session_typed n then
        (\<forall>p \<in> set str_preds. is_str n p) \<and> (\<forall>p \<in> set time_preds. is_time n p) \<and>
        (\<exists>b. n S_revoked = [VBool b])
      else n S_user_id = [] \<and> n S_revoked \<noteq> [VBool False])"

definition wf_graph :: "graph \<Rightarrow> bool" where
  "wf_graph g = (\<forall>u. wf_node (g u))"

lemmas wire_defs = decode_session_def nodeToSession_def Let_def

lemma project_wire:
  "List.member fs p \<Longrightarrow> jstr (project fs n) p = jstr n p"
  "List.member fs p \<Longrightarrow> jstrs (project fs n) p = jstrs n p"
  "List.member fs p \<Longrightarrow> jint (project fs n) p = jint n p"
  "List.member fs p \<Longrightarrow> jbool (project fs n) p = jbool n p"
  "List.member fs p \<Longrightarrow> jtime (project fs n) p = jtime n p"
  by (simp_all add: project_def jstr_def jstrs_def jint_def jbool_def jtime_def)

lemma decode_project [simp]:
  "decode_session \<lparr>jn_uid = u, jn_val = project sessionFields n\<rparr> = decode_session \<lparr>jn_uid = u, jn_val = n\<rparr>"
  by (simp add: decode_session_def project_wire sessionFields_def)

lemma view_ID: "session_view g u = Some s \<Longrightarrow> ses_ID s = u"
  by (auto simp: session_view_def wire_defs split: if_splits)

section \<open>Effect of the mutations\<close>

lemma set_nquads_simps [simp]:
  "mu_set (set_nquads qs) = qs" "mu_del (set_nquads qs) = []" "cond_ok g (set_nquads qs)"
  by (simp_all add: set_nquads_def cond_ok_def)

text \<open>The node a session is created with, predicate by predicate.\<close>

definition new_node :: "int \<Rightarrow> SessionCreateInput \<Rightarrow> node" where
  "new_node now inp p =
     (case p of
        DgraphType \<Rightarrow> [VStr ''Session''] | S_kind \<Rightarrow> [VStr (sci_Kind inp)]
      | S_user_id \<Rightarrow> [VStr (sci_UserID inp)] | S_client_id \<Rightarrow> [VStr (sci_ClientID inp)]
      | S_actor_id \<Rightarrow> [VStr (sci_ActorID inp)] | S_actor_type \<Rightarrow> [VStr (sci_ActorType inp)]
      | S_access_token_hash \<Rightarrow> [VStr (sci_AccessTokenHash inp)]
      | S_refresh_token_hash \<Rightarrow> [VStr (sci_RefreshTokenHash inp)]
      | S_refresh_jti \<Rightarrow> [VStr (sci_RefreshJTI inp)]
      | S_permission_version \<Rightarrow> [VInt (sci_PermissionVersion inp)]
      | S_expires_at \<Rightarrow> [VTime (fmt_rfc3339 (sci_ExpiresAt inp))]
      | S_refresh_expires_at \<Rightarrow> [VTime (fmt_rfc3339 (sci_RefreshExpiresAt inp))]
      | S_revoked \<Rightarrow> [VBool False]
      | S_created_at \<Rightarrow> [VTime (fmt_rfc3339 now)] | S_updated_at \<Rightarrow> [VTime (fmt_rfc3339 now)]
      | S_last_seen_at \<Rightarrow> [VTime (fmt_rfc3339 now)]
      | S_user_agent \<Rightarrow> [VStr (sci_UserAgent inp)] | S_ip_address \<Rightarrow> [VStr (sci_IPAddress inp)]
      | S_permissions \<Rightarrow> map VStr (sci_Permissions inp)
      | S_delegated_permissions \<Rightarrow> map VStr (sci_DelegatedPermissions inp)
      | S_policy_groups \<Rightarrow> map VStr (sci_PolicyGroups inp)
      | _ \<Rightarrow> [])"

lemma vals_session_quads:
  "vals_for as (session_quads s now inp) u p = (if resolve as s = Some u then new_node now inp p else [])"
  by (cases p) (simp_all add: session_quads_def Let_def vals_for_map_list new_node_def)

text \<open>A node that holds those values, its list predicates in any order, reads back as the new session.\<close>

definition holds_new :: "int \<Rightarrow> SessionCreateInput \<Rightarrow> node \<Rightarrow> bool" where
  "holds_new now inp n =
     (\<forall>p. if is_list_pred p then set (n p) = set (new_node now inp p) else n p = new_node now inp p)"

lemma holds_newD:
  assumes "holds_new now inp n"
  shows "\<not> is_list_pred p \<Longrightarrow> n p = new_node now inp p"
    and "is_list_pred p \<Longrightarrow> set (n p) = set (new_node now inp p)"
  using assms by (auto simp: holds_new_def split: if_splits)

lemma holds_new_wf: "holds_new now inp n \<Longrightarrow> session_typed n \<and> wf_node n"
  by (simp add: session_typed_def wf_node_def str_preds_def time_preds_def is_str_def is_time_def
      holds_newD is_list_pred_def new_node_def) blast

lemma holds_new_view:
  assumes "holds_new now inp (g u)"
  shows "\<exists>s. session_view g u = Some s \<and> same_session s (new_session u now inp)"
proof -
  have "session_typed (g u)" using holds_new_wf [OF assms] by simp
  then show ?thesis
    by (simp add: session_view_def same_session_def new_session_def wire_defs jstr_def jint_def
        jbool_def jtime_def set_jstrs holds_newD [OF assms] is_list_pred_def new_node_def parse_time_def
        trunc_sec_def)
       (auto simp: image_def)
qed

text \<open>Revocation of a set of nodes.\<close>

definition revoked_node :: "int \<Rightarrow> node \<Rightarrow> node" where
  "revoked_node now n =
     n(S_revoked := [VBool True], S_revoked_at := [VTime (fmt_rfc3339 now)],
       S_updated_at := [VTime (fmt_rfc3339 now)])"

lemma vals_revoke:
  "vals_for as (revoke_nquads now x) u p =
     (if u = x \<and> p = S_revoked then [VBool True]
      else if u = x \<and> (p = S_revoked_at \<or> p = S_updated_at) then [VTime (fmt_rfc3339 now)] else [])"
  by (auto simp: revoke_nquads_def)

lemma vals_revoke_many:
  "distinct us \<Longrightarrow>
     vals_for as (concat (map (revoke_nquads now) us)) u p =
       (if u \<in> set us then vals_for as (revoke_nquads now u) u p else [])"
  by (induction us) (auto simp: vals_revoke)

lemma revoke_many_effect:
  assumes "distinct us" "mut_step as (set_nquads (concat (map (revoke_nquads now) us))) g h"
  shows "h = (\<lambda>u. if u \<in> set us then revoked_node now (g u) else g u)"
proof (intro ext)
  fix u p
  from assms(2) have "applied as (set_nquads (concat (map (revoke_nquads now) us))) g h"
    by (simp add: mut_step_def)
  then show "h u p = (if u \<in> set us then revoked_node now (g u) else g u) p"
    using assms(1)
    by (auto simp: applied_def vals_revoke_many vals_revoke revoked_node_def is_list_pred_def Let_def
        dest!: spec [of _ u] spec [of _ p] split: if_splits)
qed

lemma revoke_effect:
  "mut_step as (set_nquads (revoke_nquads now x)) g h \<Longrightarrow> h = g(x := revoked_node now (g x))"
  using revoke_many_effect [of "[x]" as now g h] by (auto simp: fun_eq_iff)

lemma revoked_node_typed [simp]: "session_typed (revoked_node now n) = session_typed n"
  by (simp add: session_typed_def revoked_node_def)

lemma revoked_node_wf: "wf_node n \<Longrightarrow> wf_node (revoked_node now n)"
  by (auto simp: wf_node_def str_preds_def time_preds_def is_str_def is_time_def)
     (auto simp: revoked_node_def)

lemma revoked_node_view:
  "h u = revoked_node now (g u) \<Longrightarrow> session_view h u = map_option (revoked_at now) (session_view g u)"
  by (simp add: session_view_def) 
     (simp add: revoked_node_def revoked_at_def wire_defs jstr_def jint_def jbool_def jtime_def jstrs_def
      parse_time_def trunc_sec_def)

lemma same_node_view: "h u = g u \<Longrightarrow> session_view h u = session_view g u"
  by (simp add: session_view_def)

lemma wf_not_revoked:
  assumes "wf_node n" "n S_revoked = [VBool False]"
  shows "session_typed n"
  using assms by (auto simp: wf_node_def split: if_splits)

lemma wf_user_id: "wf_node n \<Longrightarrow> v \<in> set (n S_user_id) \<Longrightarrow> session_typed n"
  by (auto simp: wf_node_def split: if_splits)

text \<open>Creation: one fresh node that holds the new session, the rest untouched.\<close>

definition uid_quads :: "nquad list \<Rightarrow> bool" where
  "uid_quads qs = (\<forall>(s, p, v) \<in> set qs. \<exists>u. s = Uid u)"

lemma blanks_append:
  assumes "uid_quads qs"
  shows "blanks (set_nquads (qs @ session_quads (Blank b) now inp)) = [b]"
proof -
  have "concat (map (\<lambda>(s, _, _). case s of Blank b \<Rightarrow> [b] | Uid _ \<Rightarrow> []) qs) = []"
    using assms by (force simp: uid_quads_def)
  moreover have "set (concat (map (\<lambda>(s, _, _). case s of Blank b \<Rightarrow> [b] | Uid _ \<Rightarrow> [])
      (session_quads (Blank b) now inp))) = {b}"
    by (auto simp: session_quads_def Let_def)
  ultimately show ?thesis
    unfolding blanks_def by (intro remdups_single) simp
qed

lemma create_effect:
  assumes step: "mut_step as (set_nquads (qs @ session_quads (Blank b) now inp)) g h"
    and qs: "uid_quads qs"
  obtains u where "as = [(b, u)]" "g u = (\<lambda>_. [])" "re_match validDgraphUID u"
    "holds_new now inp (h u)"
    "\<And>x p. x \<noteq> u \<Longrightarrow> vals_for as qs x p = [] \<Longrightarrow> h x p = g x p"
    "\<And>x p. x \<noteq> u \<Longrightarrow> vals_for as qs x p \<noteq> [] \<Longrightarrow> \<not> is_list_pred p \<Longrightarrow> h x p = [last (vals_for as qs x p)]"
    "\<And>p v. (Uid u, p, v) \<notin> set qs"
proof -
  let ?m = "set_nquads (qs @ session_quads (Blank b) now inp)"
  from step have fr: "fresh_names as ?m g" and ap: "applied as ?m g h"
    by (auto simp: mut_step_def)
  from fr have "map fst as = [b]" by (simp only: fresh_names_def blanks_append [OF qs])
  then obtain u where as: "as = [(b, u)]" by (cases as) auto
  from fr as have u: "g u = (\<lambda>_. [])" "re_match validDgraphUID u" "\<And>p v. (Uid u, p, v) \<notin> set qs"
    by (force simp: fresh_names_def)+
  have "vals_for as qs u p = []" for p
    using qs u(3) by (intro vals_for_other) (force simp: uid_quads_def)
  then have vu: "vals_for as (mu_set ?m) u p = new_node now inp p" for p
    by (simp add: vals_session_quads as)
  have vx: "vals_for as (mu_set ?m) x p = vals_for as qs x p" if "x \<noteq> u" for x p
    using that by (simp add: vals_session_quads as)
  have h: "let vs = vals_for as (mu_set ?m) x p in
        if vs = [] then h x p = g x p
        else if is_list_pred p then set (h x p) = set (g x p) \<union> set vs else h x p = [last vs]" for x p
    using ap by (simp add: applied_def)
  have "holds_new now inp (h u)"
    unfolding holds_new_def
  proof
    fix p
    show "if is_list_pred p then set (h u p) = set (new_node now inp p) else h u p = new_node now inp p"
      using h [of u p] unfolding vu
      by (cases p) (auto simp: u(1) new_node_def Let_def is_list_pred_def split: if_splits)
  qed
  moreover have "\<And>x p. x \<noteq> u \<Longrightarrow> vals_for as qs x p = [] \<Longrightarrow> h x p = g x p"
    using h vx by (metis (mono_tags, lifting))
  moreover have "\<And>x p. x \<noteq> u \<Longrightarrow> vals_for as qs x p \<noteq> [] \<Longrightarrow> \<not> is_list_pred p \<Longrightarrow> h x p = [last (vals_for as qs x p)]"
    using h vx by (metis (mono_tags, lifting))
  ultimately show ?thesis using that as u by blast
qed

lemma create_view:
  assumes "mut_step as (set_nquads (create_nquads now inp)) g h" "wf_graph g"
  obtains u s where "as = [(''session'', u)]" "re_match validDgraphUID u" "session_view g u = None"
    "session_view h u = Some s" "same_session s (new_session u now inp)"
    "session_view h = (session_view g)(u \<mapsto> s)" "wf_graph h"
proof -
  have "mut_step as (set_nquads ([] @ session_quads (Blank ''session'') now inp)) g h"
    using assms(1) by (simp add: create_nquads_def)
  then obtain u where u: "as = [(''session'', u)]" "g u = (\<lambda>_. [])" "re_match validDgraphUID u"
      "holds_new now inp (h u)" "\<And>x p. x \<noteq> u \<Longrightarrow> h x p = g x p"
    by (rule create_effect) (auto simp: uid_quads_def)
  then have hx: "h x = g x" if "x \<noteq> u" for x using that by auto
  from holds_new_view [of now inp h u] u(4) obtain s where
    s: "session_view h u = Some s" "same_session s (new_session u now inp)" by blast
  have "wf_graph h"
    unfolding wf_graph_def using assms(2) hx holds_new_wf [OF u(4)] by (metis wf_graph_def)
  moreover have "session_view h = (session_view g)(u \<mapsto> s)"
  proof
    fix x
    show "session_view h x = ((session_view g)(u \<mapsto> s)) x"
      using s(1) same_node_view [of h x g] hx [of x] by (cases "x = u") auto
  qed
  moreover have "session_view g u = None" by (simp add: session_view_def session_typed_def u(2))
  ultimately show ?thesis using that u s by blast
qed

text \<open>Rotation: the old node is revoked and marked as replaced, one fresh node is created.\<close>

definition rotated_node :: "int \<Rightarrow> string \<Rightarrow> node \<Rightarrow> node" where
  "rotated_node now jti n = (revoked_node now n)(S_replaced_by_jti := [VStr jti])"

definition rotate_create :: "SessionRefreshInput \<Rightarrow> sessionNode \<Rightarrow> SessionCreateInput" where
  "rotate_create inp n = rotation_input inp (nodeToSession n)"

definition retire_quads :: "int \<Rightarrow> SessionRefreshInput \<Rightarrow> uid \<Rightarrow> nquad list" where
  "retire_quads now inp u =
     [(Uid u, S_revoked, VBool True), (Uid u, S_revoked_at, VTime (fmt_rfc3339 now)),
      (Uid u, S_replaced_by_jti, VStr (sri_NewRefreshJTI inp)),
      (Uid u, S_updated_at, VTime (fmt_rfc3339 now))]"

lemma rotate_nquads_eq:
  "rotate_nquads now inp n =
     retire_quads now inp (sn_UID n) @ session_quads (Blank ''new'') now (rotate_create inp n)"
  by (simp add: rotate_nquads_def session_quads_def rotate_create_def rotation_input_def
      nodeToSession_def retire_quads_def Let_def)

lemma vals_retire:
  "vals_for as (retire_quads now inp x) u p =
     (if u = x \<and> p = S_revoked then [VBool True]
      else if u = x \<and> (p = S_revoked_at \<or> p = S_updated_at) then [VTime (fmt_rfc3339 now)]
      else if u = x \<and> p = S_replaced_by_jti then [VStr (sri_NewRefreshJTI inp)] else [])"
  by (auto simp: retire_quads_def)

lemma rotated_node_wf: "wf_node n \<Longrightarrow> wf_node (rotated_node now j n)"
  by (auto simp: wf_node_def session_typed_def str_preds_def time_preds_def is_str_def is_time_def
      rotated_node_def revoked_node_def)

lemma rotated_node_view:
  "h u = rotated_node now j (g u) \<Longrightarrow> session_view h u = map_option (rotated_away now j) (session_view g u)"
  by (simp add: session_view_def session_typed_def rotated_node_def revoked_node_def rotated_away_def
      revoked_at_def wire_defs jstr_def jint_def jbool_def jtime_def jstrs_def parse_time_def trunc_sec_def)

lemma rotate_view:
  assumes step: "mut_step as (set_nquads (rotate_nquads now inp n)) g h" and wf: "wf_graph g"
    and old: "session_view g (sn_UID n) \<noteq> None"
  obtains u s where "as = [(''new'', u)]" "re_match validDgraphUID u" "session_view g u = None"
    "session_view h u = Some s" "same_session s (new_session u now (rotate_create inp n))"
    "session_view h = (session_view g)(sn_UID n := map_option (rotated_away now (sri_NewRefreshJTI inp))
        (session_view g (sn_UID n)), u \<mapsto> s)" "wf_graph h"
proof -
  let ?o = "sn_UID n" and ?qs = "retire_quads now inp (sn_UID n)"
  obtain u where u: "as = [(''new'', u)]" "g u = (\<lambda>_. [])" "re_match validDgraphUID u"
      "holds_new now (rotate_create inp n) (h u)"
      "\<And>x p. x \<noteq> u \<Longrightarrow> vals_for as ?qs x p = [] \<Longrightarrow> h x p = g x p"
      "\<And>x p. x \<noteq> u \<Longrightarrow> vals_for as ?qs x p \<noteq> [] \<Longrightarrow> \<not> is_list_pred p \<Longrightarrow> h x p = [last (vals_for as ?qs x p)]"
    by (rule create_effect [OF step [unfolded rotate_nquads_eq]])
       (auto simp: uid_quads_def retire_quads_def)
  have none: "session_view g u = None" by (simp add: session_view_def session_typed_def u(2))
  with old have "?o \<noteq> u" by auto
  then have ho: "h ?o = rotated_node now (sri_NewRefreshJTI inp) (g ?o)"
    using u(5,6) [of ?o]
    by (intro ext) (auto simp: vals_retire rotated_node_def revoked_node_def is_list_pred_def)
  have hx: "h x = g x" if "x \<noteq> u" "x \<noteq> ?o" for x
    using that u(5) [of x] by (intro ext) (auto simp: vals_retire)
  from holds_new_view [of now _ h u] u(4) obtain s where
    s: "session_view h u = Some s" "same_session s (new_session u now (rotate_create inp n))" by blast
  have "wf_node (h x)" for x
    using wf hx [of x] ho holds_new_wf [OF u(4)] rotated_node_wf by (metis wf_graph_def)
  moreover have "session_view h x = ((session_view g)(?o := map_option (rotated_away now (sri_NewRefreshJTI inp))
        (session_view g ?o), u \<mapsto> s)) x" for x
    using s(1) hx [of x] rotated_node_view [of h ?o now "sri_NewRefreshJTI inp" g, OF ho]
      same_node_view [of h x g] \<open>?o \<noteq> u\<close>
    by auto
  ultimately show ?thesis using that u s none by (simp add: wf_graph_def fun_eq_iff)
qed

section \<open>The implementation meets the contract\<close>

lemma ages_view_revoked:
  "h u = revoked_node now (g u) \<Longrightarrow> session_view g u = Some s \<Longrightarrow>
     \<exists>t. session_view h u = Some t \<and> ages s t"
  using revoked_node_view [of h u now g] by auto

lemma revoke_many_view:
  assumes "distinct us" "mut_step as (set_nquads (concat (map (revoke_nquads now) us))) g h" "wf_graph g"
  shows "session_view h u = map_option (\<lambda>s. if u \<in> set us then revoked_at now s else s) (session_view g u)"
    and "wf_graph h"
proof -
  have h: "h = (\<lambda>u. if u \<in> set us then revoked_node now (g u) else g u)"
    by (rule revoke_many_effect [OF assms(1,2)])
  then show "wf_graph h" using assms(3) revoked_node_wf by (auto simp: wf_graph_def)
  show "session_view h u = map_option (\<lambda>s. if u \<in> set us then revoked_at now s else s) (session_view g u)"
    using revoked_node_view [of h u now g] same_node_view [of h u g] h
    by (cases "u \<in> set us") (auto simp: option.map_ident)
qed

lemma map_option_evolves:
  "(\<And>u s. S u = Some s \<Longrightarrow> ages s (f u s)) \<Longrightarrow> evolves S (\<lambda>u. map_option (f u) (S u))"
  by (auto simp: evolves_def)

lemma touch_effect:
  assumes "mut_step as (set_nquads [(Uid x, S_last_seen_at, VTime t)]) g h"
  shows "h = g(x := (g x)(S_last_seen_at := [VTime t]))"
proof (intro ext)
  fix u p
  from assms have "applied as (set_nquads [(Uid x, S_last_seen_at, VTime t)]) g h"
    by (simp add: mut_step_def)
  then show "h u p = (g(x := (g x)(S_last_seen_at := [VTime t]))) u p"
    by (auto simp: applied_def is_list_pred_def Let_def dest!: spec [of _ u] spec [of _ p] split: if_splits)
qed

definition touched_at :: "int \<Rightarrow> Session \<Rightarrow> Session" where
  "touched_at now s = s\<lparr>ses_LastSeenAt := trunc_sec now\<rparr>"

lemma touched_node:
  "wf_node n \<Longrightarrow> wf_node (n(S_last_seen_at := [VTime t]))"
  "h u = (g u)(S_last_seen_at := [VTime (fmt_rfc3339 now)]) \<Longrightarrow>
     session_view h u = map_option (touched_at now) (session_view g u)"
  by (auto simp: wf_node_def session_typed_def str_preds_def time_preds_def is_str_def is_time_def)
     (simp add: session_view_def session_typed_def touched_at_def wire_defs jstr_def jint_def jbool_def
      jtime_def jstrs_def parse_time_def trunc_sec_def)

lemma ages_touched [simp]: "ages s (touched_at now s)" "ses_Revoked (touched_at now s) = ses_Revoked s"
  by (simp_all add: ages_def touched_at_def)

lemma touch_view:
  assumes "mut_step as (set_nquads [(Uid x, S_last_seen_at, VTime (fmt_rfc3339 now))]) g h" "wf_graph g"
  shows "session_view h u = map_option (\<lambda>s. if u = x then touched_at now s else s) (session_view g u)"
    and "wf_graph h"
proof -
  have h: "h = g(x := (g x)(S_last_seen_at := [VTime (fmt_rfc3339 now)]))"
    by (rule touch_effect [OF assms(1)])
  then show "wf_graph h" using assms(2) touched_node(1) by (auto simp: wf_graph_def)
  show "session_view h u = map_option (\<lambda>s. if u = x then touched_at now s else s) (session_view g u)"
    using touched_node(2) [of h u g now] same_node_view [of h u g] h
    by (cases "u = x") (auto simp: option.map_ident)
qed

lemma delete_view:
  assumes "mut_step as (delete_uids us) g h" "wf_graph g"
  shows "session_view h u = (if u \<in> set us then None else session_view g u)" and "wf_graph h"
proof -
  have h: "h u = (if u \<in> set us then (\<lambda>_. []) else g u)" for u
    using assms(1) by (auto simp: mut_step_def delete_uids_def cond_ok_def applied_def Let_def fun_eq_iff)
  show "session_view h u = (if u \<in> set us then None else session_view g u)"
    using h [of u] by (auto simp: session_view_def session_typed_def)
  have "wf_node (\<lambda>_. [])" by (simp add: wf_node_def session_typed_def)
  then show "wf_graph h" using assms(2) h by (auto simp: wf_graph_def)
qed

lemma view_fields:
  assumes "session_view g u = Some s" "wf_graph g"
  shows "g u S_access_token_hash = [VStr (ses_AccessTokenHash s)]"
    and "g u S_refresh_token_hash = [VStr (ses_RefreshTokenHash s)]"
    and "g u S_user_id = [VStr (ses_UserID s)]" and "g u S_revoked = [VBool (ses_Revoked s)]"
    and "g u S_last_seen_at = [VTime (fmt_rfc3339 (ses_LastSeenAt s))]"
    and "g u S_refresh_expires_at = [VTime (fmt_rfc3339 (ses_RefreshExpiresAt s))]"
    and "ses_LastSeenAt s = order_time S_last_seen_at (g u) * second"
    and "s = nodeToSession (decode_session \<lparr>jn_uid = u, jn_val = g u\<rparr>)" and "session_typed (g u)"
proof -
  show t: "session_typed (g u)" and s: "s = nodeToSession (decode_session \<lparr>jn_uid = u, jn_val = g u\<rparr>)"
    using assms(1) by (auto simp: session_view_def split: if_splits)
  have w: "wf_node (g u)" using assms(2) by (simp add: wf_graph_def)
  have str: "is_str (g u) p" if "p \<in> set str_preds" for p using w t that by (simp add: wf_node_def)
  have tim: "is_time (g u) p" if "p \<in> set time_preds" for p using w t that by (simp add: wf_node_def)
  show "g u S_access_token_hash = [VStr (ses_AccessTokenHash s)]"
    using str [of S_access_token_hash] by (auto simp: s wire_defs is_str_def str_preds_def)
  show "g u S_refresh_token_hash = [VStr (ses_RefreshTokenHash s)]"
    using str [of S_refresh_token_hash] by (auto simp: s wire_defs is_str_def str_preds_def)
  show "g u S_user_id = [VStr (ses_UserID s)]"
    using str [of S_user_id] by (auto simp: s wire_defs is_str_def str_preds_def)
  show "g u S_revoked = [VBool (ses_Revoked s)]"
    using w t by (auto simp: s wire_defs wf_node_def)
  show "g u S_last_seen_at = [VTime (fmt_rfc3339 (ses_LastSeenAt s))]"
    "ses_LastSeenAt s = order_time S_last_seen_at (g u) * second"
    using tim [of S_last_seen_at]
    by (auto simp: s wire_defs is_time_def time_preds_def parse_time_def order_time_def parse_rfc3339_def
        simp flip: parse_rfc3339_def)
  show "g u S_refresh_expires_at = [VTime (fmt_rfc3339 (ses_RefreshExpiresAt s))]"
    using tim [of S_refresh_expires_at] by (auto simp: s wire_defs is_time_def time_preds_def parse_time_def)
qed

end
