(* ===== verification/Dgraph_Session_Laws.thy ===== *)
theory Dgraph_Session_Laws
  imports Dgraph_Session
begin

text \<open>
  \<^verbatim>\<open>SessionRepo\<close> over a Dgraph client meets the contract of the session store: each law of
  \<open>session_repository\<close> is proved for \<open>dgraph_session_repo dg\<close> from the documented behaviour of the
  client (\<open>dgraph_client\<close>). The executable store \<open>mem_dgraph\<close> inherits it.
\<close>

lemma only_uid:
  "distinct us \<Longrightarrow> (\<And>x. x \<in> set us \<longleftrightarrow> x = u \<and> P) \<Longrightarrow> us = (if P then [u] else [])"
  by (cases us) (auto simp: distinct_length_2_or_more neq_Nil_conv, metis list.set_intros(1) list.set_intros(2) neq_Nil_conv)

lemma proper_queries [simp]:
  "proper (uid_query u fs)" "proper (eq_query p v)" "proper (list_query v)" "proper (active_query v)"
  "proper (expired_query now)"
  by (simp_all add: proper_def uid_query_def eq_query_def list_query_def active_query_def expired_query_def)

lemma query_parts [simp]:
  "q_page (eq_query p v) = None" "q_page (active_query v) = None" "q_page (expired_query now) = None"
  "q_fields (eq_query p v) = sessionFields"
  by (simp_all add: eq_query_def active_query_def expired_query_def)

text \<open>What the block of each bulk operation selects, in terms of the table.\<close>

lemma selected_view:
  assumes wf: "wf_graph g"
  shows "selected (active_query usr) u (g u) \<longleftrightarrow>
    (\<exists>s. session_view g u = Some s \<and> ses_UserID s = usr \<and> \<not> ses_Revoked s)"
proof
  assume "selected (active_query usr) u (g u)"
  then have u: "VStr usr \<in> set (g u S_user_id)" "VBool True \<notin> set (g u S_revoked)"
    by (simp_all add: selected_def active_query_def)
  then have "session_typed (g u)" using wf wf_user_id by (metis wf_graph_def)
  then obtain s where v: "session_view g u = Some s" by (simp add: session_view_def)
  with u show "\<exists>s. session_view g u = Some s \<and> ses_UserID s = usr \<and> \<not> ses_Revoked s"
    using view_fields(3,4) [OF v wf] by auto
next
  assume "\<exists>s. session_view g u = Some s \<and> ses_UserID s = usr \<and> \<not> ses_Revoked s"
  then obtain s where s: "session_view g u = Some s" "ses_UserID s = usr" "\<not> ses_Revoked s" by blast
  then show "selected (active_query usr) u (g u)"
    using view_fields(3,4) [OF s(1) wf] by (simp add: selected_def active_query_def)
qed

lemma expired_view:
  assumes wf: "wf_graph g"
  shows "selected (expired_query now) u (g u) \<longleftrightarrow>
    (\<exists>s. session_view g u = Some s \<and> fmt_rfc3339 (ses_RefreshExpiresAt s) \<le> fmt_rfc3339 now)"
proof (cases "session_view g u")
  case None
  then show ?thesis
    by (simp add: session_view_def session_typed_def selected_def expired_query_def split: if_splits)
next
  case (Some s)
  then show ?thesis
    using view_fields(6,9) [OF Some wf] by (simp add: session_typed_def selected_def expired_query_def)
qed

lemma rotate_project:
  "rotation_input inp (nodeToSession (decode_session \<lparr>jn_uid = u, jn_val = project rotateFields n\<rparr>)) =
     rotation_input inp (nodeToSession (decode_session \<lparr>jn_uid = u, jn_val = n\<rparr>))"
  "sn_Revoked (decode_session \<lparr>jn_uid = u, jn_val = project rotateFields n\<rparr>) =
     ses_Revoked (nodeToSession (decode_session \<lparr>jn_uid = u, jn_val = n\<rparr>))"
  "sn_UID (decode_session \<lparr>jn_uid = u, jn_val = m\<rparr>) = u"
  by (simp_all add: rotation_input_def wire_defs project_wire rotateFields_def)

context dgraph_client
begin

lemma uid_lookup:
  assumes "dg_query dg Strong (uid_query u fs) db = Inr j"
  obtains cs where
    "j = Json (if session_typed (graph db u) then [\<lparr>jn_uid = u, jn_val = project fs (graph db u)\<rparr>] else []) cs"
proof -
  from query_ok [OF assms proper_queries(1)] obtain us where us: "complete (graph db) (uid_query u fs) us"
      "\<exists>cs. j = Json (map (\<lambda>u. \<lparr>jn_uid = u, jn_val = project fs (graph db u)\<rparr>) us) cs"
    by (auto simp: answers_def paginate_def uid_query_def)
  have "us = (if session_typed (graph db u) then [u] else [])"
    using us(1) by (intro only_uid) (auto simp: complete_def selected_def uid_query_def session_typed_def)
  then show ?thesis using us(2) that by (auto split: if_splits)
qed

lemma get_by_id_ok:
  assumes "SessionRepo_GetByID dg u db = Inr r"
  shows "r = session_view (graph db) u"
  using assms
  by (auto simp: SessionRepo_GetByID_def unmarshal_def session_view_def elim!: uid_lookup
      split: if_splits sum.splits qjson.splits list.splits)

lemma get_by_id_err: "SessionRepo_GetByID dg u db = Inl e \<Longrightarrow> foreign e"
  by (auto simp: SessionRepo_GetByID_def unmarshal_def split: if_splits sum.splits qjson.splits list.splits
      dest: query_err)

lemma query_one_err: "SessionRepo_queryOne dg p v db = Inl e \<Longrightarrow> foreign e"
  by (auto simp: SessionRepo_queryOne_def unmarshal_def split: if_splits sum.splits qjson.splits list.splits
      dest: query_err)

lemma query_one_some:
  assumes "SessionRepo_queryOne dg p v db = Inr (Some s)"
  shows "session_view (graph db) (ses_ID s) = Some s" "VStr v \<in> set (graph db (ses_ID s) p)"
proof -
  from assms obtain n ns cs where q: "dg_query dg Strong (eq_query p v) db = Inr (Json (n # ns) cs)"
      "n \<in> set (n # ns)" "s = nodeToSession (decode_session n)"
    by (auto simp: SessionRepo_queryOne_def unmarshal_def split: sum.splits qjson.splits list.splits)
  note qn = query_nodes [OF q(1)]
  have "selected (eq_query p v) (jn_uid n) (graph db (jn_uid n))"
    using qn(2) q(2) by auto
  moreover have n: "n = \<lparr>jn_uid = jn_uid n, jn_val = project sessionFields (graph db (jn_uid n))\<rparr>"
    using qn(3) [OF _ _ q(2)] by (cases n) simp
  have s: "s = nodeToSession (decode_session \<lparr>jn_uid = jn_uid n, jn_val = graph db (jn_uid n)\<rparr>)"
    using q(3) by (subst (asm) n) simp
  moreover have "ses_ID s = jn_uid n" by (simp add: s wire_defs)
  ultimately show "session_view (graph db) (ses_ID s) = Some s" "VStr v \<in> set (graph db (ses_ID s) p)"
    by (auto simp: session_view_def selected_def eq_query_def session_typed_def)
qed

lemma query_one_none:
  assumes "SessionRepo_queryOne dg p v db = Inr None" "session_typed (graph db u)"
  shows "VStr v \<notin> set (graph db u p)"
proof
  assume "VStr v \<in> set (graph db u p)"
  with assms(2) have "selected (eq_query p v) u (graph db u)"
    by (simp add: selected_def eq_query_def session_typed_def)
  moreover obtain cs where "dg_query dg Strong (eq_query p v) db = Inr (Json [] cs)"
    using assms(1) by (auto simp: SessionRepo_queryOne_def unmarshal_def split: sum.splits qjson.splits list.splits)
  ultimately show False
    using query_nodes(2) [of "eq_query p v" db "[]" cs] by auto
qed

lemma list_for_user_ok:
  assumes wf: "wf_graph (graph db)" and l: "SessionRepo_ListForUser dg usr db = Inr ss"
  shows "distinct (map ses_ID ss)" "sorted (map ses_LastSeenAt ss)"
    "set ss = {s. \<exists>u. session_view (graph db) u = Some s \<and> ses_UserID s = usr \<and> \<not> ses_Revoked s}"
proof -
  let ?q = "list_query usr" and ?g = "graph db"
  let ?s = "\<lambda>u. nodeToSession (decode_session \<lparr>jn_uid = u, jn_val = ?g u\<rparr>)"
  from l obtain ns cs where q: "dg_query dg Strong ?q db = Inr (Json ns cs)"
      and ss: "ss = map (\<lambda>n. nodeToSession (decode_session n)) ns"
    by (auto simp: SessionRepo_ListForUser_def unmarshal_def split: sum.splits qjson.splits)
  from query_ok [OF q proper_queries(3)] obtain us where us: "complete ?g ?q us"
      "ns = map (\<lambda>u. \<lparr>jn_uid = u, jn_val = project sessionFields (?g u)\<rparr>) us"
    by (auto simp: answers_def paginate_def list_query_def)
  have ss': "ss = map ?s us" by (simp add: ss us(2) o_def)
  have id: "ses_ID (?s u) = u" for u by (simp add: wire_defs)
  show "distinct (map ses_ID ss)" using us(1) by (simp add: ss' o_def id complete_def)
  have view: "u \<in> set us \<longleftrightarrow> (\<exists>s. session_view ?g u = Some s \<and> ses_UserID s = usr \<and> \<not> ses_Revoked s)" for u
    using us(1) selected_view [OF wf, of usr u]
    by (simp add: complete_def selected_def list_query_def active_query_def)
  have view': "session_view ?g u = Some (?s u)" if "u \<in> set us" for u
    using that view by (auto simp: session_view_def split: if_splits)
  show "set ss = {s. \<exists>u. session_view ?g u = Some s \<and> ses_UserID s = usr \<and> \<not> ses_Revoked s}"
  proof (intro set_eqI iffI)
    fix s assume "s \<in> set ss"
    then show "s \<in> {s. \<exists>u. session_view ?g u = Some s \<and> ses_UserID s = usr \<and> \<not> ses_Revoked s}"
      using view view' by (auto simp: ss') (metis option.inject)+
  next
    fix s assume "s \<in> {s. \<exists>u. session_view ?g u = Some s \<and> ses_UserID s = usr \<and> \<not> ses_Revoked s}"
    then obtain u where u: "session_view ?g u = Some s" "u \<in> set us" using view by auto
    then show "s \<in> set ss" using view' [OF u(2)] by (auto simp: ss')
  qed
  have "map ses_LastSeenAt ss = map (\<lambda>u. order_time S_last_seen_at (?g u) * second) us"
    using view_fields(7) [OF view' wf] by (simp add: ss')
  moreover have "sorted (map (\<lambda>u. order_time S_last_seen_at (?g u)) us)"
    using us(1) by (simp add: complete_def list_query_def)
  ultimately show "sorted (map ses_LastSeenAt ss)"
    by (simp add: sorted_wrt_map sorted_map second_def)
qed

text \<open>Mutations: what a successful, and what a failed call leaves behind.\<close>

lemma mutate_any:
  assumes "dg_mutate dg m db = (r, db')"
  shows "graph db' = graph db \<or> (\<exists>as. mut_step as m (graph db) (graph db'))"
  using assms mutate_ok mutate_err by (cases r) blast+

lemma commit_any:
  assumes "dg_commit dg m snap db = (r, db')"
  shows "graph db' = graph db \<or>
    conflict_free m (graph snap) (graph db) \<and> (\<exists>as. mut_step as m (graph db) (graph db'))"
  using assms commit_ok commit_mutate_err commit_err by (cases r) blast+

lemma create_cases:
  assumes "wf_graph (graph db)" "SessionRepo_Create dg now inp db = (r, db')"
  obtains (same) "graph db' = graph db" "\<not> is_ok r"
  | (new) u s where "session_view (graph db) u = None" "same_session s (new_session u now inp)"
      "session_view (graph db') = (session_view (graph db))(u \<mapsto> s)" "wf_graph (graph db')"
      "r = Inr (Some s) \<or> \<not> is_ok r"
proof -
  obtain m where m: "dg_mutate dg (set_nquads (create_nquads now inp)) db = (m, db')"
    using assms(2) by (auto simp: SessionRepo_Create_def Let_def split: prod.splits sum.splits if_splits)
  from mutate_any [OF m] show ?thesis
  proof
    assume eq: "graph db' = graph db"
    show ?thesis
    proof (cases m)
      case (Inl e)
      with eq m assms(2) show ?thesis by (intro same) (auto simp: SessionRepo_Create_def)
    next
      case (Inr resp)
      with mutate_ok m have st: "mut_step (mr_uids resp) (set_nquads (create_nquads now inp)) (graph db) (graph db')"
        by blast
      obtain u s where "session_view (graph db) u = None" "session_view (graph db') u = Some s"
        by (rule create_view [OF st assms(1)])
      with eq show ?thesis by simp
    qed
  next
    assume "\<exists>as. mut_step as (set_nquads (create_nquads now inp)) (graph db) (graph db')"
    then obtain as where as: "mut_step as (set_nquads (create_nquads now inp)) (graph db) (graph db')"
        "\<And>resp. m = Inr resp \<Longrightarrow> as = mr_uids resp"
      using mutate_ok m by (cases m) auto
    obtain u s where v: "as = [(''session'', u)]" "re_match validDgraphUID u" "session_view (graph db) u = None"
        "session_view (graph db') u = Some s" "same_session s (new_session u now inp)"
        "session_view (graph db') = (session_view (graph db))(u \<mapsto> s)" "wf_graph (graph db')"
      by (rule create_view [OF as(1) assms(1)])
    have "r = Inr (Some s) \<or> \<not> is_ok r"
    proof (cases m)
      case (Inl e)
      with m assms(2) show ?thesis by (auto simp: SessionRepo_Create_def)
    next
      case (Inr resp)
      then have "mr_uids resp = [(''session'', u)]" using as(2) v(1) by simp
      then have "uids_get resp ''session'' = u" by (simp add: uids_get_def)
      then have r: "r = SessionRepo_GetByID dg u db'"
        using m Inr assms(2) validDgraphUID_nonempty [OF v(2)] by (auto simp: SessionRepo_Create_def)
      then show ?thesis using get_by_id_ok [of u db'] v(4) by (cases "SessionRepo_GetByID dg u db'") auto
    qed
    with v show ?thesis by (intro new)
  qed
qed

lemma create_foreign:
  "SessionRepo_Create dg now inp db = (Inl e, db') \<Longrightarrow> foreign e"
  by (auto simp: SessionRepo_Create_def Let_def split: prod.splits sum.splits if_splits
      dest: mutate_err get_by_id_err)

text \<open>Rotation: the commit's conflict check carries the snapshot's "not revoked" over to the state it commits on.\<close>

lemma rotate_commit:
  assumes wf: "wf_graph (graph snap)" "wf_graph (graph db)"
    and old: "session_view (graph snap) o' = Some old" "\<not> ses_Revoked old"
    and n: "n = decode_session \<lparr>jn_uid = o', jn_val = project rotateFields (graph snap o')\<rparr>"
    and cf: "conflict_free (set_nquads (rotate_nquads now rin n)) (graph snap) (graph db)"
    and st: "mut_step as (set_nquads (rotate_nquads now rin n)) (graph db) (graph db')"
  obtains cur u s where "session_view (graph db) o' = Some cur" "\<not> ses_Revoked cur"
    "as = [(''new'', u)]" "re_match validDgraphUID u" "session_view (graph db) u = None"
    "same_session s (new_session u now (rotation_input rin old))"
    "session_view (graph db') = (session_view (graph db))(o' \<mapsto> rotated_away now (sri_NewRefreshJTI rin) cur, u \<mapsto> s)"
    "wf_graph (graph db')"
proof -
  have uid: "sn_UID n = o'" by (simp add: n rotate_project)
  have "(Uid o', S_revoked, VBool True) \<in> set (mu_set (set_nquads (rotate_nquads now rin n)))"
    by (simp add: rotate_nquads_def Let_def uid)
  with cf have "graph db o' S_revoked = graph snap o' S_revoked"
    by (auto simp: conflict_free_def)
  then have rv: "graph db o' S_revoked = [VBool False]"
    using view_fields(4) [OF old(1) wf(1)] old(2) by simp
  then have "session_typed (graph db o')" using wf(2) wf_not_revoked by (metis wf_graph_def)
  then obtain cur where cur: "session_view (graph db) o' = Some cur" by (simp add: session_view_def)
  have nr: "\<not> ses_Revoked cur" using rv view_fields(4) [OF cur wf(2)] by simp
  have rc: "rotate_create rin n = rotation_input rin old"
    using old(1) by (auto simp: rotate_create_def n rotate_project session_view_def split: if_splits)
  have ex: "session_view (graph db) (sn_UID n) \<noteq> None" by (simp add: uid cur)
  obtain u s where "as = [(''new'', u)]" "re_match validDgraphUID u" "session_view (graph db) u = None"
      "same_session s (new_session u now (rotate_create rin n))"
      "session_view (graph db') = (session_view (graph db))
         (sn_UID n := map_option (rotated_away now (sri_NewRefreshJTI rin)) (session_view (graph db) (sn_UID n)), u \<mapsto> s)"
      "wf_graph (graph db')"
    by (rule rotate_view [OF st wf(2) ex])
  with that cur nr show ?thesis by (simp add: uid rc)
qed

lemma rotate_cases:
  assumes wf: "wf_graph (graph snap)" "wf_graph (graph db)"
    and r: "SessionRepo_RotateTokens dg now rin snap db = (r, db')"
  obtains (replay) old where "r = Inl (Sentinel ErrRefreshTokenReplayed)" "db' = db"
      "session_view (graph snap) (sri_OldSessionID rin) = Some old" "ses_Revoked old"
  | (failed) e where "r = Inl e" "foreign e" "graph db' = graph db"
  | (new) old cur u s where "session_view (graph snap) (sri_OldSessionID rin) = Some old" "\<not> ses_Revoked old"
      "session_view (graph db) (sri_OldSessionID rin) = Some cur" "\<not> ses_Revoked cur"
      "session_view (graph db) u = None" "same_session s (new_session u now (rotation_input rin old))"
      "session_view (graph db') = (session_view (graph db))
         (sri_OldSessionID rin \<mapsto> rotated_away now (sri_NewRefreshJTI rin) cur, u \<mapsto> s)"
      "wf_graph (graph db')" "r = Inr (Some s) \<or> (\<exists>e. r = Inl e \<and> foreign e)"
proof -
  let ?o = "sri_OldSessionID rin" and ?n = "decode_session \<lparr>jn_uid = sri_OldSessionID rin,
      jn_val = project rotateFields (graph snap (sri_OldSessionID rin))\<rparr>"
  let ?m = "set_nquads (rotate_nquads now rin ?n)"
  show ?thesis
  proof (cases "\<exists>j. dg_query dg Strong (uid_query ?o rotateFields) snap = Inr j \<and>
      re_match validDgraphUID ?o \<and> session_typed (graph snap ?o)")
    case False
    then have "\<exists>e. r = Inl e \<and> foreign e \<and> db' = db" using r
      by (cases "dg_query dg Strong (uid_query ?o rotateFields) snap")
        (auto simp: SessionRepo_RotateTokens_def unmarshal_def elim!: uid_lookup dest: query_err split: if_splits)
    then show ?thesis using failed by blast
  next
    case True
    then obtain j where j: "dg_query dg Strong (uid_query ?o rotateFields) snap = Inr j"
      and v: "re_match validDgraphUID ?o" and t: "session_typed (graph snap ?o)" by blast
    then obtain cs where q: "dg_query dg Strong (uid_query ?o rotateFields) snap =
        Inr (Json [\<lparr>jn_uid = ?o, jn_val = project rotateFields (graph snap ?o)\<rparr>] cs)"
      using uid_lookup [OF j] by (metis (full_types))
    define old where "old = nodeToSession (decode_session \<lparr>jn_uid = ?o, jn_val = graph snap ?o\<rparr>)"
    have old: "session_view (graph snap) ?o = Some old" using t by (simp add: session_view_def old_def)
    show ?thesis
    proof (cases "ses_Revoked old")
      case True
      with r q v show ?thesis
        by (intro replay [OF _ _ old]) (auto simp: SessionRepo_RotateTokens_def unmarshal_def rotate_project old_def)
    next
      case False
      obtain tr where tr: "dg_commit dg ?m snap db = (tr, db')"
        using r q v False
        by (auto simp: SessionRepo_RotateTokens_def unmarshal_def rotate_project old_def Let_def
            split: prod.splits txn_result.splits if_splits)
      have body: "r = (case tr of MutateErr e \<Rightarrow> Inl (Wrap ''dgraph: rotate tokens mutate'' e)
          | CommitErr e \<Rightarrow> Inl (Wrap ''dgraph: rotate tokens commit'' e)
          | Committed mresp \<Rightarrow> (if uids_get mresp ''new'' = ''''
              then Inl (Foreign ''dgraph: rotate tokens: no uid returned for new session'')
              else SessionRepo_GetByID dg (uids_get mresp ''new'') db'))"
        using r q v False tr
        by (auto simp: SessionRepo_RotateTokens_def unmarshal_def rotate_project old_def Let_def
            split: prod.splits txn_result.splits if_splits)
      show ?thesis
      proof (cases "\<exists>as. conflict_free ?m (graph snap) (graph db) \<and> mut_step as ?m (graph db) (graph db') \<and>
          (\<forall>mresp. tr = Committed mresp \<longrightarrow> as = mr_uids mresp)")
        case True
        then obtain as where as: "conflict_free ?m (graph snap) (graph db)" "mut_step as ?m (graph db) (graph db')"
            "\<And>mresp. tr = Committed mresp \<Longrightarrow> as = mr_uids mresp" by blast
        obtain cur u s where c: "session_view (graph db) ?o = Some cur" "\<not> ses_Revoked cur"
            "as = [(''new'', u)]" "re_match validDgraphUID u" "session_view (graph db) u = None"
            "same_session s (new_session u now (rotation_input rin old))"
            "session_view (graph db') = (session_view (graph db))(?o \<mapsto> rotated_away now (sri_NewRefreshJTI rin) cur, u \<mapsto> s)"
            "wf_graph (graph db')"
          by (rule rotate_commit [OF wf old False refl as(1,2)])
        have "r = Inr (Some s) \<or> (\<exists>e. r = Inl e \<and> foreign e)"
        proof (cases tr)
          case (Committed mresp)
          then have "mr_uids mresp = [(''new'', u)]" using as(3) c(3) by simp
          then have "uids_get mresp ''new'' = u" by (simp add: uids_get_def)
          then have "r = SessionRepo_GetByID dg u db'"
            using body Committed validDgraphUID_nonempty [OF c(4)] by simp
          then show ?thesis using get_by_id_ok [of u db'] get_by_id_err [of u db'] c(7)
            by (cases "SessionRepo_GetByID dg u db'") auto
        qed (use body tr commit_mutate_err commit_err in auto)
        with c show ?thesis by (intro new [OF old False]) auto
      next
        case none: False
        then show ?thesis
        proof (cases tr)
          case (MutateErr e)
          then show ?thesis using body tr commit_mutate_err [of ?m snap db e db'] by (intro failed [OF _ _]) auto
        next
          case (CommitErr e)
          have "foreign e \<and> graph db' = graph db"
            using none commit_err [of ?m snap db e db'] tr CommitErr by blast
          then show ?thesis using body CommitErr by (intro failed [OF _ _]) auto
        next
          case (Committed mresp)
          then show ?thesis using none commit_ok [of ?m snap db mresp db'] tr by blast
        qed
      qed
    qed
  qed
qed

text \<open>A mutation whose effect on the table is known either happened or did not.\<close>

lemma mutate_either:
  assumes "dg_mutate dg m db = (r, db')" "wf_graph (graph db)"
    and eff: "\<forall>as h. mut_step as m (graph db) h \<longrightarrow> session_view h = T \<and> wf_graph h"
  shows "wf_graph (graph db')" "session_view (graph db') = session_view (graph db) \<or> session_view (graph db') = T"
    "is_ok r \<Longrightarrow> session_view (graph db') = T"
proof -
  show "wf_graph (graph db')" "session_view (graph db') = session_view (graph db) \<or> session_view (graph db') = T"
    using mutate_any [OF assms(1)] eff assms(2) by auto
  show "is_ok r \<Longrightarrow> session_view (graph db') = T"
    using assms(1) mutate_ok [of m db _ db'] eff by (cases r) auto
qed

lemma revoke_cases:
  assumes "wf_graph (graph db)" "SessionRepo_Revoke dg now x db = (r, db')"
  shows "wf_graph (graph db')" "evolves (session_view (graph db)) (session_view (graph db'))"
    "is_ok r \<Longrightarrow> session_view (graph db') = (session_view (graph db))(x := map_option (revoked_at now) (session_view (graph db) x))"
    "r = Inl e \<Longrightarrow> foreign e"
    "session_view (graph db') = session_view (graph db) \<or>
     session_view (graph db') = (session_view (graph db))(x := map_option (revoked_at now) (session_view (graph db) x))"
proof -
  let ?S = "session_view (graph db)"
  let ?T = "?S(x := map_option (revoked_at now) (?S x))"
  obtain m where m: "dg_mutate dg (set_nquads (revoke_nquads now x)) db = (m, db')" "is_ok r = is_ok m"
    using assms(2) by (auto simp: SessionRepo_Revoke_def split: prod.splits sum.splits)
  have eff: "\<forall>as h. mut_step as (set_nquads (revoke_nquads now x)) (graph db) h \<longrightarrow>
      session_view h = ?T \<and> wf_graph h"
    using revoke_many_view [of "[x]" _ now "graph db"] assms(1)
    by (auto simp: fun_eq_iff option.map_ident)
  have "evolves ?S ?T" by (auto simp: evolves_def)
  then show "wf_graph (graph db')" "evolves ?S (session_view (graph db'))" "is_ok r \<Longrightarrow> session_view (graph db') = ?T"
    "session_view (graph db') = ?S \<or> session_view (graph db') = ?T"
    using mutate_either [OF m(1) assms(1) eff] m(2) by auto
  show "r = Inl e \<Longrightarrow> foreign e"
    using assms(2) by (auto simp: SessionRepo_Revoke_def split: prod.splits sum.splits dest: mutate_err)
qed

lemma touch_cases:
  assumes "wf_graph (graph db)" "SessionRepo_Touch dg now x db = (r, db')"
  shows "wf_graph (graph db')"
    "session_view (graph db') = session_view (graph db) \<or>
     session_view (graph db') = (session_view (graph db))(x := map_option (touched_at now) (session_view (graph db) x))"
proof -
  let ?S = "session_view (graph db)"
  obtain m where m: "dg_mutate dg (set_nquads [(Uid x, S_last_seen_at, VTime (fmt_rfc3339 now))]) db = (m, db')"
    using assms(2) by (auto simp: SessionRepo_Touch_def split: prod.splits sum.splits)
  have eff: "\<forall>as h. mut_step as (set_nquads [(Uid x, S_last_seen_at, VTime (fmt_rfc3339 now))]) (graph db) h \<longrightarrow>
      session_view h = ?S(x := map_option (touched_at now) (?S x)) \<and> wf_graph h"
    using touch_view [OF _ assms(1), of _ x now] by (auto simp: fun_eq_iff option.map_ident)
  show "wf_graph (graph db')" "session_view (graph db') = ?S \<or>
     session_view (graph db') = ?S(x := map_option (touched_at now) (?S x))"
    using mutate_either [OF m assms(1) eff] by auto
qed

lemma revoke_all_cases:
  assumes wf: "wf_graph (graph db)" and r: "SessionRepo_RevokeAllForUser dg now usr db = (r, db')"
  defines "T \<equiv> \<lambda>u. map_option (\<lambda>s. if ses_UserID s = usr \<and> \<not> ses_Revoked s then revoked_at now s else s)
    (session_view (graph db) u)"
  shows "wf_graph (graph db')" "evolves (session_view (graph db)) (session_view (graph db'))"
    "is_ok r \<Longrightarrow> session_view (graph db') = T" "r = Inl e \<Longrightarrow> foreign e"
    "session_view (graph db') = session_view (graph db) \<or> session_view (graph db') = T"
proof -
  let ?S = "session_view (graph db)" and ?q = "active_query usr"
  show "r = Inl e \<Longrightarrow> foreign e"
    using r by (auto simp: SessionRepo_RevokeAllForUser_def unmarshal_def
        split: prod.splits sum.splits qjson.splits if_splits dest: mutate_err query_err)
  have ev: "evolves ?S T" by (auto simp: T_def evolves_def)
  have "wf_graph (graph db') \<and> evolves ?S (session_view (graph db')) \<and> (is_ok r \<longrightarrow> session_view (graph db') = T) \<and>
      (session_view (graph db') = ?S \<or> session_view (graph db') = T)"
  proof (cases "\<exists>ns cs. dg_query dg Strong ?q db = Inr (Json ns cs)")
    case False
    then show ?thesis using r wf
      by (auto simp: SessionRepo_RevokeAllForUser_def unmarshal_def split: sum.splits qjson.splits)
  next
    case True
    then obtain ns cs where q: "dg_query dg Strong ?q db = Inr (Json ns cs)" by blast
    let ?us = "map jn_uid ns" 
    note qn = query_nodes [OF q proper_queries(4) query_parts(2)]
    have sel: "u \<in> set ?us \<longleftrightarrow> (\<exists>s. ?S u = Some s \<and> ses_UserID s = usr \<and> \<not> ses_Revoked s)" for u
      unfolding qn(2) by (simp add: selected_view [OF wf])
    then have T: "T u = map_option (\<lambda>s. if u \<in> set ?us then revoked_at now s else s) (?S u)" for u
      by (cases "?S u") (auto simp: T_def simp del: set_map)
    show ?thesis
    proof (cases "ns = []")
      case True
      then have "T = ?S" using T by (simp add: fun_eq_iff option.map_ident)
      with True r q wf show ?thesis by (simp add: SessionRepo_RevokeAllForUser_def unmarshal_def)
    next
      case False
      let ?m = "set_nquads (concat (map (revoke_nquads now) ?us))"
      obtain m where m: "dg_mutate dg ?m db = (m, db')" "is_ok r = is_ok m"
        using r q False by (auto simp: SessionRepo_RevokeAllForUser_def unmarshal_def o_def split: prod.splits sum.splits)
      have eff: "\<forall>as h. mut_step as ?m (graph db) h \<longrightarrow> session_view h = T \<and> wf_graph h"
        using revoke_many_view [OF qn(1) _ wf, of _ now] T by (simp add: fun_eq_iff)
      show ?thesis using mutate_either [OF m(1) wf eff] m(2) ev by auto
    qed
  qed
  then show "wf_graph (graph db')" "evolves ?S (session_view (graph db'))" "is_ok r \<Longrightarrow> session_view (graph db') = T"
    "session_view (graph db') = ?S \<or> session_view (graph db') = T"
    by auto
qed

lemma delete_cases:
  assumes wf: "wf_graph (graph db)" and r: "SessionRepo_DeleteExpired dg now db = (r, db')"
  defines "dead \<equiv> \<lambda>u. \<exists>s. session_view (graph db) u = Some s \<and> fmt_rfc3339 (ses_RefreshExpiresAt s) \<le> fmt_rfc3339 now"
  defines "T \<equiv> \<lambda>u. if dead u then None else session_view (graph db) u"
  shows "wf_graph (graph db')"
    "session_view (graph db') u = session_view (graph db) u \<or> session_view (graph db') u = None"
    "r = Inr k \<Longrightarrow> session_view (graph db') = T \<and> k = int (card {u. dead u})"
proof -
  let ?S = "session_view (graph db)" and ?q = "expired_query now"
  have ev: "T u = ?S u \<or> T u = None" by (simp add: T_def)
  have "wf_graph (graph db') \<and> (session_view (graph db') u = ?S u \<or> session_view (graph db') u = None) \<and>
      (r = Inr k \<longrightarrow> session_view (graph db') = T \<and> k = int (card {u. dead u}))"
  proof (cases "\<exists>ns cs. dg_query dg Strong ?q db = Inr (Json ns cs)")
    case False
    then show ?thesis using r wf
      by (auto simp: SessionRepo_DeleteExpired_def unmarshal_def split: sum.splits qjson.splits)
  next
    case True
    then obtain ns cs where q: "dg_query dg Strong ?q db = Inr (Json ns cs)" by blast
    let ?us = "map jn_uid ns"
    note qn = query_nodes [OF q proper_queries(5) query_parts(3)]
    have us: "set ?us = {u. dead u}"
      unfolding qn(2) dead_def expired_view [OF wf] by simp
    then have card: "card {u. dead u} = length ns" using qn(1) distinct_card by (metis length_map)
    have T: "T u = (if u \<in> set ?us then None else ?S u)" for u
      using us by (simp add: T_def set_eq_iff)
    show ?thesis
    proof (cases "ns = []")
      case True
      then have "T = ?S" using T by (simp add: fun_eq_iff)
      with True r q wf card show ?thesis by (auto simp: SessionRepo_DeleteExpired_def unmarshal_def)
    next
      case False
      obtain m where m: "dg_mutate dg (delete_uids ?us) db = (m, db')" "r = Inr k \<longrightarrow> is_ok m \<and> k = int (length ns)"
        using r q False by (auto simp: SessionRepo_DeleteExpired_def unmarshal_def split: prod.splits sum.splits)
      have eff: "\<forall>as h. mut_step as (delete_uids ?us) (graph db) h \<longrightarrow> session_view h = T \<and> wf_graph h"
        using delete_view [OF _ wf, of _ ?us] T by (simp add: fun_eq_iff)
      show ?thesis using mutate_either [OF m(1) wf eff] m(2) ev card by auto
    qed
  qed
  then show "wf_graph (graph db')" "session_view (graph db') u = ?S u \<or> session_view (graph db') u = None"
    "r = Inr k \<Longrightarrow> session_view (graph db') = T \<and> k = int (card {u. dead u})" by auto
qed

end

lemma same_session_ID: "same_session s (new_session u now inp) \<Longrightarrow> ses_ID s = u"
  unfolding same_session_def by (drule conjunct1, drule arg_cong [where f = ses_ID]) (simp add: new_session_def)

context dgraph_client
begin

lemma create_law:
  assumes "wf_graph (graph db)" "SessionRepo_Create dg now inp db = (r, db')"
  shows "r = Inr x \<Longrightarrow> \<exists>s. x = Some s \<and> session_view (graph db) (ses_ID s) = None \<and>
      same_session s (new_session (ses_ID s) now inp) \<and>
      session_view (graph db') = (session_view (graph db))(ses_ID s \<mapsto> s)"
    and "wf_graph (graph db') \<and> evolves (session_view (graph db)) (session_view (graph db'))"
  using assms
  by (cases rule: create_cases [OF assms(1,2)]; auto intro: evolves_new dest: same_session_ID)+

lemma access_law:
  "SessionRepo_queryOne dg p h db = Inr (Some s) \<Longrightarrow> wf_graph (graph db) \<Longrightarrow>
     p = S_access_token_hash \<and> f = ses_AccessTokenHash \<or> p = S_refresh_token_hash \<and> f = ses_RefreshTokenHash \<Longrightarrow>
     session_view (graph db) (ses_ID s) = Some s \<and> f s = h"
  "SessionRepo_queryOne dg p h db = Inr None \<Longrightarrow> wf_graph (graph db) \<Longrightarrow>
     p = S_access_token_hash \<and> f = ses_AccessTokenHash \<or> p = S_refresh_token_hash \<and> f = ses_RefreshTokenHash \<Longrightarrow>
     session_view (graph db) u = Some s \<Longrightarrow> f s \<noteq> h"
proof -
  assume q: "SessionRepo_queryOne dg p h db = Inr (Some s)" and wf: "wf_graph (graph db)"
    and p: "p = S_access_token_hash \<and> f = ses_AccessTokenHash \<or> p = S_refresh_token_hash \<and> f = ses_RefreshTokenHash"
  note v = query_one_some [OF q]
  show "session_view (graph db) (ses_ID s) = Some s \<and> f s = h"
    using p v view_fields(1,2) [OF v(1) wf] by auto
next
  assume q: "SessionRepo_queryOne dg p h db = Inr None" and wf: "wf_graph (graph db)"
    and p: "p = S_access_token_hash \<and> f = ses_AccessTokenHash \<or> p = S_refresh_token_hash \<and> f = ses_RefreshTokenHash"
    and s: "session_view (graph db) u = Some s"
  show "f s \<noteq> h"
    using p query_one_none [OF q view_fields(9) [OF s wf]] view_fields(1,2) [OF s wf] by auto
qed

lemma rotate_law:
  assumes "wf_graph (graph snap)" "wf_graph (graph db)" "SessionRepo_RotateTokens dg now rin snap db = (r, db')"
  shows "r = Inr x \<Longrightarrow>
      \<exists>old cur s. session_view (graph snap) (sri_OldSessionID rin) = Some old \<and> \<not> ses_Revoked old \<and>
        session_view (graph db) (sri_OldSessionID rin) = Some cur \<and> \<not> ses_Revoked cur \<and>
        x = Some s \<and> session_view (graph db) (ses_ID s) = None \<and>
        same_session s (new_session (ses_ID s) now (rotation_input rin old)) \<and>
        session_view (graph db') = (session_view (graph db))
          (sri_OldSessionID rin \<mapsto> rotated_away now (sri_NewRefreshJTI rin) cur, ses_ID s \<mapsto> s)"
    and "r = Inl e \<Longrightarrow> foreign e \<or> e = Sentinel ErrRefreshTokenReplayed \<and> db' = db \<and>
        (\<exists>old. session_view (graph snap) (sri_OldSessionID rin) = Some old \<and> ses_Revoked old)"
    and "wf_graph (graph db') \<and> evolves (session_view (graph db)) (session_view (graph db'))"
proof -
  show "r = Inr x \<Longrightarrow>
      \<exists>old cur s. session_view (graph snap) (sri_OldSessionID rin) = Some old \<and> \<not> ses_Revoked old \<and>
        session_view (graph db) (sri_OldSessionID rin) = Some cur \<and> \<not> ses_Revoked cur \<and>
        x = Some s \<and> session_view (graph db) (ses_ID s) = None \<and>
        same_session s (new_session (ses_ID s) now (rotation_input rin old)) \<and>
        session_view (graph db') = (session_view (graph db))
          (sri_OldSessionID rin \<mapsto> rotated_away now (sri_NewRefreshJTI rin) cur, ses_ID s \<mapsto> s)"
    by (cases rule: rotate_cases [OF assms]) (auto dest: same_session_ID)
  show "r = Inl e \<Longrightarrow> foreign e \<or> e = Sentinel ErrRefreshTokenReplayed \<and> db' = db \<and>
        (\<exists>old. session_view (graph snap) (sri_OldSessionID rin) = Some old \<and> ses_Revoked old)"
    by (cases rule: rotate_cases [OF assms]) auto
  show "wf_graph (graph db') \<and> evolves (session_view (graph db)) (session_view (graph db'))"
    by (cases rule: rotate_cases [OF assms]) (use assms(2) in \<open>auto simp: evolves_def\<close>)
qed

lemma touch_law:
  assumes "wf_graph (graph db)" "SessionRepo_Touch dg now x db = (r, db')"
  shows "wf_graph (graph db') \<and> evolves (session_view (graph db)) (session_view (graph db')) \<and>
    (\<forall>v s t. session_view (graph db) v = Some s \<longrightarrow> session_view (graph db') v = Some t \<longrightarrow>
       ses_Revoked t = ses_Revoked s)"
  using touch_cases [OF assms] by (auto simp: evolves_def split: if_splits)

end

sublocale dgraph_client \<subseteq> sr: session_repository "dgraph_session_repo dg"
  "\<lambda>db. session_view (graph db)" "\<lambda>db. wf_graph (graph db)"
proof (unfold_locales, unfold dgraph_session_repo_def session_repo.simps
    SessionRepo_GetByAccessHash_def SessionRepo_GetByRefreshHash_def, goal_cases)
  case 1 then show ?case using view_ID by blast
next case 2 then show ?case using create_law(1) by blast
next case 3 then show ?case using create_foreign by blast
next case 4 then show ?case by (rule create_law(2))
next case 5 then show ?case using access_law(1) by blast
next case 6 then show ?case using access_law(2) by blast
next case 7 then show ?case by (rule query_one_err)
next case 8 then show ?case using access_law(1) by blast
next case 9 then show ?case using access_law(2) by blast
next case 10 then show ?case by (rule query_one_err)
next case 11 then show ?case using get_by_id_ok by blast
next case 12 then show ?case by (rule get_by_id_err)
next case 13 then show ?case using list_for_user_ok by blast
next case (14 snap db now rin r db') then show ?case using rotate_law(1) [OF 14 refl] by blast
next case (15 snap db now rin e db') then show ?case using rotate_law(2) [OF 15 refl] by blast
next case 16 then show ?case by (rule rotate_law(3))
next case (17 db now u x db') then show ?case using revoke_cases(3) [OF 17] by simp
next case (18 db now u e db') then show ?case using revoke_cases(4) [OF 18] by simp
next case (19 db now u y db') then show ?case using revoke_cases(1,2) [OF 19] by simp
next case (20 db now usr x db') then show ?case using revoke_all_cases(3) [OF 20] by simp
next case (21 db now usr e db') then show ?case using revoke_all_cases(4) [OF 21] by simp
next case (22 db now usr y db') then show ?case using revoke_all_cases(1,2) [OF 22] by simp
next case 23 then show ?case by (rule touch_law)
next
  case (24 db now k db')
  then show ?case using delete_cases(3) [OF 24 refl] by (auto simp: fun_eq_iff split: option.splits)
next case (25 db now y db') then show ?case using delete_cases(1,2) [OF 25] by simp
qed

context dgraph_client
begin

lemma dgraph_sessions:
  "session_repository (dgraph_session_repo dg) (\<lambda>db. session_view (graph db)) (\<lambda>db. wf_graph (graph db))"
  by (rule sr.session_repository_axioms)

end

interpretation mem_sessions: session_repository "dgraph_session_repo mem_dgraph"
  "\<lambda>db. session_view (mem_graph db)" "\<lambda>db. wf_graph (mem_graph db)"
  by (rule mem.sr.session_repository_axioms)

end
