(* ===== verification/Session_Service.thy ===== *)
theory Session_Service
  imports Dgraph_Session_Laws
begin

text \<open>
  \<^verbatim>\<open>internal/service/session.go\<close>: creation, verification, rotation and revocation of sessions over a
  session store \<open>repo\<close>.

  \<^item> \<open>sha256\<close> is the digest behind \<^verbatim>\<open>token.Hash\<close>; \<open>ent\<close> holds the three reads of \<^verbatim>\<open>crypto/rand\<close>.
  \<^item> \<open>clk i\<close> is the \<open>i\<close>-th reading of \<^verbatim>\<open>time.Now()\<close> the operation makes, those of the repository
    calls included.
  \<^item> \<open>lookupAndCheck\<close> starts a goroutine that touches the session: it returns the IDs such goroutines
    were started for, and \<open>run_touch\<close> is the goroutine.
  \<^item> \<open>Refresh\<close> may be interleaved with other requests: it takes the state its lookup reads, the
    snapshot of the rotation's transaction and the state the writes meet.
\<close>

section \<open>Operations\<close>

record SessionConfig =
  sc_AccessTTL :: int
  sc_RefreshTTL :: int

definition accessTTL :: "SessionConfig \<Rightarrow> int" where
  "accessTTL c = (if sc_AccessTTL c = 0 then DefaultAccessTTL else sc_AccessTTL c)"

definition refreshTTL :: "SessionConfig \<Rightarrow> int" where
  "refreshTTL c = (if sc_RefreshTTL c = 0 then DefaultRefreshTTL else sc_RefreshTTL c)"

record CreateSessionInput =
  csn_Kind :: PrincipalKind
  csn_UserID :: string
  csn_ClientID :: string
  csn_ActorID :: string
  csn_ActorType :: ActorType
  csn_Permissions :: "string list"
  csn_DelegatedPermissions :: "string list"
  csn_PolicyGroups :: "string list"
  csn_PermissionVersion :: nat
  csn_UserAgent :: string
  csn_IPAddress :: string

record CreateSessionOutput =
  cso_Session :: "Session option"
  cso_AccessToken :: string
  cso_RefreshToken :: string

record RefreshInput =
  rin_RawRefreshToken :: string
  rin_UserAgent :: string
  rin_IPAddress :: string

record RefreshOutput =
  rout_Session :: "Session option"
  rout_AccessToken :: string
  rout_RefreshToken :: string

record entropy =
  ent_access :: "string res"
  ent_refresh :: "string res"
  ent_jti :: "string res"

text \<open>The token pair and JTI that \<open>Create\<close> and \<open>Refresh\<close> mint, with their early returns.\<close>

definition mint :: "(string \<Rightarrow> string) \<Rightarrow> entropy \<Rightarrow> (OpaqueToken \<times> OpaqueToken \<times> string) res" where
  "mint sha256 ent =
     (case GenerateAccessToken sha256 (ent_access ent) of
        Inl e \<Rightarrow> Inl (Wrap ''generating access token'' e)
      | Inr atk \<Rightarrow> (case GenerateRefreshToken sha256 (ent_refresh ent) of
          Inl e \<Rightarrow> Inl (Wrap ''generating refresh token'' e)
        | Inr rtk \<Rightarrow> (case GenerateJTI (ent_jti ent) of
            Inl e \<Rightarrow> Inl (Wrap ''generating refresh JTI'' e)
          | Inr jti \<Rightarrow> Inr (atk, rtk, jti))))"

definition create_input ::
  "SessionConfig \<Rightarrow> int \<Rightarrow> OpaqueToken \<Rightarrow> OpaqueToken \<Rightarrow> string \<Rightarrow> CreateSessionInput \<Rightarrow> SessionCreateInput" where
  "create_input cfg now atk rtk jti i =
     \<lparr>sci_Kind = csn_Kind i, sci_UserID = csn_UserID i, sci_ClientID = csn_ClientID i,
      sci_ActorID = csn_ActorID i, sci_ActorType = csn_ActorType i,
      sci_AccessTokenHash = ot_Hash atk, sci_RefreshTokenHash = ot_Hash rtk, sci_RefreshJTI = jti,
      sci_Permissions = csn_Permissions i, sci_DelegatedPermissions = csn_DelegatedPermissions i,
      sci_PolicyGroups = csn_PolicyGroups i, sci_PermissionVersion = csn_PermissionVersion i,
      sci_ExpiresAt = now + accessTTL cfg, sci_RefreshExpiresAt = now + refreshTTL cfg,
      sci_UserAgent = csn_UserAgent i, sci_IPAddress = csn_IPAddress i\<rparr>"

definition Session_Create ::
  "(string \<Rightarrow> string) \<Rightarrow> SessionConfig \<Rightarrow> 'db session_repo \<Rightarrow> (nat \<Rightarrow> int) \<Rightarrow> entropy \<Rightarrow> CreateSessionInput \<Rightarrow>
     'db \<Rightarrow> CreateSessionOutput res \<times> 'db" where
  "Session_Create sha256 cfg repo clk ent i db =
     (case mint sha256 ent of
        Inl e \<Rightarrow> (Inl e, db)
      | Inr (atk, rtk, jti) \<Rightarrow>
          (case sr_Create repo (clk 1) (create_input cfg (clk 0) atk rtk jti i) db of
             (Inl e, db') \<Rightarrow> (Inl (Wrap ''persisting session'' e), db')
           | (Inr sess, db') \<Rightarrow>
               (Inr \<lparr>cso_Session = sess, cso_AccessToken = ot_Raw atk, cso_RefreshToken = ot_Raw rtk\<rparr>, db')))"

definition sessionToPrincipal :: "Session \<Rightarrow> Principal" where
  "sessionToPrincipal s =
     \<lparr>prin_Kind = ses_Kind s, prin_ActorType = ses_ActorType s, prin_UserID = ses_UserID s,
      prin_ActorID = ses_ActorID s, prin_Nickname = '''', prin_Email = '''',
      prin_Permissions = ses_Permissions s, prin_DelegatedPermissions = ses_DelegatedPermissions s,
      prin_PolicyGroups = ses_PolicyGroups s, prin_ClientID = ses_ClientID s, prin_Name = ''''\<rparr>"

definition lookupAndCheck ::
  "(string \<Rightarrow> string) \<Rightarrow> 'db session_repo \<Rightarrow> int \<Rightarrow> string \<Rightarrow> 'db \<Rightarrow> Session res \<times> string list" where
  "lookupAndCheck sha256 repo now rawAccessToken db =
     (case sr_GetByAccessHash repo (Hash sha256 rawAccessToken) db of
        Inl e \<Rightarrow> (Inl (Wrap ''looking up session'' e), [])
      | Inr None \<Rightarrow> (Inl (Sentinel ErrSessionNotFound), [])
      | Inr (Some sess) \<Rightarrow>
          (if \<not> Session_IsValid now sess
           then (if ses_Revoked sess then (Inl (Sentinel ErrSessionRevoked), [])
                 else (Inl (Sentinel ErrSessionExpired), []))
           else (Inr sess, [ses_ID sess])))"

definition run_touch :: "'db session_repo \<Rightarrow> int \<Rightarrow> string \<Rightarrow> 'db \<Rightarrow> 'db" where
  "run_touch repo now sid db = snd (sr_Touch repo now sid db)"

definition VerifyToken ::
  "(string \<Rightarrow> string) \<Rightarrow> 'db session_repo \<Rightarrow> int \<Rightarrow> string \<Rightarrow> 'db \<Rightarrow> Principal res \<times> string list" where
  "VerifyToken sha256 repo now rawAccessToken db =
     (case lookupAndCheck sha256 repo now rawAccessToken db of
        (Inl err, ts) \<Rightarrow>
          (if errors_is err ErrSessionExpired then (Inl (Sentinel ErrTokenExpired), ts)
           else if errors_is err ErrSessionRevoked \<or> errors_is err ErrSessionNotFound
           then (Inl (Sentinel ErrTokenInvalid), ts)
           else (Inl err, ts))
      | (Inr sess, ts) \<Rightarrow> (Inr (sessionToPrincipal sess), ts))"

definition ValidateSession ::
  "(string \<Rightarrow> string) \<Rightarrow> 'db session_repo \<Rightarrow> int \<Rightarrow> string \<Rightarrow> 'db \<Rightarrow> Session res \<times> string list" where
  "ValidateSession sha256 repo now rawAccessToken db = lookupAndCheck sha256 repo now rawAccessToken db"

definition refresh_input ::
  "SessionConfig \<Rightarrow> int \<Rightarrow> OpaqueToken \<Rightarrow> OpaqueToken \<Rightarrow> string \<Rightarrow> RefreshInput \<Rightarrow> Session \<Rightarrow> SessionRefreshInput" where
  "refresh_input cfg now atk rtk jti i sess =
     \<lparr>sri_OldSessionID = ses_ID sess, sri_NewAccessTokenHash = ot_Hash atk,
      sri_NewRefreshTokenHash = ot_Hash rtk, sri_NewRefreshJTI = jti,
      sri_Permissions = [], sri_DelegatedPermissions = [], sri_PolicyGroups = [],
      sri_PermissionVersion = 0, sri_NewExpiresAt = now + accessTTL cfg,
      sri_NewRefreshExpiresAt = ses_RefreshExpiresAt sess,
      sri_UserAgent = rin_UserAgent i, sri_IPAddress = rin_IPAddress i\<rparr>"

definition Refresh ::
  "(string \<Rightarrow> string) \<Rightarrow> SessionConfig \<Rightarrow> 'db session_repo \<Rightarrow> (nat \<Rightarrow> int) \<Rightarrow> entropy \<Rightarrow> RefreshInput \<Rightarrow>
     'db \<Rightarrow> 'db \<Rightarrow> 'db \<Rightarrow> RefreshOutput res \<times> 'db" where
  "Refresh sha256 cfg repo clk ent i seen snap db =
     (case sr_GetByRefreshHash repo (Hash sha256 (rin_RawRefreshToken i)) seen of
        Inl e \<Rightarrow> (Inl (Wrap ''looking up refresh session'' e), db)
      | Inr None \<Rightarrow> (Inl (Sentinel ErrSessionNotFound), db)
      | Inr (Some sess) \<Rightarrow>
          (if ses_Revoked sess
           then (Inl (Sentinel ErrRefreshReplayed), snd (sr_RevokeAllForUser repo (clk 0) (ses_UserID sess) db))
           else if IsRefreshExpired (clk 0) sess then (Inl (Sentinel ErrRefreshExpired), db)
           else case mint sha256 ent of
             Inl e \<Rightarrow> (Inl e, db)
           | Inr (atk, rtk, jti) \<Rightarrow>
               (case sr_RotateTokens repo (clk 2) (refresh_input cfg (clk 1) atk rtk jti i sess) snap db of
                  (Inl e, db') \<Rightarrow>
                    (if errors_is e ErrRefreshTokenReplayed
                     then (Inl (Sentinel ErrRefreshReplayed),
                           snd (sr_RevokeAllForUser repo (clk 3) (ses_UserID sess) db'))
                     else (Inl (Wrap ''rotating session tokens'' e), db'))
                | (Inr newSess, db') \<Rightarrow>
                    (Inr \<lparr>rout_Session = newSess, rout_AccessToken = ot_Raw atk,
                          rout_RefreshToken = ot_Raw rtk\<rparr>, db'))))"

definition Logout :: "(string \<Rightarrow> string) \<Rightarrow> 'db session_repo \<Rightarrow> int \<Rightarrow> string \<Rightarrow> 'db \<Rightarrow> unit res \<times> 'db" where
  "Logout sha256 repo now rawAccessToken db =
     (case sr_GetByAccessHash repo (Hash sha256 rawAccessToken) db of
        Inl e \<Rightarrow> (Inl (Wrap ''looking up session for logout'' e), db)
      | Inr None \<Rightarrow> (Inr (), db)
      | Inr (Some sess) \<Rightarrow> sr_Revoke repo now (ses_ID sess) db)"

definition LogoutAll :: "'db session_repo \<Rightarrow> int \<Rightarrow> string \<Rightarrow> 'db \<Rightarrow> unit res \<times> 'db" where
  "LogoutAll repo now userID db = sr_RevokeAllForUser repo now userID db"

definition RevokeSession :: "'db session_repo \<Rightarrow> int \<Rightarrow> string \<Rightarrow> string \<Rightarrow> 'db \<Rightarrow> unit res \<times> 'db" where
  "RevokeSession repo now sessionID requestingUserID db =
     (case sr_GetByID repo sessionID db of
        Inl e \<Rightarrow> (Inl (Wrap ''looking up session'' e), db)
      | Inr None \<Rightarrow> (Inl (Sentinel ErrSessionNotFound), db)
      | Inr (Some sess) \<Rightarrow>
          (if ses_UserID sess \<noteq> requestingUserID then (Inl (Sentinel ErrSessionNotOwned), db)
           else sr_Revoke repo now sessionID db))"

definition ListSessions :: "'db session_repo \<Rightarrow> string \<Rightarrow> 'db \<Rightarrow> Session list res" where
  "ListSessions repo userID db = sr_ListForUser repo userID db"

record activation =
  act_ActorID :: string
  act_ActorType :: ActorType
  act_Perms :: "string list"
  act_DelegPerms :: "string list"
  act_PGroups :: "string list"
  act_PermVersion :: nat

definition activation_input :: "activation \<Rightarrow> Session \<Rightarrow> CreateSessionInput" where
  "activation_input a sess =
     \<lparr>csn_Kind = ses_Kind sess, csn_UserID = ses_UserID sess, csn_ClientID = ses_ClientID sess,
      csn_ActorID = act_ActorID a, csn_ActorType = act_ActorType a, csn_Permissions = act_Perms a,
      csn_DelegatedPermissions = act_DelegPerms a, csn_PolicyGroups = act_PGroups a,
      csn_PermissionVersion = act_PermVersion a, csn_UserAgent = '''', csn_IPAddress = ''''\<rparr>"

definition Session_ActivateContext ::
  "(string \<Rightarrow> string) \<Rightarrow> SessionConfig \<Rightarrow> 'db session_repo \<Rightarrow> (nat \<Rightarrow> int) \<Rightarrow> entropy \<Rightarrow> string \<Rightarrow> activation \<Rightarrow>
     'db \<Rightarrow> CreateSessionOutput res \<times> 'db" where
  "Session_ActivateContext sha256 cfg repo clk ent rawAccessToken a db =
     (case sr_GetByAccessHash repo (Hash sha256 rawAccessToken) db of
        Inl e \<Rightarrow> (Inl (Wrap ''looking up session for context activation'' e), db)
      | Inr None \<Rightarrow> (Inl (Sentinel ErrSessionNotFound), db)
      | Inr (Some sess) \<Rightarrow>
          (if \<not> Session_IsValid (clk 0) sess then (Inl (Sentinel ErrSessionNotFound), db)
           else case sr_Revoke repo (clk 1) (ses_ID sess) db of
             (Inl e, db') \<Rightarrow> (Inl (Wrap ''revoking old session during context activation'' e), db')
           | (Inr _, db') \<Rightarrow>
               Session_Create sha256 cfg repo (\<lambda>i. clk (i + 2)) ent (activation_input a sess) db'))"

section \<open>Minting\<close>

lemma mint_Inr:
  "mint sha256 ent = Inr (atk, rtk, jti) \<longleftrightarrow>
     (\<exists>a r j. ent_access ent = Inr a \<and> ent_refresh ent = Inr r \<and> ent_jti ent = Inr j \<and>
        atk = \<lparr>ot_Raw = ''atk_'' @ hex_encode a, ot_Hash = Hash sha256 (''atk_'' @ hex_encode a)\<rparr> \<and>
        rtk = \<lparr>ot_Raw = ''rtk_'' @ hex_encode r, ot_Hash = Hash sha256 (''rtk_'' @ hex_encode r)\<rparr> \<and>
        jti = ''jti_'' @ hex_encode j)"
  by (auto simp: mint_def token_defs GenerateJTI_def prefixJTI_def Let_def split: sum.splits)

lemma mint_hash:
  "mint sha256 ent = Inr (atk, rtk, jti) \<Longrightarrow>
     ot_Hash atk = Hash sha256 (ot_Raw atk) \<and> ot_Hash rtk = Hash sha256 (ot_Raw rtk)"
  by (auto simp: mint_Inr)

lemma refresh_input_simps [simp]:
  "sri_OldSessionID (refresh_input cfg t atk rtk jti i s) = ses_ID s"
  "sri_NewRefreshJTI (refresh_input cfg t atk rtk jti i s) = jti"
  by (simp_all add: refresh_input_def)

lemma same_sessionD:
  assumes "same_session s t"
  shows "ses_Kind s = ses_Kind t" "ses_UserID s = ses_UserID t" "ses_ClientID s = ses_ClientID t"
    "ses_ActorID s = ses_ActorID t" "ses_ActorType s = ses_ActorType t"
    "ses_AccessTokenHash s = ses_AccessTokenHash t" "ses_RefreshTokenHash s = ses_RefreshTokenHash t"
    "ses_RefreshJTI s = ses_RefreshJTI t" "ses_ExpiresAt s = ses_ExpiresAt t"
    "ses_RefreshExpiresAt s = ses_RefreshExpiresAt t" "ses_Revoked s = ses_Revoked t"
    "set (ses_Permissions s) = set (ses_Permissions t)"
    "set (ses_DelegatedPermissions s) = set (ses_DelegatedPermissions t)"
    "set (ses_PolicyGroups s) = set (ses_PolicyGroups t)" "ses_PermissionVersion s = ses_PermissionVersion t"
    "ses_UserAgent s = ses_UserAgent t" "ses_IPAddress s = ses_IPAddress t"
  using assms unfolding same_session_def by (cases s; cases t; simp)+

section \<open>The service over any session store\<close>

text \<open>\<open>sole S f h u\<close>: no session but \<open>u\<close> has the token hash \<open>h\<close>. The hashes of fresh 256-bit tokens are distinct.\<close>

definition sole :: "sessions \<Rightarrow> (Session \<Rightarrow> string) \<Rightarrow> string \<Rightarrow> string \<Rightarrow> bool" where
  "sole S f h u = (\<forall>v s. S v = Some s \<longrightarrow> f s = h \<longrightarrow> v = u)"

definition unused :: "sessions \<Rightarrow> (Session \<Rightarrow> string) \<Rightarrow> string \<Rightarrow> bool" where
  "unused S f h = (\<forall>v s. S v = Some s \<longrightarrow> f s \<noteq> h)"

definition dead_for_user :: "string \<Rightarrow> sessions \<Rightarrow> bool" where
  "dead_for_user usr S = (\<forall>u s. S u = Some s \<longrightarrow> ses_UserID s = usr \<longrightarrow> ses_Revoked s)"

context session_repository
begin

lemma find_access:
  assumes "inv db" "sole (sessions db) ses_AccessTokenHash h u" "sessions db u = Some s" "ses_AccessTokenHash s = h"
  shows "sr_GetByAccessHash repo h db = Inr (Some s) \<or> (\<exists>e. sr_GetByAccessHash repo h db = Inl e \<and> foreign e)"
proof (cases "sr_GetByAccessHash repo h db")
  case (Inl e)
  then show ?thesis using access_err by blast
next
  case (Inr r)
  show ?thesis
  proof (cases r)
    case None
    then show ?thesis using access_none [OF assms(1) _ assms(3)] Inr assms(4) by blast
  next
    case (Some t)
    with Inr access_some [OF assms(1)] have "sessions db (ses_ID t) = Some t" "ses_AccessTokenHash t = h" by auto
    with assms(2,3) have "t = s" by (auto simp: sole_def)
    with Inr Some show ?thesis by simp
  qed
qed

lemma find_refresh:
  assumes "inv db" "sole (sessions db) ses_RefreshTokenHash h u" "sessions db u = Some s" "ses_RefreshTokenHash s = h"
  shows "sr_GetByRefreshHash repo h db = Inr (Some s) \<or> (\<exists>e. sr_GetByRefreshHash repo h db = Inl e \<and> foreign e)"
proof (cases "sr_GetByRefreshHash repo h db")
  case (Inl e)
  then show ?thesis using refresh_err by blast
next
  case (Inr r)
  show ?thesis
  proof (cases r)
    case None
    then show ?thesis using refresh_none [OF assms(1) _ assms(3)] Inr assms(4) by blast
  next
    case (Some t)
    with Inr refresh_some [OF assms(1)] have "sessions db (ses_ID t) = Some t" "ses_RefreshTokenHash t = h" by auto
    with assms(2,3) have "t = s" by (auto simp: sole_def)
    with Inr Some show ?thesis by simp
  qed
qed

lemma lookup_Inr:
  assumes "inv db" "lookupAndCheck sha256 repo now raw db = (Inr s, ts)"
  shows "sessions db (ses_ID s) = Some s" "ses_AccessTokenHash s = Hash sha256 raw"
    "\<not> ses_Revoked s" "now \<le> ses_ExpiresAt s" "ts = [ses_ID s]"
  using assms access_some
  by (auto simp: lookupAndCheck_def Session_IsValid_iff split: sum.splits option.splits if_splits)

lemma lookup_sole:
  assumes "inv db" "sole (sessions db) ses_AccessTokenHash (Hash sha256 raw) u" "sessions db u = Some s"
    "ses_AccessTokenHash s = Hash sha256 raw"
  shows "(\<exists>e. lookupAndCheck sha256 repo now raw db = (Inl e, []) \<and> foreign e) \<or>
    lookupAndCheck sha256 repo now raw db =
      (if ses_Revoked s then (Inl (Sentinel ErrSessionRevoked), [])
       else if ses_ExpiresAt s < now then (Inl (Sentinel ErrSessionExpired), []) else (Inr s, [u]))"
  using find_access [OF assms] id_ok [OF assms(1,3)]
  by (auto simp: lookupAndCheck_def Session_IsValid_iff)

lemma lookup_unused:
  assumes "inv db" "unused (sessions db) ses_AccessTokenHash (Hash sha256 raw)"
  shows "\<exists>e. lookupAndCheck sha256 repo now raw db = (Inl e, []) \<and> (foreign e \<or> e = Sentinel ErrSessionNotFound)"
proof (cases "sr_GetByAccessHash repo (Hash sha256 raw) db")
  case (Inl e)
  then show ?thesis using access_err by (auto simp: lookupAndCheck_def)
next
  case (Inr r)
  have "r = None"
    using access_some [OF assms(1), of "Hash sha256 raw"] assms(2) Inr by (cases r) (auto simp: unused_def)
  with Inr show ?thesis by (simp add: lookupAndCheck_def)
qed

lemma verify_of_lookup:
  "lookupAndCheck sha256 repo now raw db = (r, ts) \<Longrightarrow>
   VerifyToken sha256 repo now raw db =
     ((case r of Inr s \<Rightarrow> Inr (sessionToPrincipal s)
       | Inl e \<Rightarrow> if errors_is e ErrSessionExpired then Inl (Sentinel ErrTokenExpired)
                 else if errors_is e ErrSessionRevoked \<or> errors_is e ErrSessionNotFound
                 then Inl (Sentinel ErrTokenInvalid) else Inl e), ts)"
  by (auto simp: VerifyToken_def split: sum.splits)

lemma create_session:
  assumes "inv db" "Session_Create sha256 cfg repo clk ent i db = (Inr out, db')"
  obtains s atk rtk jti where "mint sha256 ent = Inr (atk, rtk, jti)" "cso_Session out = Some s"
    "cso_AccessToken out = ot_Raw atk" "cso_RefreshToken out = ot_Raw rtk"
    "sessions db (ses_ID s) = None" "sessions db' = (sessions db)(ses_ID s \<mapsto> s)" "inv db'"
    "same_session s (new_session (ses_ID s) (clk 1) (create_input cfg (clk 0) atk rtk jti i))"
proof -
  obtain atk rtk jti sess where m: "mint sha256 ent = Inr (atk, rtk, jti)"
      and c: "sr_Create repo (clk 1) (create_input cfg (clk 0) atk rtk jti i) db = (Inr sess, db')"
      and o: "out = \<lparr>cso_Session = sess, cso_AccessToken = ot_Raw atk, cso_RefreshToken = ot_Raw rtk\<rparr>"
    using assms(2) by (auto simp: Session_Create_def split: sum.splits prod.splits)
  from create_ok [OF assms(1) c] create_step [OF assms(1) c] that m o show ?thesis by auto
qed

lemma create_any:
  assumes "inv db" "Session_Create sha256 cfg repo clk ent i db = (r, db')"
  shows "inv db'" "evolves (sessions db) (sessions db')"
  using assms create_step
  by (auto simp: Session_Create_def split: sum.splits prod.splits)

lemma refresh_Inr:
  assumes inv: "inv seen" "inv snap" "inv db"
    and r: "Refresh sha256 cfg repo clk ent i seen snap db = (Inr out, db')"
  obtains sess old cur s atk rtk jti where
    "sessions seen (ses_ID sess) = Some sess" "ses_RefreshTokenHash sess = Hash sha256 (rin_RawRefreshToken i)"
    "\<not> ses_Revoked sess" "clk 0 \<le> ses_RefreshExpiresAt sess" "mint sha256 ent = Inr (atk, rtk, jti)"
    "sessions snap (ses_ID sess) = Some old" "\<not> ses_Revoked old"
    "sessions db (ses_ID sess) = Some cur" "\<not> ses_Revoked cur"
    "out = \<lparr>rout_Session = Some s, rout_AccessToken = ot_Raw atk, rout_RefreshToken = ot_Raw rtk\<rparr>"
    "sessions db (ses_ID s) = None"
    "same_session s (new_session (ses_ID s) (clk 2) (rotation_input (refresh_input cfg (clk 1) atk rtk jti i sess) old))"
    "sessions db' = (sessions db)(ses_ID sess \<mapsto> rotated_away (clk 2) jti cur, ses_ID s \<mapsto> s)" "inv db'"
proof -
  obtain sess atk rtk jti newSess where
    g: "sr_GetByRefreshHash repo (Hash sha256 (rin_RawRefreshToken i)) seen = Inr (Some sess)"
    and v: "\<not> ses_Revoked sess" "\<not> IsRefreshExpired (clk 0) sess" and m: "mint sha256 ent = Inr (atk, rtk, jti)"
    and ro: "sr_RotateTokens repo (clk 2) (refresh_input cfg (clk 1) atk rtk jti i sess) snap db = (Inr newSess, db')"
    and out: "out = \<lparr>rout_Session = newSess, rout_AccessToken = ot_Raw atk, rout_RefreshToken = ot_Raw rtk\<rparr>"
    using r by (auto simp: Refresh_def split: sum.splits option.splits if_splits prod.splits)
  have i': "inv db'" using rotate_step [OF inv(2,3) ro] by simp
  from refresh_some [OF inv(1) g] rotate_ok [OF inv(2,3) ro] v m out i' that
  show ?thesis by (auto simp: IsRefreshExpired_def)
qed

lemma refresh_any:
  assumes inv: "inv seen" "inv snap" "inv db"
    and r: "Refresh sha256 cfg repo clk ent i seen snap db = (x, db')"
  shows "inv db' \<and> evolves (sessions db) (sessions db')"
proof -
  have rev: "inv (snd (sr_RevokeAllForUser repo t usr d)) \<and>
      evolves (sessions d) (sessions (snd (sr_RevokeAllForUser repo t usr d)))" if "inv d" for t usr d
    using revoke_all_step [OF that] by (metis prod.collapse)
  have rot: "inv d \<and> evolves (sessions db) (sessions d)"
    if "sr_RotateTokens repo t k snap db = (y, d)" for t k y d
    using rotate_step [OF inv(2,3) that] .
  have both: "inv d \<and> evolves (sessions db) (sessions d) \<Longrightarrow>
      inv (snd (sr_RevokeAllForUser repo t usr d)) \<and>
      evolves (sessions db) (sessions (snd (sr_RevokeAllForUser repo t usr d)))" for d t usr
    using rev evolves_trans by blast
  show ?thesis
  proof (cases "sr_GetByRefreshHash repo (Hash sha256 (rin_RawRefreshToken i)) seen")
    case (Inl e)
    then show ?thesis using r inv(3) by (auto simp: Refresh_def)
  next
    case (Inr g)
    show ?thesis
    proof (cases g)
      case None
      then show ?thesis using r Inr inv(3) by (auto simp: Refresh_def)
    next
      case (Some sess)
      show ?thesis
      proof (cases "ses_Revoked sess \<or> IsRefreshExpired (clk 0) sess \<or> \<not> is_ok (mint sha256 ent)")
        case True
        then show ?thesis using r Inr Some inv(3) both [of db "clk 0" "ses_UserID sess"]
          by (auto simp: Refresh_def split: if_splits sum.splits)
      next
        case False
        then obtain atk rtk jti where m: "mint sha256 ent = Inr (atk, rtk, jti)"
          by (cases "mint sha256 ent") auto
        obtain y d where rt: "sr_RotateTokens repo (clk 2) (refresh_input cfg (clk 1) atk rtk jti i sess) snap db = (y, d)"
          by (cases "sr_RotateTokens repo (clk 2) (refresh_input cfg (clk 1) atk rtk jti i sess) snap db") auto
        then have "db' = d \<or> db' = snd (sr_RevokeAllForUser repo (clk 3) (ses_UserID sess) d)"
          using r Inr Some False m by (auto simp: Refresh_def split: sum.splits if_splits)
        then show ?thesis using rot [OF rt] both [of d "clk 3" "ses_UserID sess"] by auto
      qed
    qed
  qed
qed

lemma refresh_of_revoked:
  assumes "inv seen" "sole (sessions seen) ses_RefreshTokenHash (Hash sha256 (rin_RawRefreshToken i)) u"
    "sessions seen u = Some s" "ses_RefreshTokenHash s = Hash sha256 (rin_RawRefreshToken i)" "ses_Revoked s"
  shows "(\<exists>e. Refresh sha256 cfg repo clk ent i seen snap db = (Inl e, db) \<and> foreign e) \<or>
    Refresh sha256 cfg repo clk ent i seen snap db =
      (Inl (Sentinel ErrRefreshReplayed), snd (sr_RevokeAllForUser repo (clk 0) (ses_UserID s) db))"
  using find_refresh [OF assms(1-4)]
proof
  assume "sr_GetByRefreshHash repo (Hash sha256 (rin_RawRefreshToken i)) seen = Inr (Some s)"
  then show ?thesis using assms(5) by (simp add: Refresh_def)
next
  assume "\<exists>e. sr_GetByRefreshHash repo (Hash sha256 (rin_RawRefreshToken i)) seen = Inl e \<and> foreign e"
  then obtain e where "sr_GetByRefreshHash repo (Hash sha256 (rin_RawRefreshToken i)) seen = Inl e" "foreign e"
    by blast
  then show ?thesis by (simp add: Refresh_def)
qed

lemma revoke_all_dead:
  assumes "inv db" "sr_RevokeAllForUser repo now usr db = (Inr x, db')"
  shows "dead_for_user usr (sessions db')"
proof (unfold dead_for_user_def, intro allI impI)
  fix u s assume s: "sessions db' u = Some s" "ses_UserID s = usr"
  then obtain t where t: "sessions db u = Some t"
      "s = (if ses_UserID t = usr \<and> \<not> ses_Revoked t then revoked_at now t else t)"
    unfolding revoke_all_ok [OF assms] by auto
  with s(2) show "ses_Revoked s"
    by (cases "ses_UserID t = usr \<and> \<not> ses_Revoked t") (simp_all add: revoked_at_def)
qed

lemma logout_ok:
  assumes "inv db" "sole (sessions db) ses_AccessTokenHash (Hash sha256 raw) u" "sessions db u = Some s"
    "ses_AccessTokenHash s = Hash sha256 raw" "Logout sha256 repo now raw db = (Inr x, db')"
  shows "sessions db' = (sessions db)(u \<mapsto> revoked_at now s)" "inv db'"
proof -
  have "sr_Revoke repo now u db = (Inr x, db')"
    using find_access [OF assms(1-4)] assms(5) id_ok [OF assms(1,3)] by (auto simp: Logout_def)
  from revoke_ok [OF assms(1) this] revoke_step [OF assms(1) this] assms(3)
  show "sessions db' = (sessions db)(u \<mapsto> revoked_at now s)" "inv db'" by auto
qed

lemma logout_any:
  assumes "inv db" "Logout sha256 repo now raw db = (r, db')"
  shows "inv db' \<and> evolves (sessions db) (sessions db')"
  using assms revoke_step by (auto simp: Logout_def split: sum.splits option.splits)

lemma revoke_session_any:
  assumes "inv db" "RevokeSession repo now sid usr db = (r, db')"
  shows "inv db' \<and> evolves (sessions db) (sessions db')"
  using assms revoke_step by (auto simp: RevokeSession_def split: sum.splits option.splits if_splits)

lemma activate_any:
  assumes "inv db" "Session_ActivateContext sha256 cfg repo clk ent raw a db = (r, db')"
  shows "inv db' \<and> evolves (sessions db) (sessions db')"
proof -
  have "inv d' \<and> evolves (sessions db) (sessions d')"
    if "sr_Revoke repo t u db = (x, d)" "Session_Create sha256 cfg repo c ent inp d = (y, d')" for t u x d c inp y d'
    using revoke_step [OF assms(1) that(1)] create_any [OF _ that(2)] evolves_trans by blast
  with assms revoke_step show ?thesis
    by (auto simp: Session_ActivateContext_def split: sum.splits option.splits if_splits prod.splits)
qed

lemma activate_Inr:
  assumes "inv db" "Session_ActivateContext sha256 cfg repo clk ent raw a db = (Inr out, db')"
  obtains sess s atk rtk jti where
    "sessions db (ses_ID sess) = Some sess" "ses_AccessTokenHash sess = Hash sha256 raw"
    "\<not> ses_Revoked sess" "clk 0 \<le> ses_ExpiresAt sess" "mint sha256 ent = Inr (atk, rtk, jti)"
    "cso_Session out = Some s" "cso_AccessToken out = ot_Raw atk" "cso_RefreshToken out = ot_Raw rtk"
    "sessions db (ses_ID s) = None"
    "sessions db' = (sessions db)(ses_ID sess \<mapsto> revoked_at (clk 1) sess, ses_ID s \<mapsto> s)" "inv db'"
    "same_session s (new_session (ses_ID s) (clk 3) (create_input cfg (clk 2) atk rtk jti (activation_input a sess)))"
proof -
  obtain sess d x where g: "sr_GetByAccessHash repo (Hash sha256 raw) db = Inr (Some sess)"
      and v: "Session_IsValid (clk 0) sess" and rv: "sr_Revoke repo (clk 1) (ses_ID sess) db = (Inr x, d)"
      and c: "Session_Create sha256 cfg repo (\<lambda>i. clk (i + 2)) ent (activation_input a sess) d = (Inr out, db')"
    using assms(2) by (auto simp: Session_ActivateContext_def split: sum.splits option.splits if_splits prod.splits)
  note a = access_some [OF assms(1) g]
  have d: "inv d" "sessions d = (sessions db)(ses_ID sess \<mapsto> revoked_at (clk 1) sess)"
    using revoke_step [OF assms(1) rv] revoke_ok [OF assms(1) rv] a by auto
  show ?thesis
  proof (rule create_session [OF d(1) c])
    fix s atk rtk jti
    assume "mint sha256 ent = Inr (atk, rtk, jti)" "cso_Session out = Some s"
      "cso_AccessToken out = ot_Raw atk" "cso_RefreshToken out = ot_Raw rtk"
      "sessions d (ses_ID s) = None" "sessions db' = (sessions d)(ses_ID s \<mapsto> s)" "inv db'"
      "same_session s (new_session (ses_ID s) (clk (1 + 2)) (create_input cfg (clk (0 + 2)) atk rtk jti (activation_input a sess)))"
    then show thesis
      using a v d(2) by (intro that) (auto simp: Session_IsValid_iff numeral_2_eq_2 numeral_3_eq_3 split: if_splits)
  qed
qed

end

end
