(* ===== verification/Session_Theorems.thy ===== *)
theory Session_Theorems
  imports Session_Service
begin

text \<open>
  Properties of the session service (\<^verbatim>\<open>internal/service/session.go\<close>) on top of the Dgraph session
  repository (\<^verbatim>\<open>internal/repository/dgraph/session.go\<close>), for every Dgraph client that behaves as
  documented (\<open>dgraph_client\<close>). A failed database call always remains possible
  (\<open>store_error\<close>).
\<close>

text \<open>The principal a request authenticates as carries the identity the session was created for.\<close>

definition carries :: "CreateSessionInput \<Rightarrow> Principal \<Rightarrow> bool" where
  "carries i p =
     (prin_Kind p = csn_Kind i \<and> prin_UserID p = csn_UserID i \<and> prin_ClientID p = csn_ClientID i \<and>
      prin_ActorID p = csn_ActorID i \<and> prin_ActorType p = csn_ActorType i \<and>
      set (prin_Permissions p) = set (csn_Permissions i) \<and>
      set (prin_DelegatedPermissions p) = set (csn_DelegatedPermissions i) \<and>
      set (prin_PolicyGroups p) = set (csn_PolicyGroups i))"

lemma carries_new:
  "same_session s (new_session u now (create_input cfg t atk rtk jti i)) \<Longrightarrow> carries i (sessionToPrincipal s)"
  by (simp add: carries_def sessionToPrincipal_def new_session_def create_input_def same_sessionD)

lemma unused_sole: "unused S f h \<Longrightarrow> T = S(u \<mapsto> s) \<Longrightarrow> sole T f h u"
  by (auto simp: unused_def sole_def)

section \<open>Runs on the in-memory store\<close>

definition ex_clk :: "nat \<Rightarrow> int" where
  "ex_clk i = (1000 + int i) * second"

definition ex_ent :: "string \<Rightarrow> entropy" where
  "ex_ent s = \<lparr>ent_access = Inr s, ent_refresh = Inr s, ent_jti = Inr s\<rparr>"

definition ex_cfg :: SessionConfig where
  "ex_cfg = \<lparr>sc_AccessTTL = 0, sc_RefreshTTL = 0\<rparr>"

definition ex_in :: "string \<Rightarrow> string \<Rightarrow> CreateSessionInput" where
  "ex_in usr client =
     \<lparr>csn_Kind = (if usr = '''' then PrincipalKindService else PrincipalKindUser), csn_UserID = usr,
      csn_ClientID = client, csn_ActorID = '''', csn_ActorType = ''agent'',
      csn_Permissions = [''read'', ''write''], csn_DelegatedPermissions = [], csn_PolicyGroups = [''g''],
      csn_PermissionVersion = 3, csn_UserAgent = ''ua'', csn_IPAddress = ''ip''\<rparr>"

definition ex_sha :: "string \<Rightarrow> string" where
  "ex_sha s = s"

definition ex_repo :: "mem session_repo" where
  "ex_repo = dgraph_session_repo mem_dgraph"

definition ex_create :: "string \<Rightarrow> string \<Rightarrow> string \<Rightarrow> mem \<Rightarrow> CreateSessionOutput res \<times> mem" where
  "ex_create k usr client db = Session_Create ex_sha ex_cfg ex_repo ex_clk (ex_ent k) (ex_in usr client) db"

definition ex_node :: "string \<Rightarrow> string \<Rightarrow> string \<Rightarrow> int \<Rightarrow> (int \<times> string) option \<Rightarrow> string \<Rightarrow> string \<Rightarrow> (pred \<times> val list) list" where
  "ex_node usr client k c retired ua ip =
     [(DgraphType, [VStr ''Session'']),
      (S_kind, [VStr (if usr = '''' then PrincipalKindService else PrincipalKindUser)]),
      (S_user_id, [VStr usr]), (S_client_id, [VStr client]), (S_actor_id, [VStr '''']),
      (S_actor_type, [VStr ''agent'']),
      (S_access_token_hash, [VStr (Hash ex_sha (''atk_'' @ hex_encode k))]),
      (S_refresh_token_hash, [VStr (Hash ex_sha (''rtk_'' @ hex_encode k))]),
      (S_refresh_jti, [VStr (''jti_'' @ hex_encode k)])] @
     (case retired of None \<Rightarrow> [] | Some (t, j) \<Rightarrow> [(S_replaced_by_jti, [VStr j])]) @
     [(S_permissions, [VStr ''read'', VStr ''write'']), (S_policy_groups, [VStr ''g'']),
      (S_permission_version, [VInt 3]), (S_created_at, [VTime c]),
      (S_updated_at, [VTime (case retired of None \<Rightarrow> c | Some (t, j) \<Rightarrow> t)]),
      (S_last_seen_at, [VTime c]), (S_expires_at, [VTime (c + 899)]),
      (S_refresh_expires_at, [VTime 2593000]), (S_revoked, [VBool (retired \<noteq> None)])] @
     (case retired of None \<Rightarrow> [] | Some (t, j) \<Rightarrow> [(S_revoked_at, [VTime t])]) @
     [(S_user_agent, [VStr ua]), (S_ip_address, [VStr ip])]"

text \<open>After one creation, and after one creation and one rotation.\<close>

definition ex_db1 :: mem where
  "ex_db1 = [(''0x1'', ex_node ''u1'' '''' ''k'' 1001 None ''ua'' ''ip'')]"

definition ex_db2 :: mem where
  "ex_db2 =
     [(''0x1111111'', ex_node ''u1'' '''' ''m'' 1002 None '''' ''''),
      (''0x1'', ex_node ''u1'' '''' ''k'' 1001 (Some (1002, ''jti_6d'')) ''ua'' ''ip'')]"

lemma ex_wf0: "wf_graph (mem_graph [])"
  by (simp add: wf_graph_def wf_node_def mem_graph_def session_typed_def)

lemma ex_create_wf: "wf_graph (mem_graph db) \<Longrightarrow> wf_graph (mem_graph (snd (ex_create k usr client db)))"
  unfolding ex_create_def ex_repo_def by (metis mem.sr.create_any(1) prod.collapse)

lemma ex_create1:
  obtains out where "ex_create ''k'' ''u1'' '''' [] = (Inr out, ex_db1)" "cso_AccessToken out = ''atk_6b''"
proof -
  have "case ex_create ''k'' ''u1'' '''' [] of (Inr x, db) \<Rightarrow> cso_AccessToken x = ''atk_6b'' \<and> db = ex_db1 | _ \<Rightarrow> False"
    by code_simp
  then show ?thesis using that by (auto split: prod.splits sum.splits)
qed

lemma ex_wf1: "wf_graph (mem_graph ex_db1)"
proof -
  obtain out where "ex_create ''k'' ''u1'' '''' [] = (Inr out, ex_db1)" by (rule ex_create1)
  then show ?thesis using ex_create_wf [OF ex_wf0, of "''k''" "''u1''" "''''"] by simp
qed

lemma mem_view_None: "u \<notin> set (map fst db) \<Longrightarrow> session_view (mem_graph db) u = None"
  by (simp add: session_view_def session_typed_def mem_graph_outside)

lemma mem_sole:
  assumes "list_all (\<lambda>u. case session_view (mem_graph db) u of None \<Rightarrow> True | Some s \<Rightarrow> f s \<noteq> h \<or> u = v) (map fst db)"
  shows "sole (session_view (mem_graph db)) f h v"
  unfolding sole_def
proof (intro allI impI)
  fix u s assume u: "session_view (mem_graph db) u = Some s" "f s = h"
  then have "u \<in> set (map fst db)" using mem_view_None by fastforce
  with assms u show "u = v" unfolding list_all_iff by fastforce
qed

lemma mem_unused:
  assumes "list_all (\<lambda>u. case session_view (mem_graph db) u of None \<Rightarrow> True | Some s \<Rightarrow> f s \<noteq> h) (map fst db)"
  shows "unused (session_view (mem_graph db)) f h"
  unfolding unused_def
proof (intro allI impI)
  fix u s assume u: "session_view (mem_graph db) u = Some s"
  then have "u \<in> set (map fst db)" using mem_view_None by fastforce
  with assms u show "f s \<noteq> h" unfolding list_all_iff by fastforce
qed

lemma okE: "(case fst p of Inr x \<Rightarrow> P x | Inl e \<Rightarrow> False) \<Longrightarrow> \<exists>x. p = (Inr x, snd p) \<and> P x"
  by (cases p) (auto split: sum.splits)

section \<open>Creation and verification\<close>

text \<open>C1: The access token that \<open>Create\<close> returns verifies, as the principal the session was created for,
  until the access window (configured TTL, cut to whole seconds) closes; from then on it is
  reported as expired. Assumes its hash was not in use.\<close>

theorem created_token_verifies:
  assumes "dgraph_client dg graph" "wf_graph (graph db)"
    and "Session_Create sha256 cfg (dgraph_session_repo dg) clk ent i db = (Inr out, db')"
    and "unused (session_view (graph db)) ses_AccessTokenHash (Hash sha256 (cso_AccessToken out))"
  shows "store_error (fst (VerifyToken sha256 (dgraph_session_repo dg) t (cso_AccessToken out) db')) \<or>
    (if t \<le> trunc_sec (clk 0 + accessTTL cfg)
     then \<exists>p. fst (VerifyToken sha256 (dgraph_session_repo dg) t (cso_AccessToken out) db') = Inr p \<and> carries i p
     else fst (VerifyToken sha256 (dgraph_session_repo dg) t (cso_AccessToken out) db') = Inl (Sentinel ErrTokenExpired))"
proof -
  note S = dgraph_client.dgraph_sessions [OF assms(1)]
  let ?V = "\<lambda>db. session_view (graph db)"
  obtain s atk rtk jti where c: "mint sha256 ent = Inr (atk, rtk, jti)" "cso_AccessToken out = ot_Raw atk"
      "?V db' = (?V db)(ses_ID s \<mapsto> s)" "wf_graph (graph db')"
      "same_session s (new_session (ses_ID s) (clk 1) (create_input cfg (clk 0) atk rtk jti i))"
    by (rule session_repository.create_session [OF S assms(2,3)])
  have s: "ses_AccessTokenHash s = Hash sha256 (cso_AccessToken out)" "\<not> ses_Revoked s"
      "ses_ExpiresAt s = trunc_sec (clk 0 + accessTTL cfg)"
    using same_sessionD [OF c(5)] mint_hash [OF c(1)] c(2) by (simp_all add: new_session_def create_input_def)
  have "sole (?V db') ses_AccessTokenHash (Hash sha256 (cso_AccessToken out)) (ses_ID s)"
    by (rule unused_sole [OF assms(4) c(3)])
  moreover have "?V db' (ses_ID s) = Some s" by (simp add: c(3))
  ultimately show ?thesis
    using session_repository.lookup_sole [OF S c(4), of sha256 "cso_AccessToken out" "ses_ID s" s t] s carries_new [OF c(5)]
    by (auto simp: session_repository.verify_of_lookup [OF S])
qed

text \<open>Applied: a session opened on an empty store verifies 500 seconds later.\<close>

theorem created_token_verifies_witness:
  "\<exists>p. fst (VerifyToken ex_sha ex_repo (1500 * second) ''atk_6b'' ex_db1) = Inr p \<and> carries (ex_in ''u1'' '''') p"
proof -
  obtain out where c: "ex_create ''k'' ''u1'' '''' [] = (Inr out, ex_db1)" "cso_AccessToken out = ''atk_6b''"
    by (rule ex_create1)
  have "unused (session_view (mem_graph [])) ses_AccessTokenHash h" for h by (rule mem_unused) simp
  note t = created_token_verifies [OF mem.dgraph_client_axioms ex_wf0 c(1) [unfolded ex_create_def ex_repo_def] this,
      of "1500 * second", unfolded c(2)]
  have "1500 * second \<le> trunc_sec (ex_clk 0 + accessTTL ex_cfg)" by code_simp
  moreover have "is_ok (fst (VerifyToken ex_sha ex_repo (1500 * second) ''atk_6b'' ex_db1))" by code_simp
  ultimately show ?thesis using t by (auto simp: ex_repo_def store_error_def split: sum.splits)
qed

text \<open>\<open>VerifyToken\<close> accepts a token only if a session with its hash is stored, is not revoked and has
  not expired; the principal is that session's, and exactly that session is touched.\<close>

theorem verify_sound:
  assumes "dgraph_client dg graph" "wf_graph (graph db)"
    and "VerifyToken sha256 (dgraph_session_repo dg) now raw db = (Inr p, ts)"
  shows "\<exists>u s. session_view (graph db) u = Some s \<and> ses_AccessTokenHash s = Hash sha256 raw \<and>
    \<not> ses_Revoked s \<and> now \<le> ses_ExpiresAt s \<and> p = sessionToPrincipal s \<and> ts = [u]"
proof -
  note S = dgraph_client.dgraph_sessions [OF assms(1)]
  obtain s where l: "lookupAndCheck sha256 (dgraph_session_repo dg) now raw db = (Inr s, ts)" "p = sessionToPrincipal s"
    using assms(3) by (auto simp: VerifyToken_def split: prod.splits sum.splits if_splits)
  from session_repository.lookup_Inr [OF S assms(2) l(1)] l(2) show ?thesis by blast
qed

theorem verify_sound_witness:
  "\<exists>u s. session_view (mem_graph ex_db1) u = Some s \<and> ses_AccessTokenHash s = Hash ex_sha ''atk_6b'' \<and>
     \<not> ses_Revoked s"
proof -
  have "case fst (prod.swap (VerifyToken ex_sha ex_repo (1500 * second) ''atk_6b'' ex_db1)) of ts \<Rightarrow> ts = [''0x1'']"
    by code_simp
  moreover have "is_ok (fst (VerifyToken ex_sha ex_repo (1500 * second) ''atk_6b'' ex_db1))" by code_simp
  ultimately obtain p where "VerifyToken ex_sha (dgraph_session_repo mem_dgraph) (1500 * second) ''atk_6b'' ex_db1 = (Inr p, [''0x1''])"
    by (cases "VerifyToken ex_sha ex_repo (1500 * second) ''atk_6b'' ex_db1") (auto simp: is_ok_def ex_repo_def split: sum.splits)
  from verify_sound [OF mem.dgraph_client_axioms ex_wf1 this] show ?thesis by blast
qed

text \<open>C23: What \<open>VerifyToken\<close> answers for the token of a stored session, whatever its state: a revoked session is an
  invalid token, an expired one an expired token (revocation is reported first), any other a principal.
  A token no session has is an invalid token. The internal sentinels never reach the middleware.\<close>

theorem verify_outcome:
  assumes "dgraph_client dg graph" "wf_graph (graph db)"
    and "sole (session_view (graph db)) ses_AccessTokenHash (Hash sha256 raw) u"
  shows "store_error (fst (VerifyToken sha256 (dgraph_session_repo dg) now raw db)) \<or>
    VerifyToken sha256 (dgraph_session_repo dg) now raw db =
      (case session_view (graph db) u of
         None \<Rightarrow> (Inl (Sentinel ErrTokenInvalid), [])
       | Some s \<Rightarrow>
           (if ses_AccessTokenHash s \<noteq> Hash sha256 raw \<or> ses_Revoked s then (Inl (Sentinel ErrTokenInvalid), [])
            else if ses_ExpiresAt s < now then (Inl (Sentinel ErrTokenExpired), [])
            else (Inr (sessionToPrincipal s), [u])))"
proof (cases "unused (session_view (graph db)) ses_AccessTokenHash (Hash sha256 raw)")
  case True
  note S = dgraph_client.dgraph_sessions [OF assms(1)]
  have "session_view (graph db) u = Some s \<Longrightarrow> ses_AccessTokenHash s \<noteq> Hash sha256 raw" for s
    using True by (auto simp: unused_def)
  then show ?thesis
    using session_repository.lookup_unused [OF S assms(2) True, of now]
    by (auto simp: session_repository.verify_of_lookup [OF S] split: option.splits)
next
  case False
  note S = dgraph_client.dgraph_sessions [OF assms(1)]
  from False assms(3) obtain s where "session_view (graph db) u = Some s" "ses_AccessTokenHash s = Hash sha256 raw"
    by (auto simp: unused_def sole_def)
  then show ?thesis
    using session_repository.lookup_sole [OF S assms(2,3), of s now]
    by (auto simp: session_repository.verify_of_lookup [OF S])
qed

theorem verify_outcome_witness:
  "VerifyToken ex_sha ex_repo (2000 * second) ''atk_6b'' ex_db1 = (Inl (Sentinel ErrTokenExpired), [])"
proof -
  have "sole (session_view (mem_graph ex_db1)) ses_AccessTokenHash (Hash ex_sha ''atk_6b'') ''0x1''"
    by (rule mem_sole) code_simp
  moreover have "case session_view (mem_graph ex_db1) ''0x1'' of Some s \<Rightarrow>
      ses_AccessTokenHash s = Hash ex_sha ''atk_6b'' \<and> \<not> ses_Revoked s \<and> ses_ExpiresAt s < 2000 * second | None \<Rightarrow> False"
    by code_simp
  moreover have "fails_as (fst (VerifyToken ex_sha ex_repo (2000 * second) ''atk_6b'' ex_db1)) ErrTokenExpired"
    by code_simp
  ultimately show ?thesis
    using verify_outcome [OF mem.dgraph_client_axioms ex_wf1, folded ex_repo_def,
        of ex_sha "''atk_6b''" "''0x1''" "2000 * second"]
    by (auto dest: fails_as_sentinel split: option.splits)
qed

section \<open>Logout and rotation\<close>

lemma parse_time_trunc: "trunc_sec (parse_time x) = parse_time x"
  by (cases x) (simp_all add: parse_time_def trunc_sec_def, simp add: zero_time_def fmt_rfc3339_def
      parse_rfc3339_def second_def)

lemma view_trunc: "session_view g u = Some s \<Longrightarrow> trunc_sec (ses_RefreshExpiresAt s) = ses_RefreshExpiresAt s"
  unfolding session_view_def by (auto simp: nodeToSession_def parse_time_trunc split: if_splits)

lemma sole_revoked:
  "sole S f h u \<Longrightarrow> S u = Some s \<Longrightarrow> f t = f s \<Longrightarrow> sole (S(u \<mapsto> t)) f h u"
  by (auto simp: sole_def)

text \<open>C32: After a \<open>Logout\<close> that succeeds, the access token presented is dead: whatever the clock says,
  \<open>VerifyToken\<close> answers that it is invalid, unless the store cannot be read. This holds for a token no session has as
  well; at most one session may have the token's hash.\<close>

theorem logout_kills_token:
  assumes "dgraph_client dg graph" "wf_graph (graph db)"
    and "sole (session_view (graph db)) ses_AccessTokenHash (Hash sha256 raw) u"
    and "Logout sha256 (dgraph_session_repo dg) now raw db = (Inr x, db')"
  shows "store_error (fst (VerifyToken sha256 (dgraph_session_repo dg) later raw db')) \<or>
    VerifyToken sha256 (dgraph_session_repo dg) later raw db' = (Inl (Sentinel ErrTokenInvalid), [])"
proof -
  note S = dgraph_client.dgraph_sessions [OF assms(1)]
  let ?V = "session_view (graph db)"
  show ?thesis
  proof (cases "unused ?V ses_AccessTokenHash (Hash sha256 raw)")
    case True
    have "db' = db"
      using True session_repository.access_some [OF S assms(2)] assms(4)
      by (auto simp: Logout_def unused_def split: sum.splits option.splits)
    then show ?thesis
      using session_repository.lookup_unused [OF S assms(2) True, of later]
      by (auto simp: session_repository.verify_of_lookup [OF S])
  next
    case False
    with assms(3) obtain s where s: "?V u = Some s" "ses_AccessTokenHash s = Hash sha256 raw"
      by (auto simp: unused_def sole_def)
    note l = session_repository.logout_ok [OF S assms(2,3) s assms(4)]
    have "sole (session_view (graph db')) ses_AccessTokenHash (Hash sha256 raw) u"
      unfolding l(1) using assms(3) s(1) by (rule sole_revoked) (simp add: revoked_at_def)
    moreover have "session_view (graph db') u = Some (revoked_at now s)" by (simp add: l(1))
    ultimately show ?thesis
      using session_repository.lookup_sole [OF S l(2), of sha256 raw u "revoked_at now s" later] s(2)
      by (auto simp: session_repository.verify_of_lookup [OF S] revoked_at_def)
  qed
qed

definition ex_logout :: "unit res \<times> mem" where
  "ex_logout = Logout ex_sha ex_repo (1100 * second) ''atk_6b'' ex_db1"

theorem logout_kills_token_witness:
  "VerifyToken ex_sha ex_repo (1200 * second) ''atk_6b'' (snd ex_logout) = (Inl (Sentinel ErrTokenInvalid), [])"
proof -
  have "sole (session_view (mem_graph ex_db1)) ses_AccessTokenHash (Hash ex_sha ''atk_6b'') ''0x1''"
    by (rule mem_sole) code_simp
  moreover have "is_ok (fst ex_logout)" by code_simp
  then have "Logout ex_sha ex_repo (1100 * second) ''atk_6b'' ex_db1 = (Inr (), snd ex_logout)"
    by (cases ex_logout) (auto simp: is_ok_def ex_logout_def split: sum.splits)
  moreover have "fails_as (fst (VerifyToken ex_sha ex_repo (1200 * second) ''atk_6b'' (snd ex_logout))) ErrTokenInvalid"
    by code_simp
  ultimately show ?thesis
    using logout_kills_token [OF mem.dgraph_client_axioms ex_wf1, folded ex_repo_def,
        of ex_sha "''atk_6b''" "''0x1''" "1100 * second" "()" "snd ex_logout" "1200 * second"]
    by (auto dest: fails_as_sentinel)
qed

lemma refresh_alone:
  assumes "dgraph_client dg graph" "wf_graph (graph db)"
    and "Refresh sha256 cfg (dgraph_session_repo dg) clk ent i db db db = (Inr out, db')"
  obtains u old s jti where "session_view (graph db) u = Some old" "\<not> ses_Revoked old"
    "ses_RefreshTokenHash old = Hash sha256 (rin_RawRefreshToken i)" "clk 0 \<le> ses_RefreshExpiresAt old"
    "session_view (graph db) (ses_ID s) = None" "ses_RefreshTokenHash s = Hash sha256 (rout_RefreshToken out)"
    "session_view (graph db') = (session_view (graph db))(u \<mapsto> rotated_away (clk 2) jti old, ses_ID s \<mapsto> s)"
proof -
  note S = dgraph_client.dgraph_sessions [OF assms(1)]
  show ?thesis
  proof (rule session_repository.refresh_Inr [OF S assms(2) assms(2) assms(2) assms(3)])
    fix sess old cur s atk rtk jti
    let ?V = "session_view (graph db)"
    assume r: "?V (ses_ID sess) = Some sess" "ses_RefreshTokenHash sess = Hash sha256 (rin_RawRefreshToken i)"
      "\<not> ses_Revoked sess" "clk 0 \<le> ses_RefreshExpiresAt sess" "mint sha256 ent = Inr (atk, rtk, jti)"
      "?V (ses_ID sess) = Some old" "?V (ses_ID sess) = Some cur"
      "out = \<lparr>rout_Session = Some s, rout_AccessToken = ot_Raw atk, rout_RefreshToken = ot_Raw rtk\<rparr>"
      "?V (ses_ID s) = None"
      "same_session s (new_session (ses_ID s) (clk 2) (rotation_input (refresh_input cfg (clk 1) atk rtk jti i sess) old))"
      "session_view (graph db') = ?V(ses_ID sess \<mapsto> rotated_away (clk 2) jti cur, ses_ID s \<mapsto> s)"
    have "ses_RefreshTokenHash s = Hash sha256 (rout_RefreshToken out)"
      using same_sessionD(7) [OF r(10)] mint_hash [OF r(5)] r(8)
      by (simp add: new_session_def rotation_input_def refresh_input_def)
    moreover have "cur = sess" using r(1,7) by simp
    ultimately show ?thesis using that [OF r(1,3,2,4,9)] r(11) by simp
  qed
qed

text \<open>C2: A successful \<open>Refresh\<close> (no other request in between) retires the session the refresh token belongs
  to and opens one new session: same identity, actor and permissions, the same expiry of the refresh
  family, a fresh access window, and exactly the hashes of the two tokens returned.\<close>

theorem refresh_rotates:
  assumes "dgraph_client dg graph" "wf_graph (graph db)"
    and "Refresh sha256 cfg (dgraph_session_repo dg) clk ent i db db db = (Inr out, db')"
  shows "\<exists>u old s jti. session_view (graph db) u = Some old \<and> \<not> ses_Revoked old \<and>
      ses_RefreshTokenHash old = Hash sha256 (rin_RawRefreshToken i) \<and> clk 0 \<le> ses_RefreshExpiresAt old \<and>
      rout_Session out = Some s \<and> session_view (graph db) (ses_ID s) = None \<and>
      session_view (graph db') = (session_view (graph db))(u \<mapsto> rotated_away (clk 2) jti old, ses_ID s \<mapsto> s) \<and>
      ses_AccessTokenHash s = Hash sha256 (rout_AccessToken out) \<and>
      ses_RefreshTokenHash s = Hash sha256 (rout_RefreshToken out) \<and>
      ses_RefreshJTI s = jti \<and> \<not> ses_Revoked s \<and>
      ses_Kind s = ses_Kind old \<and> ses_UserID s = ses_UserID old \<and> ses_ClientID s = ses_ClientID old \<and>
      ses_ActorID s = ses_ActorID old \<and> ses_ActorType s = ses_ActorType old \<and>
      set (ses_Permissions s) = set (ses_Permissions old) \<and>
      set (ses_DelegatedPermissions s) = set (ses_DelegatedPermissions old) \<and>
      set (ses_PolicyGroups s) = set (ses_PolicyGroups old) \<and>
      ses_PermissionVersion s = ses_PermissionVersion old \<and>
      ses_ExpiresAt s = trunc_sec (clk 1 + accessTTL cfg) \<and>
      ses_RefreshExpiresAt s = ses_RefreshExpiresAt old"
proof -
  note S = dgraph_client.dgraph_sessions [OF assms(1)]
  let ?V = "session_view (graph db)"
  obtain sess old cur s atk rtk jti where r: "?V (ses_ID sess) = Some sess"
      "ses_RefreshTokenHash sess = Hash sha256 (rin_RawRefreshToken i)" "\<not> ses_Revoked sess"
      "clk 0 \<le> ses_RefreshExpiresAt sess" "mint sha256 ent = Inr (atk, rtk, jti)"
      "?V (ses_ID sess) = Some old" "?V (ses_ID sess) = Some cur"
      "out = \<lparr>rout_Session = Some s, rout_AccessToken = ot_Raw atk, rout_RefreshToken = ot_Raw rtk\<rparr>"
      "?V (ses_ID s) = None"
      "same_session s (new_session (ses_ID s) (clk 2) (rotation_input (refresh_input cfg (clk 1) atk rtk jti i sess) old))"
      "session_view (graph db') = ?V(ses_ID sess \<mapsto> rotated_away (clk 2) jti cur, ses_ID s \<mapsto> s)"
    by (rule session_repository.refresh_Inr [OF S assms(2) assms(2) assms(2) assms(3)]) blast
  have eq: "old = sess" "cur = sess" using r(1,6,7) by simp_all
  note same = same_sessionD [OF r(10)]
  show ?thesis
    using r(1-4,8,9) r(11) mint_hash [OF r(5)] view_trunc [OF r(1)]
    by (intro exI [of _ "ses_ID sess"] exI [of _ sess] exI [of _ s] exI [of _ jti])
      (simp add: same new_session_def rotation_input_def refresh_input_def eq)
qed

definition ex_refresh :: "string \<Rightarrow> string \<Rightarrow> mem \<Rightarrow> mem \<Rightarrow> RefreshOutput res \<times> mem" where
  "ex_refresh k raw snap db =
     Refresh ex_sha ex_cfg ex_repo ex_clk (ex_ent k)
       \<lparr>rin_RawRefreshToken = raw, rin_UserAgent = '''', rin_IPAddress = ''''\<rparr> snap snap db"

lemma ex_refresh2:
  obtains out where "ex_refresh ''m'' ''rtk_6b'' ex_db1 ex_db1 = (Inr out, ex_db2)" "rout_RefreshToken out = ''rtk_6d''"
proof -
  have "case ex_refresh ''m'' ''rtk_6b'' ex_db1 ex_db1 of
      (Inr x, db) \<Rightarrow> rout_RefreshToken x = ''rtk_6d'' \<and> db = ex_db2 | _ \<Rightarrow> False"
    by code_simp
  then show ?thesis using that by (auto split: prod.splits sum.splits)
qed

theorem refresh_rotates_witness:
  "\<exists>u old. session_view (mem_graph ex_db1) u = Some old \<and> \<not> ses_Revoked old \<and>
     ses_RefreshTokenHash old = Hash ex_sha ''rtk_6b'' \<and>
     (\<exists>s. session_view (mem_graph ex_db2) (ses_ID s) = Some s \<and> ses_UserID s = ses_UserID old \<and>
        ses_RefreshTokenHash s = Hash ex_sha ''rtk_6d'')"
proof -
  obtain out where "ex_refresh ''m'' ''rtk_6b'' ex_db1 ex_db1 = (Inr out, ex_db2)" "rout_RefreshToken out = ''rtk_6d''"
    by (rule ex_refresh2)
  with refresh_rotates [OF mem.dgraph_client_axioms ex_wf1, of ex_sha ex_cfg ex_clk "ex_ent ''m''" _ out ex_db2, folded ex_repo_def]
  show ?thesis by (fastforce simp: ex_refresh_def)
qed

text \<open>C3: Reuse detection. Once a refresh token has been rotated away, presenting it again is reported as a
  replay and, when the bulk revocation succeeds, no session of that user is active any more: the
  one opened by the legitimate rotation is revoked too.\<close>

theorem refresh_reuse_detected:
  assumes "dgraph_client dg graph" "wf_graph (graph db)"
    and "sole (session_view (graph db)) ses_RefreshTokenHash (Hash sha256 (rin_RawRefreshToken i)) u"
    and "session_view (graph db) u = Some old"
    and "Refresh sha256 cfg (dgraph_session_repo dg) clk ent i db db db = (Inr out, db1)"
    and "Hash sha256 (rout_RefreshToken out) \<noteq> Hash sha256 (rin_RawRefreshToken i)"
    and "rin_RawRefreshToken again = rin_RawRefreshToken i"
    and "Refresh sha256 cfg (dgraph_session_repo dg) clk2 ent2 again db1 db1 db1 = (r2, db2)"
  shows "store_error r2 \<and> db2 = db1 \<or>
    r2 = Inl (Sentinel ErrRefreshReplayed) \<and>
    (is_ok (fst (SessionRepo_RevokeAllForUser dg (clk2 0) (ses_UserID old) db1)) \<longrightarrow>
       dead_for_user (ses_UserID old) (session_view (graph db2)))"
proof -
  note S = dgraph_client.dgraph_sessions [OF assms(1)]
  let ?h = "Hash sha256 (rin_RawRefreshToken i)"
  obtain u' old' s jti where r: "session_view (graph db) u' = Some old'" "ses_RefreshTokenHash old' = ?h"
      "session_view (graph db1) = (session_view (graph db))(u' \<mapsto> rotated_away (clk 2) jti old', ses_ID s \<mapsto> s)"
      "ses_RefreshTokenHash s = Hash sha256 (rout_RefreshToken out)" "session_view (graph db) (ses_ID s) = None"
    by (rule refresh_alone [OF assms(1,2,5)])
  have eq: "u' = u" "old' = old" using r(1,2) assms(3,4) by (auto simp: sole_def)
  have ne: "ses_ID s \<noteq> u" using r(5) assms(4) by auto
  have wf1: "wf_graph (graph db1)" using session_repository.refresh_any [OF S assms(2,2,2,5)] by simp
  have old1: "session_view (graph db1) u = Some (rotated_away (clk 2) jti old)" using r(3) ne by (simp add: eq)
  have "sole (session_view (graph db1)) ses_RefreshTokenHash (Hash sha256 (rin_RawRefreshToken again)) u"
    using assms(3,6,7) r(2,3,4) by (auto simp: sole_def eq rotated_away_def revoked_at_def)
  from session_repository.refresh_of_revoked [OF S wf1 this old1, of cfg clk2 ent2 db1 db1] r(2) assms(7,8)
  have c: "store_error r2 \<and> db2 = db1 \<or> r2 = Inl (Sentinel ErrRefreshReplayed) \<and>
      db2 = snd (SessionRepo_RevokeAllForUser dg (clk2 0) (ses_UserID old) db1)"
    by (auto simp: eq rotated_away_def revoked_at_def dgraph_session_repo_def)
  have "dead_for_user (ses_UserID old) (session_view (graph d))"
    if "SessionRepo_RevokeAllForUser dg (clk2 0) (ses_UserID old) db1 = (Inr x, d)" for x d
    using session_repository.revoke_all_dead [OF S wf1, of "clk2 0" "ses_UserID old" x d] that
    by (simp add: dgraph_session_repo_def)
  with c show ?thesis
    by (cases "SessionRepo_RevokeAllForUser dg (clk2 0) (ses_UserID old) db1") (auto simp: is_ok_def split: sum.splits)
qed

theorem refresh_reuse_detected_witness:
  "fst (ex_refresh ''n'' ''rtk_6b'' ex_db2 ex_db2) = Inl (Sentinel ErrRefreshReplayed) \<and>
   dead_for_user ''u1'' (session_view (mem_graph (snd (ex_refresh ''n'' ''rtk_6b'' ex_db2 ex_db2))))"
proof -
  obtain out where o: "ex_refresh ''m'' ''rtk_6b'' ex_db1 ex_db1 = (Inr out, ex_db2)" "rout_RefreshToken out = ''rtk_6d''"
    by (rule ex_refresh2)
  have so: "sole (session_view (mem_graph ex_db1)) ses_RefreshTokenHash (Hash ex_sha ''rtk_6b'') ''0x1''"
    by (rule mem_sole) code_simp
  obtain s where s: "session_view (mem_graph ex_db1) ''0x1'' = Some s" "ses_UserID s = ''u1''"
  proof -
    have "case session_view (mem_graph ex_db1) ''0x1'' of Some s \<Rightarrow> ses_UserID s = ''u1'' | None \<Rightarrow> False" by code_simp
    then show ?thesis using that by (auto split: option.splits)
  qed
  have ne: "Hash ex_sha (rout_RefreshToken out) \<noteq> Hash ex_sha ''rtk_6b''" unfolding o(2) by code_simp
  have ok: "is_ok (fst (SessionRepo_RevokeAllForUser mem_dgraph (ex_clk 0) ''u1'' ex_db2))" by code_simp
  have nf: "fails_as (fst (ex_refresh ''n'' ''rtk_6b'' ex_db2 ex_db2)) ErrRefreshReplayed" by code_simp
  let ?i = "\<lparr>rin_RawRefreshToken = ''rtk_6b'', rin_UserAgent = '''', rin_IPAddress = ''''\<rparr>"
  show ?thesis
    using refresh_reuse_detected [OF mem.dgraph_client_axioms ex_wf1, of ex_sha ?i "''0x1''" s ex_cfg ex_clk
        "ex_ent ''m''" out ex_db2 ?i ex_clk "ex_ent ''n''" "fst (ex_refresh ''n'' ''rtk_6b'' ex_db2 ex_db2)"
        "snd (ex_refresh ''n'' ''rtk_6b'' ex_db2 ex_db2)", folded ex_repo_def] so s ne ok nf o(1)
    by (auto simp: ex_refresh_def dest: fails_as_sentinel)
qed

text \<open>A rotation that began before the session was retired, and commits after, is refused by the store.\<close>

lemma late_rotation_refused:
  assumes "dgraph_client dg graph" "wf_graph (graph snap)" "wf_graph (graph db)"
    and "session_view (graph snap) (sri_OldSessionID rin) = Some old" "\<not> ses_Revoked old"
    and "session_view (graph db) (sri_OldSessionID rin) = Some c" "ses_Revoked c"
    and "sr_RotateTokens (dgraph_session_repo dg) now rin snap db = (y, db')"
  shows "\<exists>e. y = Inl e \<and> foreign e \<and> graph db' = graph db"
proof -
  have r: "SessionRepo_RotateTokens dg now rin snap db = (y, db')" using assms(8) by (simp add: dgraph_session_repo_def)
  show ?thesis by (cases rule: dgraph_client.rotate_cases [OF assms(1-3) r]) (use assms(4-7) in auto)
qed

text \<open>C22: Two refreshes of the same token race: both looked the session up and began their transaction in
  the state \<open>db\<close>, the first has committed. The second never succeeds (at most one rotation wins) and
  changes no session, but it does not report a replay either. Its commit is refused and it returns an
  unclassified error, or it did not get as far: the refresh window closed between the two clock readings,
  which is reported as such, or the system could not mint tokens.\<close>

theorem concurrent_refresh_loses:
  assumes "dgraph_client dg graph" "wf_graph (graph db)"
    and "sole (session_view (graph db)) ses_RefreshTokenHash (Hash sha256 (rin_RawRefreshToken i)) u"
    and "Refresh sha256 cfg (dgraph_session_repo dg) clk ent i db db db = (Inr out, db1)"
    and "rin_RawRefreshToken again = rin_RawRefreshToken i"
    and "Refresh sha256 cfg (dgraph_session_repo dg) clk2 ent2 again db db db1 = (r2, db2)"
  shows "session_view (graph db2) = session_view (graph db1) \<and>
    (store_error r2 \<or>
     r2 = Inl (Sentinel ErrRefreshExpired) \<and> (\<exists>old. session_view (graph db) u = Some old \<and> ses_RefreshExpiresAt old < clk2 0) \<or>
     (\<exists>e. mint sha256 ent2 = Inl e \<and> r2 = Inl e))"
proof -
  note S = dgraph_client.dgraph_sessions [OF assms(1)]
  let ?h = "Hash sha256 (rin_RawRefreshToken i)" and ?V = "session_view (graph db)"
  obtain u' old s jti where r: "?V u' = Some old" "ses_RefreshTokenHash old = ?h" "\<not> ses_Revoked old"
      "session_view (graph db1) = ?V(u' \<mapsto> rotated_away (clk 2) jti old, ses_ID s \<mapsto> s)"
      "?V (ses_ID s) = None" "clk 0 \<le> ses_RefreshExpiresAt old"
    by (rule refresh_alone [OF assms(1,2,4)])
  have eq: "u' = u" using r(1,2) assms(3) by (auto simp: sole_def)
  have wf1: "wf_graph (graph db1)" using session_repository.refresh_any [OF S assms(2,2,2,4)] by simp
  have idu: "ses_ID old = u" using session_repository.id_ok [OF S assms(2) r(1)] eq by simp
  let ?c = "rotated_away (clk 2) jti old"
  have "u \<noteq> ses_ID s" using r(1,5) eq by auto
  then have dead: "session_view (graph db1) u = Some ?c" "ses_Revoked ?c"
    using r(4) eq by (simp_all add: rotated_away_def revoked_at_def)
  have old: "session_view (graph db) u = Some old" using r(1) eq by simp
  note found = session_repository.find_refresh [OF S assms(2,3) old r(2)]
  show ?thesis
  proof (cases "mint sha256 ent2")
    case (Inl e)
    then show ?thesis using found old assms(5,6) r(3)
      by (cases "ses_RefreshExpiresAt old < clk2 0") (auto simp: Refresh_def IsRefreshExpired_def)
  next
    case (Inr m)
    obtain atk rtk jti2 where m: "mint sha256 ent2 = Inr (atk, rtk, jti2)" using Inr by (cases m) auto
    let ?ri = "refresh_input cfg (clk2 1) atk rtk jti2 again old"
    obtain y d where ro: "sr_RotateTokens (dgraph_session_repo dg) (clk2 2) ?ri db db1 = (y, d)" by fastforce
    have "\<exists>e. y = Inl e \<and> foreign e \<and> graph d = graph db1"
      by (rule late_rotation_refused [OF assms(1,2) wf1 _ r(3) _ dead(2) ro]) (use r(1) dead(1) idu eq in simp_all)
    with found show ?thesis using m ro old assms(5,6) r(3)
      by (cases "ses_RefreshExpiresAt old < clk2 0") (auto simp: Refresh_def IsRefreshExpired_def)
  qed
qed

theorem concurrent_refresh_loses_witness:
  "\<not> is_ok (fst (ex_refresh ''n'' ''rtk_6b'' ex_db1 ex_db2)) \<and>
   session_view (mem_graph (snd (ex_refresh ''n'' ''rtk_6b'' ex_db1 ex_db2))) = session_view (mem_graph ex_db2)"
proof -
  obtain out where o: "ex_refresh ''m'' ''rtk_6b'' ex_db1 ex_db1 = (Inr out, ex_db2)" by (rule ex_refresh2)
  have so: "sole (session_view (mem_graph ex_db1)) ses_RefreshTokenHash (Hash ex_sha ''rtk_6b'') ''0x1''"
    by (rule mem_sole) code_simp
  let ?i = "\<lparr>rin_RawRefreshToken = ''rtk_6b'', rin_UserAgent = '''', rin_IPAddress = ''''\<rparr>"
  show ?thesis
    using concurrent_refresh_loses [OF mem.dgraph_client_axioms ex_wf1, of ex_sha ?i "''0x1''" ex_cfg ex_clk
        "ex_ent ''m''" out ex_db2 ?i ex_clk "ex_ent ''n''" "fst (ex_refresh ''n'' ''rtk_6b'' ex_db1 ex_db2)"
        "snd (ex_refresh ''n'' ''rtk_6b'' ex_db1 ex_db2)", folded ex_repo_def] so o
    by (auto simp: ex_refresh_def store_error_def split: sum.splits)
qed

end
