(* ===== verification/Session_Authz.thy ===== *)
theory Session_Authz
  imports Session_Theorems
begin

text \<open>
  Who may end which session: \<open>RevokeSession\<close>, \<open>LogoutAll\<close>, \<open>ListSessions\<close>, \<open>ActivateContext\<close> and the
  clean-up \<open>DeleteExpired\<close>, over the Dgraph session repository. Ownership is decided by the user ID
  alone; a service account's session has the empty user ID, and the last property of the first section shows
  one thing that follows (\<open>Login_Theorems\<close> has the other).
\<close>

section \<open>Revoking one session, and all of a user's\<close>

text \<open>C24: \<open>RevokeSession\<close> ends a session only for the user it belongs to. For anyone else, for an unknown ID and
  for an ID that is not a Dgraph uid, it reports an error and leaves the database untouched.\<close>

theorem revoke_session_outcome:
  assumes "dgraph_client dg graph" "wf_graph (graph db)"
    and "RevokeSession (dgraph_session_repo dg) now sid usr db = (r, db')"
  shows "(\<exists>s. session_view (graph db) sid = Some s \<and> ses_UserID s = usr \<and>
        (is_ok r \<longrightarrow> session_view (graph db') = (session_view (graph db))(sid \<mapsto> revoked_at now s)) \<and>
        (\<not> is_ok r \<longrightarrow> store_error r)) \<or>
    db' = db \<and>
      (case session_view (graph db) sid of
         None \<Rightarrow> store_error r \<or> re_match validDgraphUID sid \<and> r = Inl (Sentinel ErrSessionNotFound)
       | Some s \<Rightarrow> store_error r \<or> ses_UserID s \<noteq> usr \<and> r = Inl (Sentinel ErrSessionNotOwned))"
proof (cases "SessionRepo_GetByID dg sid db")
  case (Inl e)
  then have "r = Inl (Wrap ''looking up session'' e)" "db' = db"
    using assms(3) by (auto simp: RevokeSession_def dgraph_session_repo_def)
  moreover have "foreign e" using dgraph_client.get_by_id_err [OF assms(1) Inl] .
  ultimately show ?thesis by (simp split: option.splits)
next
  case (Inr x)
  note S = dgraph_client.dgraph_sessions [OF assms(1)]
  have v: "re_match validDgraphUID sid" using Inr by (auto simp: SessionRepo_GetByID_def split: if_splits)
  have x: "session_view (graph db) sid = x" by (rule dgraph_client.get_by_id_ok [OF assms(1) Inr, symmetric])
  show ?thesis
  proof (cases x)
    case None
    then show ?thesis using assms(3) Inr x v by (auto simp: RevokeSession_def dgraph_session_repo_def)
  next
    case (Some s)
    show ?thesis
    proof (cases "ses_UserID s = usr")
      case False
      then show ?thesis using assms(3) Inr x Some by (auto simp: RevokeSession_def dgraph_session_repo_def)
    next
      case True
      then have rv: "sr_Revoke (dgraph_session_repo dg) now sid db = (r, db')"
        using assms(3) Inr Some by (simp add: RevokeSession_def dgraph_session_repo_def)
      have "is_ok r \<Longrightarrow> session_view (graph db') = (session_view (graph db))(sid \<mapsto> revoked_at now s)"
        using session_repository.revoke_ok [OF S assms(2)] rv x Some by (cases r) auto
      moreover have "\<not> is_ok r \<Longrightarrow> store_error r"
        using session_repository.revoke_err [OF S assms(2)] rv by (cases r) auto
      ultimately show ?thesis using True x Some by metis
    qed
  qed
qed

theorem revoke_session_outcome_witness:
  "fst (RevokeSession ex_repo (1100 * second) ''0x1'' ''u2'' ex_db1) = Inl (Sentinel ErrSessionNotOwned) \<and>
   snd (RevokeSession ex_repo (1100 * second) ''0x1'' ''u2'' ex_db1) = ex_db1"
proof -
  have f: "fails_as (fst (RevokeSession ex_repo (1100 * second) ''0x1'' ''u2'' ex_db1)) ErrSessionNotOwned" by code_simp
  have u: "case session_view (mem_graph ex_db1) ''0x1'' of Some s \<Rightarrow> ses_UserID s \<noteq> ''u2'' | None \<Rightarrow> False" by code_simp
  from revoke_session_outcome [OF mem.dgraph_client_axioms ex_wf1, of "1100 * second" "''0x1''" "''u2''", OF prod.collapse [symmetric]]
  show ?thesis using fails_as_sentinel [OF f] u by (auto simp: ex_repo_def split: option.splits)
qed

text \<open>\<open>LogoutAll\<close>, when it succeeds, revokes every active session of the user and no other session.\<close>

theorem logout_all_exact:
  assumes "dgraph_client dg graph" "wf_graph (graph db)"
    and "LogoutAll (dgraph_session_repo dg) now usr db = (Inr x, db')"
  shows "dead_for_user usr (session_view (graph db')) \<and> dom (session_view (graph db')) = dom (session_view (graph db)) \<and>
    (\<forall>u s. session_view (graph db) u = Some s \<and> (ses_UserID s \<noteq> usr \<or> ses_Revoked s) \<longrightarrow>
       session_view (graph db') u = Some s)"
proof -
  note S = dgraph_client.dgraph_sessions [OF assms(1)]
  note r = assms(3) [unfolded LogoutAll_def]
  show ?thesis
    using session_repository.revoke_all_dead [OF S assms(2) r]
    by (auto simp: session_repository.revoke_all_ok [OF S assms(2) r])
qed

theorem logout_all_exact_witness:
  "dead_for_user ''u1'' (session_view (mem_graph (snd (LogoutAll ex_repo (1100 * second) ''u1'' ex_db1))))"
proof -
  have "is_ok (fst (LogoutAll ex_repo (1100 * second) ''u1'' ex_db1))" by code_simp
  then have "LogoutAll (dgraph_session_repo mem_dgraph) (1100 * second) ''u1'' ex_db1 =
      (Inr (), snd (LogoutAll ex_repo (1100 * second) ''u1'' ex_db1))"
    by (cases "LogoutAll ex_repo (1100 * second) ''u1'' ex_db1") (auto simp: is_ok_def ex_repo_def split: sum.splits)
  from logout_all_exact [OF mem.dgraph_client_axioms ex_wf1 this] show ?thesis by blast
qed

definition ex_service :: mem where
  "ex_service =
     [(''0xa'', ex_node '''' ''svc-a'' ''a'' 1001 (Some (1005, ''jti_x'')) ''ua'' ''ip''),
      (''0xb'', ex_node '''' ''svc-b'' ''b'' 1001 None ''ua'' ''ip'')]"

lemma ex_node_wf: "wf_node (node_of (ex_node usr client k c ret ua ip))"
  by (auto simp: wf_node_def ex_node_def node_of_def session_typed_def str_preds_def time_preds_def is_str_def
      is_time_def split: option.splits)

lemma wf_Cons: "wf_node n \<Longrightarrow> wf_graph g \<Longrightarrow> wf_graph (g(u := n))"
  by (auto simp: wf_graph_def)

lemma ex_wf_service: "wf_graph (mem_graph ex_service)"
  unfolding ex_service_def mem_graph_Cons by (intro wf_Cons ex_node_wf ex_wf0)

text \<open>A refresh replay on a service account's session revokes the active sessions of every service account:
  the bulk revocation is by user ID, which is empty for all of them.\<close>

theorem service_replay_revokes_all_services:
  assumes "dgraph_client dg graph" "wf_graph (graph db)"
    and "sole (session_view (graph db)) ses_RefreshTokenHash (Hash sha256 (rin_RawRefreshToken i)) u"
    and "session_view (graph db) u = Some s" "ses_RefreshTokenHash s = Hash sha256 (rin_RawRefreshToken i)"
    and "ses_Revoked s" "ses_UserID s = ''''"
    and "Refresh sha256 cfg (dgraph_session_repo dg) clk ent i db db db = (r, db')"
    and "session_view (graph db) v = Some other" "ses_UserID other = ''''"
  shows "store_error r \<or> \<not> is_ok (fst (SessionRepo_RevokeAllForUser dg (clk 0) '''' db)) \<or>
    r = Inl (Sentinel ErrRefreshReplayed) \<and>
    (\<exists>t. session_view (graph db') v = Some t \<and> ses_Revoked t)"
proof -
  note S = dgraph_client.dgraph_sessions [OF assms(1)]
  from session_repository.refresh_of_revoked [OF S assms(2-6), of cfg clk ent db db] assms(7,8)
  have c: "store_error r \<or> r = Inl (Sentinel ErrRefreshReplayed) \<and>
      db' = snd (SessionRepo_RevokeAllForUser dg (clk 0) '''' db)"
    by (auto simp: dgraph_session_repo_def)
  obtain y d where d: "SessionRepo_RevokeAllForUser dg (clk 0) '''' db = (y, d)"
    by (cases "SessionRepo_RevokeAllForUser dg (clk 0) '''' db")
  have "y = Inr x \<Longrightarrow> \<exists>t. session_view (graph d) v = Some t \<and> ses_Revoked t" for x
    using session_repository.revoke_all_ok [OF S assms(2), of "clk 0" "''''" x d] d assms(9,10)
    by (auto simp: dgraph_session_repo_def revoked_at_def)
  with c d show ?thesis by (cases y) auto
qed

theorem service_replay_revokes_all_services_witness:
  "\<exists>t. session_view (mem_graph (snd (ex_refresh ''n'' ''rtk_61'' ex_service ex_service))) ''0xb'' = Some t \<and> ses_Revoked t"
proof -
  let ?i = "\<lparr>rin_RawRefreshToken = ''rtk_61'', rin_UserAgent = '''', rin_IPAddress = ''''\<rparr>"
  let ?R = "ex_refresh ''n'' ''rtk_61'' ex_service ex_service"
  have so: "sole (session_view (mem_graph ex_service)) ses_RefreshTokenHash (Hash ex_sha ''rtk_61'') ''0xa''"
    by (rule mem_sole) code_simp
  have "case session_view (mem_graph ex_service) ''0xa'' of Some s \<Rightarrow> ses_UserID s = '''' \<and> ses_Revoked s \<and>
      ses_RefreshTokenHash s = Hash ex_sha ''rtk_61'' | None \<Rightarrow> False" by code_simp
  then obtain s where s: "session_view (mem_graph ex_service) ''0xa'' = Some s" "ses_RefreshTokenHash s = Hash ex_sha ''rtk_61''"
      "ses_Revoked s" "ses_UserID s = ''''"
    by (auto split: option.splits)
  have "case session_view (mem_graph ex_service) ''0xb'' of Some s \<Rightarrow> ses_UserID s = '''' | None \<Rightarrow> False" by code_simp
  then obtain t where t: "session_view (mem_graph ex_service) ''0xb'' = Some t" "ses_UserID t = ''''"
    by (auto split: option.splits)
  have f: "fails_as (fst ?R) ErrRefreshReplayed" by code_simp
  have ok: "is_ok (fst (SessionRepo_RevokeAllForUser mem_dgraph (ex_clk 0) '''' ex_service))" by code_simp
  show ?thesis
    using service_replay_revokes_all_services [OF mem.dgraph_client_axioms ex_wf_service, of ex_sha ?i "''0xa''" s
        ex_cfg ex_clk "ex_ent ''n''" "fst ?R" "snd ?R" "''0xb''" t, folded ex_repo_def] so s t ok fails_as_sentinel [OF f]
    by (simp add: ex_refresh_def)
qed

section \<open>Context activation, listing and clean-up\<close>

text \<open>A successful \<open>ActivateContext\<close> revokes the session it was called with and opens one for the same
  user with the new actor and permissions. The refresh window starts afresh (it is not carried over
  from the old session, as a rotation would), and user agent and address are dropped.\<close>

theorem activate_switches_context:
  assumes "dgraph_client dg graph" "wf_graph (graph db)"
    and "Session_ActivateContext sha256 cfg (dgraph_session_repo dg) clk ent raw a db = (Inr out, db')"
  shows "\<exists>u old s. session_view (graph db) u = Some old \<and> ses_AccessTokenHash old = Hash sha256 raw \<and>
      \<not> ses_Revoked old \<and> clk 0 \<le> ses_ExpiresAt old \<and>
      cso_Session out = Some s \<and> session_view (graph db) (ses_ID s) = None \<and>
      session_view (graph db') = (session_view (graph db))(u \<mapsto> revoked_at (clk 1) old, ses_ID s \<mapsto> s) \<and>
      ses_Kind s = ses_Kind old \<and> ses_UserID s = ses_UserID old \<and> ses_ClientID s = ses_ClientID old \<and>
      ses_ActorID s = act_ActorID a \<and> ses_ActorType s = act_ActorType a \<and>
      set (ses_Permissions s) = set (act_Perms a) \<and> ses_PermissionVersion s = act_PermVersion a \<and>
      ses_AccessTokenHash s = Hash sha256 (cso_AccessToken out) \<and>
      ses_RefreshExpiresAt s = trunc_sec (clk 2 + refreshTTL cfg) \<and>
      ses_UserAgent s = '''' \<and> ses_IPAddress s = ''''"
proof -
  note S = dgraph_client.dgraph_sessions [OF assms(1)]
  let ?V = "session_view (graph db)"
  obtain old s atk rtk jti where r: "?V (ses_ID old) = Some old" "ses_AccessTokenHash old = Hash sha256 raw"
      "\<not> ses_Revoked old" "clk 0 \<le> ses_ExpiresAt old" "mint sha256 ent = Inr (atk, rtk, jti)"
      "cso_Session out = Some s" "cso_AccessToken out = ot_Raw atk" "?V (ses_ID s) = None"
      "session_view (graph db') = ?V(ses_ID old \<mapsto> revoked_at (clk 1) old, ses_ID s \<mapsto> s)"
      "same_session s (new_session (ses_ID s) (clk 3) (create_input cfg (clk 2) atk rtk jti (activation_input a old)))"
    by (rule session_repository.activate_Inr [OF S assms(2,3)]) blast
  note same = same_sessionD [OF r(10)]
  show ?thesis
    using r(1-4,6-9) mint_hash [OF r(5)]
    by (intro exI [of _ "ses_ID old"] exI [of _ old] exI [of _ s])
      (simp add: same new_session_def create_input_def activation_input_def)
qed

definition ex_activation :: activation where
  "ex_activation = \<lparr>act_ActorID = ''act1'', act_ActorType = ''driver'', act_Perms = [''drive''],
     act_DelegPerms = [], act_PGroups = [], act_PermVersion = 1\<rparr>"

definition ex_activate :: "entropy \<Rightarrow> CreateSessionOutput res \<times> mem" where
  "ex_activate ent = Session_ActivateContext ex_sha ex_cfg ex_repo ex_clk ent ''atk_6b'' ex_activation ex_db1"

theorem activate_switches_context_witness:
  "\<exists>u s. session_view (mem_graph (snd (ex_activate (ex_ent ''q'')))) u = Some s \<and> ses_ActorID s = ''act1'' \<and>
     set (ses_Permissions s) = {''drive''}"
proof -
  have "case fst (ex_activate (ex_ent ''q'')) of Inr x \<Rightarrow> True | Inl e \<Rightarrow> False" by code_simp
  from okE [OF this] obtain out where
    "Session_ActivateContext ex_sha ex_cfg (dgraph_session_repo mem_dgraph) ex_clk (ex_ent ''q'') ''atk_6b'' ex_activation ex_db1 =
      (Inr out, snd (ex_activate (ex_ent ''q'')))"
    by (auto simp: ex_activate_def ex_repo_def)
  from activate_switches_context [OF mem.dgraph_client_axioms ex_wf1 this] obtain u s old where
    "session_view (mem_graph (snd (ex_activate (ex_ent ''q'')))) =
       (session_view (mem_graph ex_db1))(u \<mapsto> revoked_at (ex_clk 1) old, ses_ID s \<mapsto> s)"
    "ses_ActorID s = ''act1''" "set (ses_Permissions s) = {''drive''}"
    by (auto simp: ex_activation_def)
  then show ?thesis by (intro exI [of _ "ses_ID s"] exI [of _ s]) simp
qed

text \<open>Activation is not atomic: when the system cannot mint tokens (no entropy) after the old session was
  revoked, the call fails and the caller is left without any session for its token.\<close>

theorem activation_failure_logs_out:
  assumes "dgraph_client dg graph" "wf_graph (graph db)"
    and "lookupAndCheck sha256 (dgraph_session_repo dg) (clk 0) raw db = (Inr s, ts)"
    and "is_ok (fst (SessionRepo_Revoke dg (clk 1) (ses_ID s) db))" "\<not> is_ok (mint sha256 ent)"
    and "Session_ActivateContext sha256 cfg (dgraph_session_repo dg) clk ent raw a db = (r, db')"
  shows "\<not> is_ok r \<and> session_view (graph db') = (session_view (graph db))(ses_ID s \<mapsto> revoked_at (clk 1) s)"
proof -
  note S = dgraph_client.dgraph_sessions [OF assms(1)]
  obtain x d where d: "sr_Revoke (dgraph_session_repo dg) (clk 1) (ses_ID s) db = (Inr x, d)"
    using assms(4) by (cases "SessionRepo_Revoke dg (clk 1) (ses_ID s) db")
      (auto simp: is_ok_def dgraph_session_repo_def split: sum.splits)
  have g: "sr_GetByAccessHash (dgraph_session_repo dg) (Hash sha256 raw) db = Inr (Some s)" "Session_IsValid (clk 0) s"
    using assms(3) by (auto simp: lookupAndCheck_def split: sum.splits option.splits if_splits)
  obtain e where "mint sha256 ent = Inl e" using assms(5) by (cases "mint sha256 ent") auto
  then have "r = Inl e" "db' = d"
    using assms(6) d g by (auto simp: Session_ActivateContext_def Session_Create_def)
  then show ?thesis
    using session_repository.revoke_ok [OF S assms(2) d] session_repository.lookup_Inr(1) [OF S assms(2,3)] by simp
qed

definition ex_no_entropy :: entropy where
  "ex_no_entropy = \<lparr>ent_access = Inl (Foreign ''rand''), ent_refresh = Inr '''', ent_jti = Inr ''''\<rparr>"

theorem activation_failure_logs_out_witness:
  "\<exists>s. session_view (mem_graph (snd (ex_activate ex_no_entropy))) ''0x1'' = Some (revoked_at (ex_clk 1) s)"
proof -
  let ?L = "lookupAndCheck ex_sha ex_repo (ex_clk 0) ''atk_6b'' ex_db1"
  have "case fst ?L of Inr s \<Rightarrow> ses_ID s = ''0x1'' | Inl e \<Rightarrow> False" by code_simp
  from okE [OF this] obtain s where s: "?L = (Inr s, snd ?L)" "ses_ID s = ''0x1''" by blast
  have r: "is_ok (fst (SessionRepo_Revoke mem_dgraph (ex_clk 1) (ses_ID s) ex_db1))" unfolding s(2) by code_simp
  have m: "\<not> is_ok (mint ex_sha ex_no_entropy)" by code_simp
  from activation_failure_logs_out [OF mem.dgraph_client_axioms ex_wf1 s(1) [unfolded ex_repo_def] r m,
      where cfg = ex_cfg and a = ex_activation, OF prod.collapse [symmetric]] s(2)
  show ?thesis by (auto simp: ex_activate_def ex_repo_def)
qed

text \<open>\<open>ListSessions\<close> returns every active session of the user exactly once and nothing else, in ascending
  order of last activity (the comments of the interface and of the query promise descending).\<close>

theorem list_sessions_exact:
  assumes "dgraph_client dg graph" "wf_graph (graph db)"
    and "ListSessions (dgraph_session_repo dg) usr db = Inr ss"
  shows "distinct (map ses_ID ss) \<and> sorted (map ses_LastSeenAt ss) \<and>
    set ss = {s. \<exists>u. session_view (graph db) u = Some s \<and> ses_UserID s = usr \<and> \<not> ses_Revoked s}"
  using session_repository.list_ok [OF dgraph_client.dgraph_sessions [OF assms(1)] assms(2)] assms(3)
  by (simp add: ListSessions_def)

theorem list_sessions_exact_witness:
  "\<exists>s. session_view (mem_graph ex_db2) ''0x1111111'' = Some s \<and> \<not> ses_Revoked s"
proof -
  have w: "wf_graph (mem_graph ex_db2)"
    unfolding ex_db2_def mem_graph_Cons by (intro wf_Cons ex_node_wf ex_wf0)
  have "case ListSessions ex_repo ''u1'' ex_db2 of Inr [s] \<Rightarrow> ses_ID s = ''0x1111111'' | _ \<Rightarrow> False" by code_simp
  then obtain s where s: "ListSessions (dgraph_session_repo mem_dgraph) ''u1'' ex_db2 = Inr [s]" "ses_ID s = ''0x1111111''"
    by (auto simp: ex_repo_def split: sum.splits list.splits)
  from list_sessions_exact [OF mem.dgraph_client_axioms w s(1)] obtain u where
    "session_view (mem_graph ex_db2) u = Some s" "\<not> ses_Revoked s" by (auto simp: set_eq_iff)
  then show ?thesis using s(2) view_ID by metis
qed

text \<open>\<open>DeleteExpired\<close>, when it succeeds, removes exactly the sessions whose refresh window has closed (by the
  second), keeps every other session as it is, and returns how many it removed.\<close>

theorem delete_expired_exact:
  assumes "dgraph_client dg graph" "wf_graph (graph db)"
    and "SessionRepo_DeleteExpired dg now db = (Inr k, db')"
  shows "session_view (graph db') = (\<lambda>u. case session_view (graph db) u of None \<Rightarrow> None
      | Some s \<Rightarrow> if fmt_rfc3339 (ses_RefreshExpiresAt s) \<le> fmt_rfc3339 now then None else Some s) \<and>
    k = int (card (dom (session_view (graph db)) - dom (session_view (graph db'))))"
proof -
  note S = dgraph_client.dgraph_sessions [OF assms(1)]
  have "sr_DeleteExpired (dgraph_session_repo dg) now db = (Inr k, db')"
    using assms(3) by (simp add: dgraph_session_repo_def)
  note d = session_repository.delete_ok [OF S assms(2) this]
  have "dom (session_view (graph db)) - dom (session_view (graph db')) =
      {u. \<exists>s. session_view (graph db) u = Some s \<and> fmt_rfc3339 (ses_RefreshExpiresAt s) \<le> fmt_rfc3339 now}"
    unfolding conjunct2 [OF d] by (auto split: option.splits if_splits)
  with d show ?thesis by simp
qed

theorem delete_expired_exact_witness:
  "session_view (mem_graph (snd (SessionRepo_DeleteExpired mem_dgraph (3000000 * second) ex_db1))) ''0x1'' = None"
proof -
  let ?D = "SessionRepo_DeleteExpired mem_dgraph (3000000 * second) ex_db1"
  have "case fst ?D of Inr k \<Rightarrow> k = 1 | Inl e \<Rightarrow> False" by code_simp
  from okE [OF this] obtain k where k: "?D = (Inr k, snd ?D)" by blast
  have "case session_view (mem_graph ex_db1) ''0x1'' of None \<Rightarrow> False
      | Some s \<Rightarrow> fmt_rfc3339 (ses_RefreshExpiresAt s) \<le> fmt_rfc3339 (3000000 * second)" by code_simp
  then show ?thesis
    unfolding conjunct1 [OF delete_expired_exact [OF mem.dgraph_client_axioms ex_wf1 k]] by (auto split: option.splits)
qed

end
