(* ===== verification/Session_Runs.thy ===== *)
theory Session_Runs
  imports Session_Authz
begin

text \<open>
  The session service at work: requests, and the touch goroutines the lookups start, interleaved in
  any order. A state holds the database, the touches that still have to run, and the database states
  that requests in flight may have read (\<open>sys_past\<close>): a refresh looks its session up in one of
  them and its transaction reads another. Clocks and random bytes of every step are arbitrary.
  \<open>DeleteExpired\<close> is not a step: nothing in the program calls it.
\<close>

record 'db sys =
  sys_db :: 'db
  sys_past :: "'db list"
  sys_touch :: "string list"

definition moved :: "'db \<Rightarrow> 'db sys \<Rightarrow> 'db sys" where
  "moved db' st = st\<lparr>sys_db := db', sys_past := sys_db st # sys_past st\<rparr>"

definition seen_by :: "'db sys \<Rightarrow> 'db list" where
  "seen_by st = sys_db st # sys_past st"

inductive session_step ::
  "(string \<Rightarrow> string) \<Rightarrow> SessionConfig \<Rightarrow> 'db session_repo \<Rightarrow> 'db sys \<Rightarrow> 'db sys \<Rightarrow> bool"
  for sha256 cfg repo where
  create: "Session_Create sha256 cfg repo clk ent i (sys_db st) = (r, db') \<Longrightarrow>
    session_step sha256 cfg repo st (moved db' st)"
| verify: "lookupAndCheck sha256 repo now raw (sys_db st) = (r, ts) \<Longrightarrow>
    session_step sha256 cfg repo st (st\<lparr>sys_touch := sys_touch st @ ts\<rparr>)"
| touch: "sys_touch st = ts @ sid # ts' \<Longrightarrow>
    session_step sha256 cfg repo st (moved (run_touch repo now sid (sys_db st)) (st\<lparr>sys_touch := ts @ ts'\<rparr>))"
| touch_lost: "sys_touch st = ts @ sid # ts' \<Longrightarrow>
    session_step sha256 cfg repo st (st\<lparr>sys_touch := ts @ ts'\<rparr>)"
| refresh: "seen \<in> set (seen_by st) \<Longrightarrow> snap \<in> set (seen_by st) \<Longrightarrow>
    Refresh sha256 cfg repo clk ent i' seen snap (sys_db st) = (r', db') \<Longrightarrow>
    session_step sha256 cfg repo st (moved db' st)"
| logout: "Logout sha256 repo now raw (sys_db st) = (r'', db') \<Longrightarrow>
    session_step sha256 cfg repo st (moved db' st)"
| logout_all: "LogoutAll repo now usr (sys_db st) = (r'', db') \<Longrightarrow>
    session_step sha256 cfg repo st (moved db' st)"
| revoke: "RevokeSession repo now sid usr (sys_db st) = (r'', db') \<Longrightarrow>
    session_step sha256 cfg repo st (moved db' st)"
| activate: "Session_ActivateContext sha256 cfg repo clk ent raw a (sys_db st) = (r3, db') \<Longrightarrow>
    session_step sha256 cfg repo st (moved db' st)"

inductive_cases session_stepE: "session_step sha256 cfg repo st st'"

abbreviation session_run where
  "session_run sha256 cfg repo \<equiv> (session_step sha256 cfg repo)\<^sup>*\<^sup>*"

definition sys_inv :: "('db \<Rightarrow> bool) \<Rightarrow> 'db sys \<Rightarrow> bool" where
  "sys_inv ok st = (\<forall>db \<in> set (seen_by st). ok db)"

lemma sys_inv_moved: "sys_inv ok st \<Longrightarrow> ok db' \<Longrightarrow> sys_inv ok (moved db' st)"
  by (auto simp: sys_inv_def seen_by_def moved_def)

context session_repository
begin

lemma step_moves:
  assumes "session_step sha256 cfg repo st st'" "sys_inv inv st"
  shows "sys_inv inv st' \<and> evolves (sessions (sys_db st)) (sessions (sys_db st'))"
proof -
  have i: "inv (sys_db st)" using assms(2) by (simp add: sys_inv_def seen_by_def)
  have "(\<exists>db' ts. inv db' \<and> evolves (sessions (sys_db st)) (sessions db') \<and> st' = moved db' (st\<lparr>sys_touch := ts\<rparr>)) \<or>
      (\<exists>ts. st' = st\<lparr>sys_touch := ts\<rparr>)"
    using assms(1)
  proof cases
    case (create clk ent inp r db')
    then show ?thesis using create_any [OF i] by (metis sys.surjective sys.update_convs(3))
  next
    case (touch ts sid ts' now)
    then show ?thesis
      using touch_step [OF i, of now sid] by (auto simp: run_touch_def) (metis prod.collapse)
  next
    case (refresh seen snap clk ent i' r' db')
    then have "inv seen" "inv snap" using assms(2) by (auto simp: sys_inv_def)
    then show ?thesis using refresh refresh_any [OF _ _ i] by (metis sys.surjective sys.update_convs(3))
  next
    case (logout now raw r'' db')
    then show ?thesis using logout_any [OF i] by (metis sys.surjective sys.update_convs(3))
  next
    case (logout_all now usr r'' db')
    then show ?thesis using revoke_all_step [OF i] unfolding LogoutAll_def
      by (metis sys.surjective sys.update_convs(3))
  next
    case (revoke now sid usr r'' db')
    then show ?thesis using revoke_session_any [OF i] by (metis sys.surjective sys.update_convs(3))
  next
    case (activate clk ent raw a r3 db')
    then show ?thesis using activate_any [OF i] by (metis sys.surjective sys.update_convs(3))
  qed blast+
  then show ?thesis
    using assms(2) by (auto simp: sys_inv_def seen_by_def moved_def)
qed

lemma run_moves:
  assumes "session_run sha256 cfg repo st st'" "sys_inv inv st"
  shows "sys_inv inv st' \<and> evolves (sessions (sys_db st)) (sessions (sys_db st'))"
  using assms
proof (induction rule: rtranclp_induct)
  case (step st1 st2)
  then show ?case using step_moves [of sha256 cfg st1 st2] evolves_trans by blast
qed simp

end

lemma sys_inv_start: "ok db \<Longrightarrow> sys_inv ok \<lparr>sys_db = db, sys_past = [], sys_touch = ts\<rparr>"
  by (simp add: sys_inv_def seen_by_def)

text \<open>C10: Over any run of the service, whatever the interleaving and whichever calls fail: a stored session stays
  stored, never changes owner, actor, permissions, token hashes or expiry times, and once revoked it
  stays revoked.\<close>

theorem run_keeps_sessions:
  assumes "dgraph_client dg graph" "wf_graph (graph db)"
    and "session_run sha256 cfg (dgraph_session_repo dg) \<lparr>sys_db = db, sys_past = [], sys_touch = []\<rparr> st"
    and "session_view (graph db) u = Some s"
  shows "\<exists>t. session_view (graph (sys_db st)) u = Some t \<and> (ses_Revoked s \<longrightarrow> ses_Revoked t) \<and>
    t = s\<lparr>ses_Revoked := ses_Revoked t, ses_RevokedAt := ses_RevokedAt t,
          ses_ReplacedByJTI := ses_ReplacedByJTI t, ses_UpdatedAt := ses_UpdatedAt t,
          ses_LastSeenAt := ses_LastSeenAt t\<rparr>"
  using session_repository.run_moves [OF dgraph_client.dgraph_sessions [OF assms(1)] assms(3)] assms(2,4)
  by (auto simp: sys_inv_start evolves_def ages_def)

definition ex_start :: "mem sys" where
  "ex_start = \<lparr>sys_db = ex_db1, sys_past = [], sys_touch = []\<rparr>"

definition ex_end :: "mem sys" where
  "ex_end = moved (snd ex_logout) ex_start"

lemma ex_run: "session_run ex_sha ex_cfg ex_repo ex_start ex_end"
proof -
  have "Logout ex_sha ex_repo (1100 * second) ''atk_6b'' (sys_db ex_start) = (fst ex_logout, snd ex_logout)"
    by (simp add: ex_start_def ex_logout_def)
  then show ?thesis unfolding ex_end_def by (intro r_into_rtranclp session_step.logout)
qed

lemma ex_session1: "\<exists>s. session_view (mem_graph ex_db1) ''0x1'' = Some s \<and> ses_AccessTokenHash s = Hash ex_sha ''atk_6b''"
proof -
  have "case session_view (mem_graph ex_db1) ''0x1'' of Some s \<Rightarrow> ses_AccessTokenHash s = Hash ex_sha ''atk_6b''
      | None \<Rightarrow> False" by code_simp
  then show ?thesis by (auto split: option.splits)
qed

theorem run_keeps_sessions_witness:
  "\<exists>t. session_view (mem_graph (sys_db ex_end)) ''0x1'' = Some t \<and> ses_AccessTokenHash t = Hash ex_sha ''atk_6b''"
proof -
  obtain s where s: "session_view (mem_graph ex_db1) ''0x1'' = Some s" "ses_AccessTokenHash s = Hash ex_sha ''atk_6b''"
    using ex_session1 by blast
  from run_keeps_sessions [OF mem.dgraph_client_axioms ex_wf1 ex_run [unfolded ex_start_def ex_repo_def] s(1)]
  obtain t where t: "session_view (mem_graph (sys_db ex_end)) ''0x1'' = Some t"
    "t = s\<lparr>ses_Revoked := ses_Revoked t, ses_RevokedAt := ses_RevokedAt t,
          ses_ReplacedByJTI := ses_ReplacedByJTI t, ses_UpdatedAt := ses_UpdatedAt t,
          ses_LastSeenAt := ses_LastSeenAt t\<rparr>" by blast
  have "ses_AccessTokenHash t = Hash ex_sha ''atk_6b''" by (subst t(2)) (simp add: s(2))
  with t(1) show ?thesis by blast
qed

text \<open>C11: Revocation is final for the token: after a session was revoked, in no later state of any run does its
  access token verify, and its refresh token is only ever answered as a replay.\<close>

theorem revoked_never_verifies:
  assumes "dgraph_client dg graph" "wf_graph (graph db)"
    and "session_run sha256 cfg (dgraph_session_repo dg) \<lparr>sys_db = db, sys_past = [], sys_touch = []\<rparr> st"
    and "session_view (graph db) u = Some s" "ses_Revoked s"
    and "ses_AccessTokenHash s = Hash sha256 raw" "ses_RefreshTokenHash s = Hash sha256 (rin_RawRefreshToken i)"
    and "sole (session_view (graph (sys_db st))) ses_AccessTokenHash (Hash sha256 raw) u"
    and "sole (session_view (graph (sys_db st))) ses_RefreshTokenHash (Hash sha256 (rin_RawRefreshToken i)) u"
  shows "(store_error (fst (VerifyToken sha256 (dgraph_session_repo dg) now raw (sys_db st))) \<or>
      fst (VerifyToken sha256 (dgraph_session_repo dg) now raw (sys_db st)) = Inl (Sentinel ErrTokenInvalid)) \<and>
    (store_error (fst (Refresh sha256 cfg (dgraph_session_repo dg) clk ent i (sys_db st) snap cur)) \<or>
      fst (Refresh sha256 cfg (dgraph_session_repo dg) clk ent i (sys_db st) snap cur) = Inl (Sentinel ErrRefreshReplayed))"
proof -
  note S = dgraph_client.dgraph_sessions [OF assms(1)]
  have r: "sys_inv (\<lambda>db. wf_graph (graph db)) st \<and> evolves (session_view (graph db)) (session_view (graph (sys_db st)))"
    using session_repository.run_moves [OF S assms(3)] assms(2) by (simp add: sys_inv_start)
  then have wf: "wf_graph (graph (sys_db st))" by (simp add: sys_inv_def seen_by_def)
  from r assms(4) obtain t where t: "session_view (graph (sys_db st)) u = Some t" "ages s t"
    by (auto simp: evolves_def)
  have rv: "ses_Revoked t" "ses_AccessTokenHash t = Hash sha256 raw"
      "ses_RefreshTokenHash t = Hash sha256 (rin_RawRefreshToken i)"
    using agesD [OF t(2)] assms(5-7) by simp_all
  show ?thesis
    using session_repository.lookup_sole [OF S wf assms(8) t(1) rv(2), of now] rv(1)
      session_repository.refresh_of_revoked [OF S wf assms(9) t(1) rv(3,1), of cfg clk ent snap cur]
    by (auto simp: session_repository.verify_of_lookup [OF S])
qed

definition ex_dead :: mem where
  "ex_dead = [(''0x1'', ex_node ''u1'' '''' ''k'' 1001 (Some (1002, ''jti_6d'')) ''ua'' ''ip'')]"

theorem revoked_never_verifies_witness:
  "fst (VerifyToken ex_sha ex_repo (1100 * second) ''atk_6b'' ex_dead) = Inl (Sentinel ErrTokenInvalid)"
proof -
  have w: "wf_graph (mem_graph ex_dead)"
    unfolding ex_dead_def mem_graph_Cons by (intro wf_Cons ex_node_wf ex_wf0)
  let ?i = "\<lparr>rin_RawRefreshToken = ''rtk_6b'', rin_UserAgent = '''', rin_IPAddress = ''''\<rparr>"
  let ?st = "\<lparr>sys_db = ex_dead, sys_past = [], sys_touch = []\<rparr>"
  have run: "session_run ex_sha ex_cfg (dgraph_session_repo mem_dgraph) ?st ?st" by simp
  have "case session_view (mem_graph ex_dead) ''0x1'' of Some s \<Rightarrow> ses_Revoked s \<and>
      ses_AccessTokenHash s = Hash ex_sha ''atk_6b'' \<and> ses_RefreshTokenHash s = Hash ex_sha ''rtk_6b'' | None \<Rightarrow> False"
    by code_simp
  then obtain s where s: "session_view (mem_graph ex_dead) ''0x1'' = Some s" "ses_Revoked s"
      "ses_AccessTokenHash s = Hash ex_sha ''atk_6b''" "ses_RefreshTokenHash s = Hash ex_sha (rin_RawRefreshToken ?i)"
    by (auto split: option.splits)
  have a: "sole (session_view (mem_graph (sys_db ?st))) ses_AccessTokenHash (Hash ex_sha ''atk_6b'') ''0x1''"
    by (rule mem_sole) code_simp
  have b: "sole (session_view (mem_graph (sys_db ?st))) ses_RefreshTokenHash (Hash ex_sha (rin_RawRefreshToken ?i)) ''0x1''"
    by (rule mem_sole) code_simp
  have f: "fails_as (fst (VerifyToken ex_sha ex_repo (1100 * second) ''atk_6b'' ex_dead)) ErrTokenInvalid" by code_simp
  from revoked_never_verifies [OF mem.dgraph_client_axioms w run s a b, of "1100 * second"]
  show ?thesis using fails_as_sentinel [OF f] by (simp add: ex_repo_def)
qed

end
