(* ===== verification/Session_Spec.thy ===== *)
theory Session_Spec
  imports Session_Authz
begin

text \<open>
  What the session service (\<^verbatim>\<open>internal/service/session.go\<close>) promises, as operations on a table of sessions
  with no database, transactions or lookups in sight, and the simulation: any sequence of service calls
  that succeed on the Dgraph repository changes its session table as the specification says. The
  specification is nondeterministic where the store chooses (session ids, the order of
  permission lists).
\<close>

datatype session_call =
    CreateCall "nat \<Rightarrow> int" entropy CreateSessionInput
  | RefreshCall "nat \<Rightarrow> int" entropy RefreshInput
  | LogoutCall int string
  | LogoutAllCall int string
  | RevokeCall int string string
  | ActivateCall "nat \<Rightarrow> int" entropy string activation

inductive spec_call :: "(string \<Rightarrow> string) \<Rightarrow> SessionConfig \<Rightarrow> session_call \<Rightarrow> sessions \<Rightarrow> sessions \<Rightarrow> bool"
  for sha256 cfg where
  create: "mint sha256 ent = Inr (atk, rtk, jti) \<Longrightarrow> S u = None \<Longrightarrow>
    same_session s (new_session u (clk 1) (create_input cfg (clk 0) atk rtk jti i)) \<Longrightarrow>
    spec_call sha256 cfg (CreateCall clk ent i) S (S(u \<mapsto> s))"
| refresh: "mint sha256 ent = Inr (atk, rtk, jti) \<Longrightarrow> S u = Some old \<Longrightarrow>
    ses_RefreshTokenHash old = Hash sha256 (rin_RawRefreshToken r) \<Longrightarrow> \<not> ses_Revoked old \<Longrightarrow>
    clk 0 \<le> ses_RefreshExpiresAt old \<Longrightarrow> S v = None \<Longrightarrow>
    same_session s (new_session v (clk 2) (rotation_input (refresh_input cfg (clk 1) atk rtk jti r old) old)) \<Longrightarrow>
    spec_call sha256 cfg (RefreshCall clk ent r) S (S(u \<mapsto> rotated_away (clk 2) jti old, v \<mapsto> s))"
| logout: "S u = Some s \<Longrightarrow> ses_AccessTokenHash s = Hash sha256 raw \<Longrightarrow>
    spec_call sha256 cfg (LogoutCall now raw) S (S(u \<mapsto> revoked_at now s))"
| logout_unknown: "unused S ses_AccessTokenHash (Hash sha256 raw) \<Longrightarrow> spec_call sha256 cfg (LogoutCall now raw) S S"
| logout_all: "spec_call sha256 cfg (LogoutAllCall now usr) S
    (\<lambda>u. map_option (\<lambda>s. if ses_UserID s = usr \<and> \<not> ses_Revoked s then revoked_at now s else s) (S u))"
| revoke: "S sid = Some s \<Longrightarrow> ses_UserID s = usr \<Longrightarrow>
    spec_call sha256 cfg (RevokeCall now sid usr) S (S(sid \<mapsto> revoked_at now s))"
| activate: "mint sha256 ent = Inr (atk, rtk, jti) \<Longrightarrow> S u = Some old \<Longrightarrow> ses_AccessTokenHash old = Hash sha256 raw \<Longrightarrow>
    \<not> ses_Revoked old \<Longrightarrow> clk 0 \<le> ses_ExpiresAt old \<Longrightarrow> S v = None \<Longrightarrow>
    same_session s (new_session v (clk 3) (create_input cfg (clk 2) atk rtk jti (activation_input act old))) \<Longrightarrow>
    spec_call sha256 cfg (ActivateCall clk ent raw act) S (S(u \<mapsto> revoked_at (clk 1) old, v \<mapsto> s))"

inductive_simps spec_logout_simps: "spec_call sha256 cfg (LogoutCall now raw) S T"
inductive_simps spec_revoke_simps: "spec_call sha256 cfg (RevokeCall now sid usr) S T"

inductive spec_calls :: "(string \<Rightarrow> string) \<Rightarrow> SessionConfig \<Rightarrow> session_call list \<Rightarrow> sessions \<Rightarrow> sessions \<Rightarrow> bool"
  for sha256 cfg where
  none: "spec_calls sha256 cfg [] S S"
| one: "spec_call sha256 cfg c S T \<Longrightarrow> spec_calls sha256 cfg cs T U \<Longrightarrow> spec_calls sha256 cfg (c # cs) S U"

text \<open>The calls on a store, one after another: whether the call returned without an error, and the store.\<close>

fun perform ::
  "(string \<Rightarrow> string) \<Rightarrow> SessionConfig \<Rightarrow> 'db session_repo \<Rightarrow> session_call \<Rightarrow> 'db \<Rightarrow> bool \<times> 'db" where
  "perform sha256 cfg repo (CreateCall clk ent i) db = apfst is_ok (Session_Create sha256 cfg repo clk ent i db)"
| "perform sha256 cfg repo (RefreshCall clk ent r) db = apfst is_ok (Refresh sha256 cfg repo clk ent r db db db)"
| "perform sha256 cfg repo (LogoutCall now raw) db = apfst is_ok (Logout sha256 repo now raw db)"
| "perform sha256 cfg repo (LogoutAllCall now usr) db = apfst is_ok (LogoutAll repo now usr db)"
| "perform sha256 cfg repo (RevokeCall now sid usr) db = apfst is_ok (RevokeSession repo now sid usr db)"
| "perform sha256 cfg repo (ActivateCall clk ent raw act) db =
     apfst is_ok (Session_ActivateContext sha256 cfg repo clk ent raw act db)"

fun perform_all ::
  "(string \<Rightarrow> string) \<Rightarrow> SessionConfig \<Rightarrow> 'db session_repo \<Rightarrow> session_call list \<Rightarrow> 'db \<Rightarrow> bool \<times> 'db" where
  "perform_all sha256 cfg repo [] db = (True, db)"
| "perform_all sha256 cfg repo (c # cs) db =
     (case perform sha256 cfg repo c db of
        (ok, db') \<Rightarrow> if ok then perform_all sha256 cfg repo cs db' else (False, db'))"

lemma apfst_ok: "apfst is_ok p = (True, db) \<Longrightarrow> \<exists>x. p = (Inr x, db)"
  by (cases p; cases "fst p") (auto simp: is_ok_def)

lemma apfst_snd: "apfst f p = (x, db) \<Longrightarrow> \<exists>r. p = (r, db)"
  by (cases p) auto

context session_repository
begin

lemma perform_inv:
  assumes "inv db" "perform sha256 cfg repo c db = (ok, db')"
  shows "inv db'"
proof -
  note [dest] = apfst_snd
  show ?thesis
  proof (cases c)
    case (CreateCall clk ent i)
    then show ?thesis using assms create_any(1) [OF assms(1)] by auto
  next
    case (RefreshCall clk ent r)
    then show ?thesis using assms refresh_any [OF assms(1,1,1)] by auto
  next
    case (LogoutCall now raw)
    then show ?thesis using assms logout_any [OF assms(1)] by auto
  next
    case (LogoutAllCall now usr)
    then show ?thesis using assms revoke_all_step [OF assms(1)] by (auto simp: LogoutAll_def)
  next
    case (RevokeCall now sid usr)
    then show ?thesis using assms revoke_session_any [OF assms(1)] by auto
  next
    case (ActivateCall clk ent raw act)
    then show ?thesis using assms activate_any [OF assms(1)] by auto
  qed
qed

lemma logout_spec:
  assumes "inv db" "Logout sha256 repo now raw db = (Inr x, db')"
  shows "spec_call sha256 cfg (LogoutCall now raw) (sessions db) (sessions db')"
proof (cases "sr_GetByAccessHash repo (Hash sha256 raw) db")
  case (Inl e)
  then show ?thesis using assms(2) by (simp add: Logout_def)
next
  case (Inr r)
  show ?thesis
  proof (cases r)
    case None
    then have "unused (sessions db) ses_AccessTokenHash (Hash sha256 raw)" "db' = db"
      using access_none [OF assms(1)] Inr assms(2) by (auto simp: Logout_def unused_def)
    then show ?thesis by (simp add: spec_logout_simps)
  next
    case (Some s)
    then have "sr_Revoke repo now (ses_ID s) db = (Inr x, db')" "sessions db (ses_ID s) = Some s"
        "ses_AccessTokenHash s = Hash sha256 raw"
      using access_some [OF assms(1)] Inr assms(2) by (auto simp: Logout_def)
    then show ?thesis using revoke_ok [OF assms(1)] by (auto simp: spec_logout_simps)
  qed
qed

lemma revoke_spec:
  assumes "inv db" "RevokeSession repo now sid usr db = (Inr x, db')"
  shows "spec_call sha256 cfg (RevokeCall now sid usr) (sessions db) (sessions db')"
proof -
  obtain s where "sessions db sid = Some s" "ses_UserID s = usr" "sr_Revoke repo now sid db = (Inr x, db')"
    using assms by_id_ok by (fastforce simp: RevokeSession_def split: sum.splits option.splits if_splits)
  then show ?thesis using revoke_ok [OF assms(1)] by (auto simp: spec_revoke_simps)
qed

lemma perform_spec:
  assumes "inv db" "perform sha256 cfg repo c db = (True, db')"
  shows "spec_call sha256 cfg c (sessions db) (sessions db')"
proof (cases c)
  case (CreateCall clk ent i)
  with assms(2) obtain out where "Session_Create sha256 cfg repo clk ent i db = (Inr out, db')"
    using apfst_ok by fastforce
  then show ?thesis unfolding CreateCall
    by (rule create_session [OF assms(1)]) (simp only:, rule spec_call.create)
next
  case (RefreshCall clk ent r)
  with assms(2) obtain out where "Refresh sha256 cfg repo clk ent r db db db = (Inr out, db')"
    using apfst_ok by fastforce
  then show ?thesis unfolding RefreshCall
  proof (rule refresh_Inr [OF assms(1,1,1)])
    fix sess old cur s atk rtk jti
    assume r: "sessions db (ses_ID sess) = Some sess" "sessions db (ses_ID sess) = Some old"
      "sessions db (ses_ID sess) = Some cur" "ses_RefreshTokenHash sess = Hash sha256 (rin_RawRefreshToken r)"
      "\<not> ses_Revoked sess" "clk 0 \<le> ses_RefreshExpiresAt sess" "mint sha256 ent = Inr (atk, rtk, jti)"
      "sessions db (ses_ID s) = None"
      "same_session s (new_session (ses_ID s) (clk 2) (rotation_input (refresh_input cfg (clk 1) atk rtk jti r sess) old))"
      "sessions db' = (sessions db)(ses_ID sess \<mapsto> rotated_away (clk 2) jti cur, ses_ID s \<mapsto> s)"
    then have "old = sess" "cur = sess" by simp_all
    with r show "spec_call sha256 cfg (RefreshCall clk ent r) (sessions db) (sessions db')"
      by (simp only:) (rule spec_call.refresh)
  qed
next
  case (LogoutCall now raw)
  with assms(2) obtain x where "Logout sha256 repo now raw db = (Inr x, db')" using apfst_ok by fastforce
  then show ?thesis unfolding LogoutCall by (rule logout_spec [OF assms(1)])
next
  case (LogoutAllCall now usr)
  with assms(2) obtain x where "sr_RevokeAllForUser repo now usr db = (Inr x, db')"
    using apfst_ok by (fastforce simp: LogoutAll_def)
  then show ?thesis unfolding LogoutAllCall revoke_all_ok [OF assms(1)] by (simp add: revoke_all_ok [OF assms(1)] spec_call.logout_all)
next
  case (RevokeCall now sid usr)
  with assms(2) obtain x where "RevokeSession repo now sid usr db = (Inr x, db')" using apfst_ok by fastforce
  then show ?thesis unfolding RevokeCall by (rule revoke_spec [OF assms(1)])
next
  case (ActivateCall clk ent raw act)
  with assms(2) obtain out where "Session_ActivateContext sha256 cfg repo clk ent raw act db = (Inr out, db')"
    using apfst_ok by fastforce
  then show ?thesis unfolding ActivateCall
    by (rule activate_Inr [OF assms(1)]) (simp only:, rule spec_call.activate)
qed

lemma perform_all_spec:
  "inv db \<Longrightarrow> perform_all sha256 cfg repo cs db = (True, db') \<Longrightarrow>
     spec_calls sha256 cfg cs (sessions db) (sessions db')"
proof (induction cs arbitrary: db)
  case Nil
  then show ?case by (simp add: spec_calls.none)
next
  case (Cons c cs)
  then obtain d where d: "perform sha256 cfg repo c db = (True, d)" "perform_all sha256 cfg repo cs d = (True, db')"
    by (auto split: prod.splits if_splits)
  show ?case
    using perform_spec [OF Cons.prems(1) d(1)] Cons.IH [OF perform_inv [OF Cons.prems(1) d(1)] d(2)]
    by (rule spec_calls.one)
qed

end

text \<open>C4: The session service on Dgraph refines the specification: for every sequence of calls (creations,
  refreshes, logouts, revocations, activations) that all succeed, the stored session table goes through
  exactly the changes the abstract operations describe.\<close>

theorem service_refines_table:
  assumes "dgraph_client dg graph" "wf_graph (graph db)"
    and "perform_all sha256 cfg (dgraph_session_repo dg) cs db = (True, db')"
  shows "spec_calls sha256 cfg cs (session_view (graph db)) (session_view (graph db'))"
  using session_repository.perform_all_spec [OF dgraph_client.dgraph_sessions [OF assms(1)] assms(2,3)] .

theorem service_refines_table_witness:
  "spec_calls ex_sha ex_cfg [CreateCall ex_clk (ex_ent ''k'') (ex_in ''u1'' ''''), LogoutCall (1100 * second) ''atk_6b'']
     (session_view (mem_graph [])) (session_view (mem_graph (snd ex_logout)))"
proof -
  obtain out where "ex_create ''k'' ''u1'' '''' [] = (Inr out, ex_db1)" by (rule ex_create1)
  then have c: "perform ex_sha ex_cfg ex_repo (CreateCall ex_clk (ex_ent ''k'') (ex_in ''u1'' '''')) [] = (True, ex_db1)"
    by (simp add: ex_create_def)
  have "is_ok (fst ex_logout)" by code_simp
  then have "perform ex_sha ex_cfg ex_repo (LogoutCall (1100 * second) ''atk_6b'') ex_db1 = (True, snd ex_logout)"
    by (simp add: ex_logout_def prod_eq_iff)
  with c have "perform_all ex_sha ex_cfg (dgraph_session_repo mem_dgraph)
      [CreateCall ex_clk (ex_ent ''k'') (ex_in ''u1'' ''''), LogoutCall (1100 * second) ''atk_6b''] [] = (True, snd ex_logout)"
    by (simp add: ex_repo_def del: perform.simps)
  from service_refines_table [OF mem.dgraph_client_axioms ex_wf0 this] show ?thesis .
qed

end
