(* ===== verification/Json.thy ===== *)
theory Json
  imports Encoding
begin

text \<open>
  \<^verbatim>\<open>encoding/json\<close> as far as the program uses it: JSON values, \<^verbatim>\<open>Marshal\<close> (compact text, Go's
  escapes), \<^verbatim>\<open>Unmarshal\<close> and \<^verbatim>\<open>Decoder.Decode\<close>, and the rules by which an object fills a struct
  (\<^verbatim>\<open>DisallowUnknownFields\<close> on, field names matched without regard to case, \<^verbatim>\<open>null\<close> leaves a
  string alone). Numbers are integers: no struct of the program takes a number from a request, and the
  claims of a token hold whole seconds. The parser has the length of its input as fuel, which is enough
  because every nesting level consumes a character (\<open>Marshal_Unmarshal\<close>).
\<close>

datatype json = JNull | JBool bool | JInt int | JStr string | JArr "json list" | JObj "(string \<times> json) list"

section \<open>Printing\<close>

definition jhex :: "nat \<Rightarrow> string" where
  "jhex n = [CHR 0x5C, CHR ''u'', CHR ''0'', CHR ''0'', hex_digit (n div 16), hex_digit (n mod 16)]"

definition jescape :: "char \<Rightarrow> string" where
  "jescape c =
     (if c = CHR 0x22 \<or> c = CHR 0x5C then [CHR 0x5C, c]
      else if c = CHR 0x08 then [CHR 0x5C, CHR ''b'']
      else if c = CHR 0x0C then [CHR 0x5C, CHR ''f'']
      else if c = CHR 0x0A then [CHR 0x5C, CHR ''n'']
      else if c = CHR 0x0D then [CHR 0x5C, CHR ''r'']
      else if c = CHR 0x09 then [CHR 0x5C, CHR ''t'']
      else if byte c < 32 \<or> c = CHR ''<'' \<or> c = CHR ''>'' \<or> c = CHR ''&'' then jhex (byte c)
      else [c])"

definition jquote :: "string \<Rightarrow> string" where
  "jquote s = CHR 0x22 # concat (map jescape s) @ [CHR 0x22]"

fun digits_rev :: "nat \<Rightarrow> nat \<Rightarrow> string" where
  "digits_rev 0 n = []"
| "digits_rev (Suc k) n = char_of (48 + n mod 10) # (if n < 10 then [] else digits_rev k (n div 10))"

definition show_nat :: "nat \<Rightarrow> string" where \<comment> \<open>\<open>%d\<close>\<close>
  "show_nat n = rev (digits_rev (Suc n) n)"

definition show_int :: "int \<Rightarrow> string" where
  "show_int i = (if i < 0 then CHR ''-'' # show_nat (nat (- i)) else show_nat (nat i))"

fun Marshal :: "json \<Rightarrow> string" where
  "Marshal JNull = ''null''"
| "Marshal (JBool b) = (if b then ''true'' else ''false'')"
| "Marshal (JInt i) = show_int i"
| "Marshal (JStr s) = jquote s"
| "Marshal (JArr vs) = CHR ''['' # str_join '','' (map Marshal vs) @ '']''"
| "Marshal (JObj ms) = CHR ''{'' # str_join '','' (map (\<lambda>(k, v). jquote k @ CHR '':'' # Marshal v) ms) @ ''}''"

section \<open>Parsing\<close>

definition json_space :: "char \<Rightarrow> bool" where
  "json_space c = (c = CHR '' '' \<or> c = CHR 0x09 \<or> c = CHR 0x0A \<or> c = CHR 0x0D)"

abbreviation skip :: "string \<Rightarrow> string" where
  "skip s \<equiv> dropWhile json_space s"

definition hex_value :: "char \<Rightarrow> nat option" where
  "hex_value c =
     (if 48 \<le> byte c \<and> byte c \<le> 57 then Some (byte c - 48)
      else if 97 \<le> byte c \<and> byte c \<le> 102 then Some (byte c - 87)
      else if 65 \<le> byte c \<and> byte c \<le> 70 then Some (byte c - 55)
      else None)"

definition hex4 :: "char \<Rightarrow> char \<Rightarrow> char \<Rightarrow> char \<Rightarrow> nat option" where
  "hex4 a b c d =
     (case (hex_value a, hex_value b, hex_value c, hex_value d) of
        (Some i, Some j, Some k, Some l) \<Rightarrow> Some (((i * 16 + j) * 16 + k) * 16 + l)
      | _ \<Rightarrow> None)"

text \<open>A code point as UTF-8; a surrogate that is not part of a pair becomes U+FFFD.\<close>

definition utf8 :: "nat \<Rightarrow> string" where
  "utf8 n =
     (if n < 128 then [char_of n]
      else if n < 2048 then [char_of (192 + n div 64), char_of (128 + n mod 64)]
      else if 55296 \<le> n \<and> n < 57344 then [char_of (239 :: nat), char_of (191 :: nat), char_of (189 :: nat)]
      else if n < 65536 then [char_of (224 + n div 4096), char_of (128 + n div 64 mod 64), char_of (128 + n mod 64)]
      else [char_of (240 + n div 262144), char_of (128 + n div 4096 mod 64), char_of (128 + n div 64 mod 64),
            char_of (128 + n mod 64)])"

definition unescape :: "char \<Rightarrow> char option" where
  "unescape c =
     (if c = CHR 0x22 \<or> c = CHR 0x5C \<or> c = CHR ''/'' then Some c
      else if c = CHR ''b'' then Some (CHR 0x08)
      else if c = CHR ''f'' then Some (CHR 0x0C)
      else if c = CHR ''n'' then Some (CHR 0x0A)
      else if c = CHR ''r'' then Some (CHR 0x0D)
      else if c = CHR ''t'' then Some (CHR 0x09)
      else None)"

text \<open>The second half of a surrogate pair, if the input continues with one.\<close>

definition low_surrogate :: "string \<Rightarrow> nat option" where
  "low_surrogate s =
     (case s of a # b # w # x # y # z # _ \<Rightarrow>
        (if a = CHR 0x5C \<and> b = CHR ''u''
         then (case hex4 w x y z of Some l \<Rightarrow> if 56320 \<le> l \<and> l < 57344 then Some l else None | None \<Rightarrow> None)
         else None)
      | _ \<Rightarrow> None)"

definition prepend :: "string \<Rightarrow> (string \<times> string) option \<Rightarrow> (string \<times> string) option" where
  "prepend p r = (case r of None \<Rightarrow> None | Some (s, rest) \<Rightarrow> Some (p @ s, rest))"

lemma prepend_simps [simp]: "prepend p None = None" "prepend p (Some (s, r)) = Some (p @ s, r)"
  by (simp_all add: prepend_def)

fun jstring :: "string \<Rightarrow> (string \<times> string) option" where \<comment> \<open>after the opening quote\<close>
  "jstring [] = None"
| "jstring (c # cs) =
     (if c = CHR 0x22 then Some ([], cs)
      else if c = CHR 0x5C then
        (case cs of
           [] \<Rightarrow> None
         | e # ds \<Rightarrow>
             (if e = CHR ''u'' then
                (case ds of
                   w # x # y # z # fs \<Rightarrow>
                     (case hex4 w x y z of
                        None \<Rightarrow> None
                      | Some h \<Rightarrow>
                          (if 55296 \<le> h \<and> h < 56320 then
                             (case low_surrogate fs of
                                Some l \<Rightarrow> prepend (utf8 (65536 + (h - 55296) * 1024 + (l - 56320))) (jstring (drop 6 fs))
                              | None \<Rightarrow> prepend (utf8 h) (jstring fs))
                           else prepend (utf8 h) (jstring fs)))
                 | _ \<Rightarrow> None)
              else (case unescape e of None \<Rightarrow> None | Some x \<Rightarrow> prepend [x] (jstring ds))))
      else if byte c < 32 then None
      else prepend [c] (jstring cs))"

definition is_dec :: "char \<Rightarrow> bool" where
  "is_dec c = (48 \<le> byte c \<and> byte c \<le> 57)"

definition digit_val :: "char \<Rightarrow> nat" where
  "digit_val c = byte c - 48"

definition read_nat :: "string \<Rightarrow> nat" where
  "read_nat ds = foldl (\<lambda>n c. n * 10 + digit_val c) 0 ds"

definition jnumber :: "string \<Rightarrow> (json \<times> string) option" where
  "jnumber s =
     (let neg = (s \<noteq> [] \<and> hd s = CHR ''-'');
          t = (if neg then tl s else s);
          ds = takeWhile is_dec t; rest = dropWhile is_dec t in
      if ds = [] \<or> (hd ds = CHR ''0'' \<and> length ds > 1) then None
      else if rest \<noteq> [] \<and> List.member ''.eE'' (hd rest) then None
      else Some (JInt (if neg then - int (read_nat ds) else int (read_nat ds)), rest))"

fun jvalue :: "nat \<Rightarrow> string \<Rightarrow> (json \<times> string) option"
  and jelems :: "nat \<Rightarrow> string \<Rightarrow> (json list \<times> string) option"
  and jmembers :: "nat \<Rightarrow> string \<Rightarrow> ((string \<times> json) list \<times> string) option" where
  "jvalue 0 s = None"
| "jvalue (Suc n) s =
     (case skip s of
        [] \<Rightarrow> None
      | c # cs \<Rightarrow>
          (if c = CHR 0x22 then (case jstring cs of None \<Rightarrow> None | Some (x, r) \<Rightarrow> Some (JStr x, r))
           else if c = CHR ''['' then
             (if skip cs \<noteq> [] \<and> hd (skip cs) = CHR '']'' then Some (JArr [], tl (skip cs))
              else case jelems n cs of None \<Rightarrow> None | Some (vs, r) \<Rightarrow> Some (JArr vs, r))
           else if c = CHR ''{'' then
             (if skip cs \<noteq> [] \<and> hd (skip cs) = CHR ''}'' then Some (JObj [], tl (skip cs))
              else case jmembers n cs of None \<Rightarrow> None | Some (ms, r) \<Rightarrow> Some (JObj ms, r))
           else if has_prefix (c # cs) ''null'' then Some (JNull, drop 4 (c # cs))
           else if has_prefix (c # cs) ''true'' then Some (JBool True, drop 4 (c # cs))
           else if has_prefix (c # cs) ''false'' then Some (JBool False, drop 5 (c # cs))
           else jnumber (c # cs)))"
| "jelems 0 s = None"
| "jelems (Suc n) s =
     (case jvalue n s of
        None \<Rightarrow> None
      | Some (v, r) \<Rightarrow>
          (case skip r of
             [] \<Rightarrow> None
           | c # cs \<Rightarrow>
               (if c = CHR '','' then (case jelems n cs of None \<Rightarrow> None | Some (vs, r') \<Rightarrow> Some (v # vs, r'))
                else if c = CHR '']'' then Some ([v], cs) else None)))"
| "jmembers 0 s = None"
| "jmembers (Suc n) s =
     (case skip s of
        [] \<Rightarrow> None
      | q # qs \<Rightarrow>
          (if q \<noteq> CHR 0x22 then None
           else case jstring qs of
             None \<Rightarrow> None
           | Some (k, r) \<Rightarrow>
               (case skip r of
                  [] \<Rightarrow> None
                | d # ds \<Rightarrow>
                    (if d \<noteq> CHR '':'' then None
                     else case jvalue n ds of
                       None \<Rightarrow> None
                     | Some (v, r2) \<Rightarrow>
                         (case skip r2 of
                            [] \<Rightarrow> None
                          | c # cs \<Rightarrow>
                              (if c = CHR '','' then
                                 (case jmembers n cs of None \<Rightarrow> None | Some (ms, r3) \<Rightarrow> Some ((k, v) # ms, r3))
                               else if c = CHR ''}'' then Some ([(k, v)], cs) else None))))))"

definition Unmarshal :: "string \<Rightarrow> json option" where \<comment> \<open>one value, nothing but space behind it\<close>
  "Unmarshal s =
     (case jvalue (Suc (length s)) s of None \<Rightarrow> None | Some (v, r) \<Rightarrow> if skip r = [] then Some v else None)"

definition Decode :: "string \<Rightarrow> json option" where \<comment> \<open>the first value of a stream\<close>
  "Decode s = (case jvalue (Suc (length s)) s of None \<Rightarrow> None | Some (v, r) \<Rightarrow> Some v)"

section \<open>Filling a struct\<close>

definition fold_eq :: "string \<Rightarrow> string \<Rightarrow> bool" where
  "fold_eq a b = (to_lower a = to_lower b)"

fun fill :: "(string \<Rightarrow> json \<Rightarrow> 'a \<Rightarrow> 'a option) \<Rightarrow> (string \<times> json) list \<Rightarrow> 'a \<Rightarrow> 'a option" where
  "fill f [] x = Some x"
| "fill f ((k, v) # ms) x = (case f k v x of None \<Rightarrow> None | Some y \<Rightarrow> fill f ms y)"

definition into_struct :: "(string \<Rightarrow> json \<Rightarrow> 'a \<Rightarrow> 'a option) \<Rightarrow> 'a \<Rightarrow> json \<Rightarrow> 'a option" where
  "into_struct f zero j = (case j of JObj ms \<Rightarrow> fill f ms zero | JNull \<Rightarrow> Some zero | _ \<Rightarrow> None)"

definition to_str :: "json \<Rightarrow> (string \<Rightarrow> 'a) \<Rightarrow> 'a \<Rightarrow> 'a option" where
  "to_str j f x = (case j of JStr s \<Rightarrow> Some (f s) | JNull \<Rightarrow> Some x | _ \<Rightarrow> None)"

definition to_strptr :: "json \<Rightarrow> (string option \<Rightarrow> 'a) \<Rightarrow> 'a option" where
  "to_strptr j f = (case j of JStr s \<Rightarrow> Some (f (Some s)) | JNull \<Rightarrow> Some (f None) | _ \<Rightarrow> None)"

definition elem_str :: "json \<Rightarrow> string option" where
  "elem_str j = (case j of JStr s \<Rightarrow> Some s | JNull \<Rightarrow> Some '''' | _ \<Rightarrow> None)"

definition to_strs :: "json \<Rightarrow> (string list \<Rightarrow> 'a) \<Rightarrow> 'a option" where
  "to_strs j f =
     (case j of JArr vs \<Rightarrow> map_option f (those (map elem_str vs)) | JNull \<Rightarrow> Some (f []) | _ \<Rightarrow> None)"

section \<open>Round trip\<close>

lemma hex_value_digit: "n < 16 \<Longrightarrow> hex_value (hex_digit n) = Some n"
proof -
  have "list_all (\<lambda>n. hex_value (hex_digit n) = Some n) [0..<16]" by code_simp
  then show "n < 16 \<Longrightarrow> hex_value (hex_digit n) = Some n" by (simp add: list_all_iff)
qed

lemma jstring_jhex:
  assumes "byte c < 128"
  shows "jstring (jhex (byte c) @ s) = prepend [c] (jstring s)"
proof -
  have "hex_value (CHR ''0'') = Some 0" by (simp add: hex_value_def byte_def)
  then have "hex4 (CHR ''0'') (CHR ''0'') (hex_digit (byte c div 16)) (hex_digit (byte c mod 16)) = Some (byte c)"
    using assms by (simp add: hex4_def hex_value_digit less_mult_imp_div_less)
  then show ?thesis using assms by (simp add: jhex_def utf8_def)
qed

lemma jescape_ok: "jstring (jescape c @ s) = prepend [c] (jstring s)"
proof (cases "byte c < 32 \<or> c = CHR ''<'' \<or> c = CHR ''>'' \<or> c = CHR ''&''")
  case True
  then have b: "byte c < 128" and q: "c \<noteq> CHR 0x22" "c \<noteq> CHR 0x5C" by (auto simp: byte_def)
  have "c = CHR 0x08 \<or> c = CHR 0x0C \<or> c = CHR 0x0A \<or> c = CHR 0x0D \<or> c = CHR 0x09 \<or> jescape c = jhex (byte c)"
    using True q by (auto simp: jescape_def)
  then show ?thesis
    by (elim disjE) (simp_all add: jstring_jhex [OF b], simp_all add: jescape_def unescape_def)
next
  case False
  then show ?thesis by (auto simp: jescape_def unescape_def)
qed

lemma jstring_escaped: "jstring (concat (map jescape s) @ CHR 0x22 # r) = Some (s, r)"
  by (induction s) (simp_all add: jescape_ok)

lemma jquote_app: "jquote s @ r = CHR 0x22 # concat (map jescape s) @ CHR 0x22 # r"
  by (simp add: jquote_def)

lemma read_nat_snoc: "read_nat (ds @ [d]) = read_nat ds * 10 + digit_val d"
  by (simp add: read_nat_def)

lemma digit_char: "n < 10 \<Longrightarrow> is_dec (char_of (48 + n)) \<and> digit_val (char_of (48 + n)) = n"
  by (simp add: is_dec_def digit_val_def)

lemma digits_rev_ok:
  "n < k \<Longrightarrow> digits_rev k n \<noteq> [] \<and> (\<forall>c \<in> set (digits_rev k n). is_dec c) \<and>
     read_nat (rev (digits_rev k n)) = n \<and> (last (digits_rev k n) = CHR ''0'' \<longrightarrow> n = 0)"
proof (induction k arbitrary: n)
  case (Suc k)
  have m: "n mod 10 < 10" by simp
  note d = digit_char [OF m]
  show ?case
  proof (cases "n < 10")
    case True
    have z: "digit_val (CHR ''0'') = 0" by (simp add: digit_val_def byte_def)
    have "char_of (48 + n) = CHR ''0'' \<Longrightarrow> n = 0" using digit_char [OF True] z by metis
    with True d show ?thesis by (simp add: read_nat_def)
  next
    case False
    then have "n div 10 < k" using Suc.prems by simp
    from Suc.IH [OF this] False d show ?thesis
      by (auto simp: read_nat_snoc)
  qed
qed simp

lemma show_nat_ok:
  "show_nat n \<noteq> []" "\<forall>c \<in> set (show_nat n). is_dec c" "read_nat (show_nat n) = n"
  "hd (show_nat n) = CHR ''0'' \<Longrightarrow> length (show_nat n) \<le> 1"
proof -
  note d = digits_rev_ok [of n "Suc n"]
  show "show_nat n \<noteq> []" "\<forall>c \<in> set (show_nat n). is_dec c" "read_nat (show_nat n) = n"
    using d by (simp_all add: show_nat_def del: digits_rev.simps)
  assume "hd (show_nat n) = CHR ''0''"
  then have "n = 0" using d by (simp add: show_nat_def hd_rev del: digits_rev.simps)
  then show "length (show_nat n) \<le> 1" by (simp add: show_nat_def)
qed

definition number_end :: "string \<Rightarrow> bool" where
  "number_end r = (r = [] \<or> \<not> is_dec (hd r) \<and> \<not> List.member ''.eE'' (hd r))"

lemma jnumber_nat:
  assumes "number_end r"
  shows "takeWhile is_dec (show_nat n @ r) = show_nat n" "dropWhile is_dec (show_nat n @ r) = r"
  using show_nat_ok(2) [of n] assms by (auto simp: number_end_def takeWhile_append dropWhile_append3 dropWhile_append
      hd_conv_nth takeWhile_eq_Nil_iff dropWhile_eq_self_iff)

lemma jnumber_show:
  assumes "number_end r"
  shows "jnumber (show_int i @ r) = Some (JInt i, r)"
proof -
  have e: "r \<noteq> [] \<Longrightarrow> \<not> List.member ''.eE'' (hd r)" using assms by (auto simp: number_end_def)
  have z: "\<not> (hd (show_nat n) = CHR ''0'' \<and> Suc 0 < length (show_nat n))" for n
    using show_nat_ok(4) [of n] by auto
  have m: "\<not> (show_nat n @ r \<noteq> [] \<and> hd (show_nat n @ r) = CHR ''-'')" for n
    using show_nat_ok(1,2) [of n] by (cases "show_nat n") (auto simp: is_dec_def byte_def)
  show ?thesis
  proof (cases "i < 0")
    case True
    then show ?thesis using e z
      by (auto simp: show_int_def jnumber_def Let_def jnumber_nat [OF assms] show_nat_ok)
  next
    case False
    then show ?thesis using e z m
      by (auto simp: show_int_def jnumber_def Let_def jnumber_nat [OF assms] show_nat_ok)
  qed
qed

lemma dec_chars: "c = CHR ''-'' \<or> is_dec c \<Longrightarrow>
    \<not> json_space c \<and> c \<notin> {CHR 0x22, CHR ''['', CHR ''{'', CHR '']'', CHR ''}'', CHR ''n'', CHR ''t'', CHR ''f''}"
  by (auto simp: is_dec_def byte_def json_space_def)

lemma show_int_hd: "\<exists>c t. show_int i = c # t \<and> (c = CHR ''-'' \<or> is_dec c)"
proof (cases "i < 0")
  case False
  have "show_nat (nat i) \<noteq> []" "\<forall>c \<in> set (show_nat (nat i)). is_dec c" by (fact show_nat_ok)+
  with False show ?thesis by (cases "show_nat (nat i)") (auto simp: show_int_def)
qed (simp add: show_int_def)

text \<open>What a printed value starts with.\<close>

lemma Marshal_hd:
  obtains c t where "Marshal j = c # t" "\<not> json_space c" "c \<noteq> CHR '']''" "c \<noteq> CHR ''}''"
proof -
  have "\<exists>c t. Marshal j = c # t \<and> \<not> json_space c \<and> c \<noteq> CHR '']'' \<and> c \<noteq> CHR ''}''"
  proof (cases j)
    case (JInt i)
    obtain c t where "show_int i = c # t" "c = CHR ''-'' \<or> is_dec c" using show_int_hd by blast
    with dec_chars [of c] JInt show ?thesis by auto
  qed (simp_all add: json_space_def jquote_def)
  then show ?thesis using that by blast
qed

lemma skip_Marshal [simp]: "skip (Marshal j @ r) = Marshal j @ r"
  by (rule Marshal_hd [of j]) simp

definition reads :: "json \<Rightarrow> bool" where
  "reads j = (\<forall>n r. length (Marshal j) \<le> n \<longrightarrow> number_end r \<longrightarrow> jvalue n (Marshal j @ r) = Some (j, r))"

lemma number_end_simps [simp]:
  "number_end (CHR '','' # r)" "number_end (CHR '']'' # r)" "number_end (CHR ''}'' # r)" "number_end []"
  by (simp_all add: number_end_def is_dec_def byte_def)

lemma json_space_simps [simp]:
  "\<not> json_space (CHR '','')" "\<not> json_space (CHR '']'')" "\<not> json_space (CHR ''}'')" "\<not> json_space (CHR '':'')"
  "\<not> json_space (CHR ''['')" "\<not> json_space (CHR ''{'')" "\<not> json_space (CHR 0x22)"
  by (simp_all add: json_space_def)

lemma jelems_join:
  "\<forall>v \<in> set vs. reads v \<Longrightarrow> vs \<noteq> [] \<Longrightarrow> Suc (length (str_join '','' (map Marshal vs))) \<le> n \<Longrightarrow>
     jelems n (str_join '','' (map Marshal vs) @ CHR '']'' # r) = Some (vs, r)"
proof (induction vs arbitrary: n)
  case (Cons v vs)
  then obtain m where n: "n = Suc m" by (cases n) auto
  show ?case
  proof (cases vs)
    case Nil
    have "length (Marshal v) \<le> m" using Cons.prems(3) by (simp add: Nil n)
    then have "jvalue m (Marshal v @ CHR '']'' # r) = Some (v, CHR '']'' # r)"
      using Cons.prems(1) by (simp add: reads_def)
    then show ?thesis by (simp add: Nil n)
  next
    case (Cons w ws)
    let ?s = "str_join '','' (map Marshal vs)"
    have len: "length (Marshal v) \<le> m" "Suc (length ?s) \<le> m"
      using Cons.prems(3) by (simp_all add: Cons n)
    have "jvalue m (Marshal v @ CHR '','' # ?s @ CHR '']'' # r) = Some (v, CHR '','' # ?s @ CHR '']'' # r)"
      using Cons.prems(1) len(1) by (simp add: reads_def)
    moreover have "jelems m (?s @ CHR '']'' # r) = Some (vs, r)"
      using Cons.IH [of m] Cons.prems(1) len(2) Cons by simp
    ultimately show ?thesis by (simp add: Cons n)
  qed
qed simp

abbreviation member_text :: "string \<times> json \<Rightarrow> string" where
  "member_text \<equiv> \<lambda>(k, v). jquote k @ CHR '':'' # Marshal v"

lemma jmembers_join:
  "\<forall>m \<in> set ms. reads (snd m) \<Longrightarrow> ms \<noteq> [] \<Longrightarrow> Suc (length (str_join '','' (map member_text ms))) \<le> n \<Longrightarrow>
     jmembers n (str_join '','' (map member_text ms) @ CHR ''}'' # r) = Some (ms, r)"
proof (induction ms arbitrary: n)
  case (Cons kv ms)
  then obtain m where n: "n = Suc m" by (cases n) auto
  obtain k v where kv: "kv = (k, v)" by (cases kv)
  have js: "jstring (concat (map jescape k) @ CHR 0x22 # x) = Some (k, x)" for x by (rule jstring_escaped)
  show ?case
  proof (cases ms)
    case Nil
    have "length (Marshal v) \<le> m" using Cons.prems(3) by (simp add: Nil n kv)
    then have "jvalue m (Marshal v @ CHR ''}'' # r) = Some (v, CHR ''}'' # r)"
      using Cons.prems(1) by (simp add: reads_def kv)
    then show ?thesis by (simp add: Nil n kv jquote_app js)
  next
    case (Cons w ws)
    let ?s = "str_join '','' (map member_text ms)"
    have len: "length (Marshal v) \<le> m" "Suc (length ?s) \<le> m"
      using Cons.prems(3) by (simp_all add: Cons n kv)
    have "jvalue m (Marshal v @ CHR '','' # ?s @ CHR ''}'' # r) = Some (v, CHR '','' # ?s @ CHR ''}'' # r)"
      using Cons.prems(1) len(1) by (simp add: reads_def kv)
    moreover have "jmembers m (?s @ CHR ''}'' # r) = Some (ms, r)"
      using Cons.IH [of m] Cons.prems(1) len(2) Cons by simp
    ultimately show ?thesis by (simp add: Cons n kv jquote_app js)
  qed
qed simp

lemma str_join_hd: "x # xs \<noteq> [] \<Longrightarrow> x = c # t \<Longrightarrow> \<exists>u. str_join sep (x # xs) = c # u"
  by (cases xs) auto

lemma reads_all: "reads j"
proof (induction j)
  case (JArr vs)
  show ?case unfolding reads_def
  proof (intro allI impI)
    fix n r
    assume len: "length (Marshal (JArr vs)) \<le> n"
    then obtain m where n: "n = Suc m" by (cases n) auto
    show "jvalue n (Marshal (JArr vs) @ r) = Some (JArr vs, r)"
    proof (cases vs)
      case Nil
      then show ?thesis by (simp add: n)
    next
      case (Cons v ws)
      let ?s = "str_join '','' (map Marshal vs)"
      obtain c t where c: "Marshal v = c # t" "\<not> json_space c" "c \<noteq> CHR '']''" by (rule Marshal_hd)
      then obtain u where u: "?s = c # u" using str_join_hd [of "Marshal v" "map Marshal ws" c t] Cons by auto
      have "jelems m (?s @ CHR '']'' # r) = Some (vs, r)"
        using JArr len by (intro jelems_join) (auto simp: n Cons)
      then show ?thesis using c u by (simp add: n)
    qed
  qed
next
  case (JObj ms)
  show ?case unfolding reads_def
  proof (intro allI impI)
    fix n r
    assume len: "length (Marshal (JObj ms)) \<le> n"
    then obtain m where n: "n = Suc m" by (cases n) auto
    show "jvalue n (Marshal (JObj ms) @ r) = Some (JObj ms, r)"
    proof (cases ms)
      case Nil
      then show ?thesis by (simp add: n)
    next
      case (Cons kv ws)
      let ?s = "str_join '','' (map member_text ms)"
      have "\<exists>t. member_text kv = CHR 0x22 # t" by (cases kv) (simp add: jquote_def)
      then obtain t where t: "member_text kv = CHR 0x22 # t" by blast
      obtain u where u: "?s = CHR 0x22 # u"
        using str_join_hd [OF _ t, of "map member_text ws" "'',''"] Cons by auto
      have "\<forall>m \<in> set ms. reads (snd m)" using JObj by (auto intro: snds.intros)
      then have "jmembers m (?s @ CHR ''}'' # r) = Some (ms, r)"
        using len by (intro jmembers_join) (auto simp: n Cons)
      then show ?thesis using u by (simp add: n)
    qed
  qed
next
  case (JInt i)
  show ?case unfolding reads_def
  proof (intro allI impI)
    fix n r
    assume len: "length (Marshal (JInt i)) \<le> n" and r: "number_end r"
    obtain c t where c: "show_int i = c # t" "c = CHR ''-'' \<or> is_dec c" using show_int_hd by blast
    then obtain m where n: "n = Suc m" using len by (cases n) auto
    from dec_chars [OF c(2)] show "jvalue n (Marshal (JInt i) @ r) = Some (JInt i, r)"
      using jnumber_show [OF r, of i] c(1) by (simp add: n has_prefix_def)
  qed
next
  case (JStr s)
  show ?case unfolding reads_def
  proof (intro allI impI)
    fix n r
    assume "length (Marshal (JStr s)) \<le> n"
    then obtain m where n: "n = Suc m" by (cases n) (auto simp: jquote_def)
    show "jvalue n (Marshal (JStr s) @ r) = Some (JStr s, r)"
      by (simp add: n jquote_app jstring_escaped)
  qed
next
  case JNull
  have "jvalue (Suc m) (Marshal JNull @ r) = Some (JNull, r)" for m r
    by (simp add: has_prefix_def json_space_def)
  then show ?case by (auto simp: reads_def dest!: Suc_le_D)
next
  case (JBool b)
  have "jvalue (Suc m) (Marshal (JBool b) @ r) = Some (JBool b, r)" for m r
    by (simp add: has_prefix_def json_space_def)
  then show ?case by (auto simp: reads_def dest!: Suc_le_D)
qed

lemma Marshal_Unmarshal [simp]: "Unmarshal (Marshal j) = Some j"
proof -
  have "jvalue (Suc (length (Marshal j))) (Marshal j @ []) = Some (j, [])"
    using reads_all [of j] unfolding reads_def by (meson le_SucI number_end_simps(4) order_refl)
  then show ?thesis by (simp add: Unmarshal_def del: jvalue.simps)
qed

end
