(* ===== verification/Nquads.thy ===== *)
theory Nquads
  imports Json
begin

text \<open>
  The text of mutations. \<^verbatim>\<open>internal/repository/dgraph/session.go\<close> writes N-Quads with \<^verbatim>\<open>fmt.Sprintf\<close> and quotes
  every value with \<^verbatim>\<open>%q\<close>: here are \<^verbatim>\<open>strconv.Quote\<close> and the decoder of UTF-8 it uses, and a reader of
  N-Quads after the W3C grammar, which knows fewer escapes. Reading a quoted string gives the string back,
  or fails; it never ends early.
\<close>

section \<open>UTF-8\<close>

definition RuneError :: nat where
  "RuneError = 65533"

definition tail_len :: "nat \<Rightarrow> nat" where \<comment> \<open>how many bytes follow a leading byte; 0 if it is none\<close>
  "tail_len x = (if 194 \<le> x \<and> x < 224 then 1 else if 224 \<le> x \<and> x < 240 then 2 else if 240 \<le> x \<and> x < 245 then 3 else 0)"

definition second_ok :: "nat \<Rightarrow> nat \<Rightarrow> bool" where \<comment> \<open>the accepted range of the second byte\<close>
  "second_ok x b =
     ((if x = 224 then 160 else if x = 240 then 144 else 128) \<le> b \<and>
      b \<le> (if x = 237 then 159 else if x = 244 then 143 else 191))"

text \<open>The first rune and its width; an invalid byte is \<open>RuneError\<close> of width 1.\<close>

fun DecodeRune :: "string \<Rightarrow> nat \<times> nat" where
  "DecodeRune [] = (RuneError, 0)"
| "DecodeRune (a # s) =
     (let x = byte a; n = tail_len x; bs = map byte (take n s) in
      if x < 128 then (x, 1)
      else if n = 0 \<or> length s < n \<or> \<not> second_ok x (hd bs) \<or> list_ex (\<lambda>b. b < 128 \<or> 192 \<le> b) (tl bs) then (RuneError, 1)
      else (foldl (\<lambda>r b. r * 64 + (b - 128)) (x - (if n = 1 then 192 else if n = 2 then 224 else 240)) bs, Suc n))"

definition ValidRune :: "nat \<Rightarrow> bool" where
  "ValidRune r = (r < 55296 \<or> 57344 \<le> r \<and> r < 1114112)"

text \<open>The four forms of a rune that is decoded without error; it encodes to the bytes it was decoded from.\<close>

lemma tail_byte: "128 \<le> byte c \<Longrightarrow> byte c < 192 \<Longrightarrow> \<exists>i < 64. byte c = 128 + i"
  by (intro exI [of _ "byte c - 128"]) simp

lemma DecodeRune_width: "DecodeRune (a # s) = (r, w) \<Longrightarrow> 0 < w \<and> w \<le> Suc (length s)"
  by (auto simp: Let_def split: if_splits)

lemma DecodeRune_cases:
  assumes "DecodeRune (a # s) = (r, w)" "\<not> (w = 1 \<and> r = RuneError)"
  obtains (one) "byte a < 128" "r = byte a" "w = 1"
  | (two) b t i j where "s = b # t" "byte a = 192 + i" "byte b = 128 + j" "2 \<le> i" "i < 32" "j < 64"
      "r = i * 64 + j" "w = 2"
  | (three) b c t i j k where "s = b # c # t" "byte a = 224 + i" "byte b = 128 + j" "byte c = 128 + k" "i < 16" "j < 64" "k < 64"
      "i = 0 \<Longrightarrow> 32 \<le> j" "i = 13 \<Longrightarrow> j < 32" "r = (i * 64 + j) * 64 + k" "w = 3"
  | (four) b c d t i j k l where "s = b # c # d # t" "byte a = 240 + i" "byte b = 128 + j" "byte c = 128 + k" "byte d = 128 + l"
      "i < 5" "j < 64" "k < 64" "l < 64" "i = 0 \<Longrightarrow> 16 \<le> j" "i = 4 \<Longrightarrow> j < 16" "r = ((i * 64 + j) * 64 + k) * 64 + l" "w = 4"
proof (cases "byte a < 128")
  case True
  then show thesis using assms by (intro one) (auto simp: Let_def)
next
  case False
  let ?n = "tail_len (byte a)" and ?bs = "map byte (take (tail_len (byte a)) s)"
  from assms False have n: "?n \<noteq> 0" "?n \<le> length s" "second_ok (byte a) (hd ?bs)" "\<forall>b \<in> set (tl ?bs). 128 \<le> b \<and> b < 192"
    "r = foldl (\<lambda>r b. r * 64 + (b - 128)) (byte a - (if ?n = 1 then 192 else if ?n = 2 then 224 else 240)) ?bs" "w = Suc ?n"
    by (auto simp: Let_def list_ex_iff split: if_splits)
  consider "?n = 1" "194 \<le> byte a" "byte a < 224" | "?n = 2" "224 \<le> byte a" "byte a < 240" | "?n = 3" "240 \<le> byte a" "byte a < 245"
    using n(1) by (auto simp: tail_len_def split: if_splits)
  then show thesis
  proof cases
    case 1
    then obtain b t where s: "s = b # t" using n(2) by (cases s) auto
    obtain j where "j < 64" "byte b = 128 + j" using n(3) 1 tail_byte [of b] by (auto simp: s second_ok_def split: if_splits)
    then show thesis using n(5,6) 1 s by (intro two [of b t "byte a - 192" j]) auto
  next
    case 2
    then obtain b c t where s: "s = b # c # t" using n(2) by (cases s; cases "tl s") auto
    obtain k where k: "k < 64" "byte c = 128 + k" using n(4) 2 tail_byte [of c] by (auto simp: s)
    obtain j where "j < 64" "byte b = 128 + j" using n(3) 2 tail_byte [of b] by (auto simp: s second_ok_def split: if_splits)
    then show thesis using n(3,5,6) 2 s k
      by (intro three [of b c t "byte a - 224" j k]) (auto simp: second_ok_def split: if_splits)
  next
    case 3
    then obtain b c d t where s: "s = b # c # d # t" using n(2) by (cases s; cases "tl s"; cases "tl (tl s)") auto
    obtain k l where kl: "k < 64" "byte c = 128 + k" "l < 64" "byte d = 128 + l"
      using n(4) 3 tail_byte [of c] tail_byte [of d] by (auto simp: s)
    obtain j where "j < 64" "byte b = 128 + j" using n(3) 3 tail_byte [of b] by (auto simp: s second_ok_def split: if_splits)
    then show thesis using n(3,5,6) 3 s kl
      by (intro four [of b c d t "byte a - 240" j k l]) (auto simp: second_ok_def split: if_splits)
  qed
qed

lemma DecodeRune_ascii: "DecodeRune (a # s) = (r, w) \<Longrightarrow> r < 128 \<Longrightarrow> w = 1 \<and> r = byte a"
  by (erule DecodeRune_cases) (auto simp: RuneError_def)

lemma DecodeRune_valid:
  assumes "DecodeRune (a # s) = (r, w)" "\<not> (w = 1 \<and> r = RuneError)"
  shows "ValidRune r"
  using assms
proof (cases rule: DecodeRune_cases)
  case (three b c t i j k)
  consider "i < 13" | "i = 13" | "13 < i" by linarith
  then show ?thesis by cases (use three(5-10) in \<open>simp_all add: ValidRune_def\<close>)
next
  case (four b c d t i j k l)
  consider "i = 0" | "0 < i" "i < 4" | "i = 4" using four(6) by linarith
  then show ?thesis by cases (use four(6-12) in \<open>simp_all add: ValidRune_def\<close>)
qed (simp_all add: ValidRune_def)

lemma sextet:
  "k < 64 \<Longrightarrow> (q * 64 + k) div 64 = q" "k < 64 \<Longrightarrow> (q * 64 + k) mod 64 = k"
  "n div 4096 = n div 64 div 64" "n div 262144 = n div 64 div 64 div 64" for k q n :: nat
  by (simp_all flip: div_mult2_eq)

lemma DecodeRune_utf8:
  assumes "DecodeRune (a # s) = (r, w)" "\<not> (w = 1 \<and> r = RuneError)"
  shows "utf8 r = take w (a # s)"
  using assms
proof (cases rule: DecodeRune_cases)
  case (three b c t i j k)
  have d: "r div 4096 = i" "r div 64 mod 64 = j" "r mod 64 = k"
    unfolding three(10) using three(6,7) by (simp_all only: sextet)
  have "2048 \<le> r" "r < 65536" using three(5-10) by (cases "i = 0"; simp)+
  then have "utf8 r = [char_of (224 + i), char_of (128 + j), char_of (128 + k)]"
    using DecodeRune_valid [OF assms] d by (auto simp: utf8_def ValidRune_def)
  with three(1-4,5-7,11) show ?thesis by (auto intro: char_of_eqI)
next
  case (four b c d t i j k l)
  have d: "r div 262144 = i" "r div 4096 mod 64 = j" "r div 64 mod 64 = k" "r mod 64 = l"
    unfolding four(12) using four(7-9) by (simp_all only: sextet)
  have "65536 \<le> r" using four(6-12) by (cases "i = 0"; simp)
  then have "utf8 r = [char_of (240 + i), char_of (128 + j), char_of (128 + k), char_of (128 + l)]"
    using d by (simp add: utf8_def)
  with four(1-9,13) show ?thesis by (auto intro: char_of_eqI)
qed (auto simp: utf8_def intro: char_of_eqI)

section \<open>Quoting\<close>

text \<open>\<^verbatim>\<open>strconv.IsPrint\<close>; above U+00FF the tables of Unicode are an argument.\<close>

definition IsPrint :: "(nat \<Rightarrow> bool) \<Rightarrow> nat \<Rightarrow> bool" where
  "IsPrint isp r = (if r < 256 then 32 \<le> r \<and> r < 127 \<or> 161 \<le> r \<and> r \<noteq> 173 else isp r)"

definition hex_text :: "nat \<Rightarrow> string" where \<comment> \<open>four digits\<close>
  "hex_text n = map (\<lambda>d. hex_digit (n div d mod 16)) [4096, 256, 16, 1]"

definition appendEscapedRune :: "(nat \<Rightarrow> bool) \<Rightarrow> nat \<Rightarrow> string" where
  "appendEscapedRune isp r =
     (if r = 34 \<or> r = 92 then [CHR 0x5C, char_of r]
      else if IsPrint isp r then utf8 r
      else if r = 7 then [CHR 0x5C, CHR ''a'']
      else if r = 8 then [CHR 0x5C, CHR ''b'']
      else if r = 12 then [CHR 0x5C, CHR ''f'']
      else if r = 10 then [CHR 0x5C, CHR ''n'']
      else if r = 13 then [CHR 0x5C, CHR ''r'']
      else if r = 9 then [CHR 0x5C, CHR ''t'']
      else if r = 11 then [CHR 0x5C, CHR ''v'']
      else if r < 32 \<or> r = 127 then [CHR 0x5C, CHR ''x'', hex_digit (r div 16), hex_digit (r mod 16)]
      else let r = (if ValidRune r then r else RuneError) in
        if r < 65536 then CHR 0x5C # CHR ''u'' # hex_text r
        else CHR 0x5C # CHR ''U'' # hex_text (r div 65536) @ hex_text (r mod 65536))"

function quote_body :: "(nat \<Rightarrow> bool) \<Rightarrow> string \<Rightarrow> string" where
  "quote_body isp [] = []"
| "quote_body isp (a # s) =
     (let (r, w) = DecodeRune (a # s) in
      if w = 1 \<and> r = RuneError
      then [CHR 0x5C, CHR ''x'', hex_digit (byte a div 16), hex_digit (byte a mod 16)] @ quote_body isp s
      else appendEscapedRune isp r @ quote_body isp (drop (w - 1) s))"
  by pat_completeness auto
termination by (relation "measure (\<lambda>(_, s). length s)") auto

definition Quote :: "(nat \<Rightarrow> bool) \<Rightarrow> string \<Rightarrow> string" where \<comment> \<open>\<open>%q\<close>\<close>
  "Quote isp s = CHR 0x22 # quote_body isp s @ [CHR 0x22]"

section \<open>Literals\<close>

text \<open>
  A literal of N-Quads, after its opening quote: the escapes are those of the grammar, \<^verbatim>\<open>ECHAR\<close> and
  \<^verbatim>\<open>UCHAR\<close>; line ends stand only in escaped form.
\<close>

definition echar :: "char \<Rightarrow> char option" where
  "echar c = (if c = CHR 0x27 then Some c else if c = CHR ''/'' then None else unescape c)"

definition uchar :: "nat option \<Rightarrow> string option" where
  "uchar n = (case n of None \<Rightarrow> None | Some n \<Rightarrow> if ValidRune n then Some (utf8 n) else None)"

definition hex8 :: "string \<Rightarrow> nat option" where
  "hex8 ds =
     (case ds of [a, b, c, d, e, f, g, h] \<Rightarrow>
        (case (hex4 a b c d, hex4 e f g h) of (Some m, Some n) \<Rightarrow> Some (m * 65536 + n) | _ \<Rightarrow> None)
      | _ \<Rightarrow> None)"

fun nq_string :: "string \<Rightarrow> (string \<times> string) option" where
  "nq_string [] = None"
| "nq_string (c # s) =
     (if c = CHR 0x22 then Some ([], s)
      else if c = CHR 0x5C then
        (case s of
           [] \<Rightarrow> None
         | e # t \<Rightarrow>
             (if e = CHR ''u'' then
                (case t of
                   x1 # x2 # x3 # x4 # u \<Rightarrow>
                     (case uchar (hex4 x1 x2 x3 x4) of None \<Rightarrow> None | Some v \<Rightarrow> prepend v (nq_string u))
                 | _ \<Rightarrow> None)
              else if e = CHR ''U'' then
                (case uchar (hex8 (take 8 t)) of None \<Rightarrow> None | Some v \<Rightarrow> prepend v (nq_string (drop 8 t)))
              else (case echar e of None \<Rightarrow> None | Some x \<Rightarrow> prepend [x] (nq_string t))))
      else if c = CHR 0x0A \<or> c = CHR 0x0D then None
      else prepend [c] (nq_string s))"

text \<open>The strings that N-Quads can write the way Go quotes them: UTF-8, and of the control characters only those with
  an escape of their own in both languages.\<close>

definition rune_plain :: "nat \<Rightarrow> bool" where
  "rune_plain r = (32 \<le> r \<and> r \<noteq> 127 \<or> List.member [8, 9, 10, 12, 13] r)"

function plain :: "string \<Rightarrow> bool" where
  "plain [] = True"
| "plain (a # s) =
     (let (r, w) = DecodeRune (a # s) in
      \<not> (w = 1 \<and> r = RuneError) \<and> rune_plain r \<and> plain (drop (w - 1) s))"
  by pat_completeness auto
termination by (relation "measure length") auto

lemma plain_ascii: "list_all (\<lambda>c. 32 \<le> byte c \<and> byte c < 127) s \<Longrightarrow> plain s"
  by (induction s) (simp_all add: rune_plain_def RuneError_def)

lemma nq_string_raw:
  "\<forall>c \<in> set v. byte c \<notin> {34, 92, 10, 13} \<Longrightarrow> nq_string (v @ t) = prepend v (nq_string t)"
proof (induction v)
  case (Cons c v)
  then have "c \<noteq> CHR 0x22" "c \<noteq> CHR 0x5C" "c \<noteq> CHR 0x0A" "c \<noteq> CHR 0x0D" by (auto simp: byte_def)
  with Cons show ?case by (simp add: prepend_def split: option.split)
qed (simp add: prepend_def split: option.split)

lemma hex_digit_div [simp]: "hex_value (hex_digit (n mod 16)) = Some (n mod 16)"
  by (simp add: hex_value_digit)

lemma hex4_text: "n < 65536 \<Longrightarrow> hex4 (hex_digit (n div 4096 mod 16)) (hex_digit (n div 256 mod 16)) (hex_digit (n div 16 mod 16))
    (hex_digit (n mod 16)) = Some n"
proof -
  assume n: "n < 65536"
  have "n div 4096 = n div 16 div 16 div 16" "n div 256 = n div 16 div 16" by (simp_all flip: div_mult2_eq)
  moreover have "n div 16 div 16 div 16 < 16" using n by (simp flip: div_mult2_eq)
  ultimately show ?thesis by (simp add: hex4_def hex_value_digit)
qed

lemma length_hex_text [simp]: "length (hex_text n) = 4"
  by (simp add: hex_text_def)

lemma hex8_text: "n < 1114112 \<Longrightarrow> hex8 (hex_text (n div 65536) @ hex_text (n mod 65536)) = Some n"
  using hex4_text [of "n div 65536"] hex4_text [of "n mod 65536"] by (simp add: hex8_def hex_text_def)

text \<open>What a rune is quoted as reads as the bytes of that rune, or does not read at all.\<close>

lemma utf8_ascii: "c \<in> set (utf8 r) \<Longrightarrow> r < 1114112 \<Longrightarrow> byte c < 128 \<Longrightarrow> byte c = r"
  by (auto simp: utf8_def split: if_splits)

lemma utf8_low: "r < 128 \<Longrightarrow> utf8 r = [char_of r]"
  by (simp add: utf8_def)

lemma quoted_control:
  assumes "List.member [8, 9, 10, 12, 13] r"
  obtains e where "appendEscapedRune isp r = [CHR 0x5C, e]" "e \<noteq> CHR ''u''" "e \<noteq> CHR ''U''" "echar e = Some (char_of r)"
proof -
  have "char_of (8 :: nat) = CHR 0x08" "char_of (9 :: nat) = CHR 0x09" "char_of (10 :: nat) = CHR 0x0A"
    "char_of (12 :: nat) = CHR 0x0C" "char_of (13 :: nat) = CHR 0x0D" by code_simp+
  moreover have "r = 8 \<or> r = 9 \<or> r = 10 \<or> r = 12 \<or> r = 13" using assms by auto
  ultimately show thesis
    by (elim disjE) (simp_all add: that appendEscapedRune_def IsPrint_def echar_def unescape_def)
qed

lemma quoted_unreadable:
  assumes "\<not> rune_plain r"
  obtains e u where "appendEscapedRune isp r = CHR 0x5C # e # u" "e \<noteq> CHR ''u''" "e \<noteq> CHR ''U''" "echar e = None"
proof -
  have "echar (CHR ''a'') = None" "echar (CHR ''v'') = None" "echar (CHR ''x'') = None" by code_simp+
  moreover have "r < 32 \<or> r = 127" "r \<noteq> 8" "r \<noteq> 9" "r \<noteq> 10" "r \<noteq> 12" "r \<noteq> 13" using assms by (auto simp: rune_plain_def)
  moreover from this have "\<not> IsPrint isp r" "r \<noteq> 34" "r \<noteq> 92" by (auto simp: IsPrint_def)
  ultimately show thesis
    by (cases "r = 7"; cases "r = 11") (simp_all add: that appendEscapedRune_def)
qed

lemma quoted_rune:
  assumes "ValidRune r"
  shows "nq_string (appendEscapedRune isp r @ t) = (if rune_plain r then prepend (utf8 r) (nq_string t) else None)"
proof -
  have r: "r < 1114112" using assms by (auto simp: ValidRune_def)
  have p: "\<not> IsPrint isp r \<Longrightarrow> r < 32 \<or> r = 127 \<or> 127 < r" by (auto simp: IsPrint_def split: if_splits)
  consider "r = 34 \<or> r = 92" | "IsPrint isp r" "\<not> (r = 34 \<or> r = 92)" | "\<not> IsPrint isp r" "r < 32 \<or> r = 127" | "\<not> IsPrint isp r" "127 < r"
    using p by blast
  then show ?thesis
  proof cases
    case 1
    have "echar (CHR 0x22) = Some (CHR 0x22)" "echar (CHR 0x5C) = Some (CHR 0x5C)" by (simp_all add: echar_def unescape_def)
    moreover have "char_of (34 :: nat) = CHR 0x22" "char_of (92 :: nat) = CHR 0x5C" by code_simp+
    ultimately show ?thesis using 1 by (elim disjE) (simp_all add: appendEscapedRune_def rune_plain_def utf8_low)
  next
    case 2
    then have "32 \<le> r" by (auto simp: IsPrint_def split: if_splits)
    have "byte c \<notin> {34, 92, 10, 13}" if "c \<in> set (utf8 r)" for c
      using utf8_ascii [OF that r] 2(2) \<open>32 \<le> r\<close> by (cases "byte c < 128") auto
    then have "nq_string (utf8 r @ t) = prepend (utf8 r) (nq_string t)" by (intro nq_string_raw ballI)
    moreover have "rune_plain r" using \<open>32 \<le> r\<close> 2 by (auto simp: rune_plain_def IsPrint_def split: if_splits)
    ultimately show ?thesis using 2 by (simp add: appendEscapedRune_def)
  next
    case 3
    show ?thesis
    proof (cases "rune_plain r")
      case True
      with 3 have l: "List.member [8, 9, 10, 12, 13] r" "r < 128" by (auto simp: rune_plain_def)
      obtain e where "appendEscapedRune isp r = [CHR 0x5C, e]" "e \<noteq> CHR ''u''" "e \<noteq> CHR ''U''" "echar e = Some (char_of r)"
        by (rule quoted_control [OF l(1)])
      then show ?thesis using True l(2) by (simp add: utf8_low)
    next
      case False
      obtain e u where "appendEscapedRune isp r = CHR 0x5C # e # u" "e \<noteq> CHR ''u''" "e \<noteq> CHR ''U''" "echar e = None"
        by (rule quoted_unreadable [OF False])
      then show ?thesis using False by simp
    qed
  next
    case 4
    then have e: "appendEscapedRune isp r = (if r < 65536 then CHR 0x5C # CHR ''u'' # hex_text r
        else CHR 0x5C # CHR ''U'' # hex_text (r div 65536) @ hex_text (r mod 65536))" "rune_plain r"
      using assms by (auto simp: appendEscapedRune_def rune_plain_def)
    show ?thesis
    proof (cases "r < 65536")
      case True
      then show ?thesis using e assms hex4_text [OF True] by (simp add: hex_text_def uchar_def)
    next
      case False
      then show ?thesis using e assms hex8_text [OF r] by (simp add: uchar_def)
    qed
  qed
qed

lemma quoted_reads:
  "nq_string (quote_body isp s @ CHR 0x22 # t) = (if plain s then Some (s, t) else None)"
proof (induction isp s rule: quote_body.induct)
  case (2 isp a s)
  obtain r w where d: "DecodeRune (a # s) = (r, w)" by fastforce
  show ?case
  proof (cases "w = 1 \<and> r = RuneError")
    case True
    then show ?thesis using d by (simp add: Let_def echar_def unescape_def)
  next
    case False
    then have IH: "nq_string (quote_body isp (drop (w - 1) s) @ CHR 0x22 # t) =
        (if plain (drop (w - 1) s) then Some (drop (w - 1) s, t) else None)"
      using 2(2) [OF d [symmetric] refl] by simp
    have v: "utf8 r @ drop (w - 1) s = a # s"
      using DecodeRune_utf8 [OF d False] DecodeRune_width [OF d] append_take_drop_id [of w "a # s"] by (cases w) auto
    show ?thesis
      using False d IH v by (auto simp: quoted_rune [OF DecodeRune_valid [OF d False]] simp del: DecodeRune.simps)
  qed
qed simp

section \<open>Statements\<close>

text \<open>
  A statement is a subject (a blank node's label or an IRI), the IRI of a predicate, and a literal with or without a
  datatype. The reader knows the forms the program writes: labels of letters and digits, IRIs without escapes,
  no graph label, no comment, no language tag; it does not ask for a line end after the dot.
\<close>

datatype nq_subject = NBlank string | NIri string

type_synonym statement = "nq_subject \<times> string \<times> string \<times> string option"

definition iri_char :: "char \<Rightarrow> bool" where
  "iri_char c = (32 < byte c \<and> \<not> List.member [CHR ''<'', CHR ''>'', CHR 0x22, CHR ''{'', CHR ''}'', CHR ''|'', CHR ''^'', CHR 0x60, CHR 0x5C] c)"

definition label_char :: "char \<Rightarrow> bool" where
  "label_char c = (48 \<le> byte c \<and> byte c \<le> 57 \<or> 65 \<le> byte c \<and> byte c \<le> 90 \<or> 97 \<le> byte c \<and> byte c \<le> 122)"

definition nq_iri :: "string \<Rightarrow> (string \<times> string) option" where
  "nq_iri s =
     (case s of
        c # t \<Rightarrow> (case dropWhile iri_char t of
                    d # u \<Rightarrow> if c = CHR ''<'' \<and> d = CHR ''>'' then Some (takeWhile iri_char t, u) else None
                  | [] \<Rightarrow> None)
      | [] \<Rightarrow> None)"

definition nq_subj :: "string \<Rightarrow> (nq_subject \<times> string) option" where
  "nq_subj s =
     (if has_prefix s ''_:''
      then (let t = drop 2 s in
            if takeWhile label_char t = [] then None else Some (NBlank (takeWhile label_char t), dropWhile label_char t))
      else (case nq_iri s of None \<Rightarrow> None | Some (i, t) \<Rightarrow> Some (NIri i, t)))"

definition nq_literal :: "string \<Rightarrow> ((string \<times> string option) \<times> string) option" where
  "nq_literal s =
     (case s of
        c # t \<Rightarrow>
          (if c = CHR 0x22 then
             (case nq_string t of
                None \<Rightarrow> None
              | Some (v, u) \<Rightarrow>
                  (if has_prefix u ''^^'' then (case nq_iri (drop 2 u) of None \<Rightarrow> None | Some (ty, w) \<Rightarrow> Some ((v, Some ty), w))
                   else Some ((v, None), u)))
           else None)
      | [] \<Rightarrow> None)"

definition nq_statement :: "string \<Rightarrow> (statement \<times> string) option" where
  "nq_statement s =
     (case nq_subj s of
        None \<Rightarrow> None
      | Some (su, t) \<Rightarrow> (case nq_iri (skip t) of
          None \<Rightarrow> None
        | Some (p, u) \<Rightarrow> (case nq_literal (skip u) of
            None \<Rightarrow> None
          | Some ((v, ty), w) \<Rightarrow> (case skip w of
              c # x \<Rightarrow> if c = CHR ''.'' then Some ((su, p, v, ty), x) else None
            | [] \<Rightarrow> None))))"

text \<open>Every statement consumes input, so that the length test never fails; it makes the recursion terminate.\<close>

function nq_read :: "string \<Rightarrow> statement list option" where
  "nq_read s =
     (if skip s = [] then Some []
      else case nq_statement (skip s) of
        None \<Rightarrow> None
      | Some (q, t) \<Rightarrow> if length t < length s then map_option ((#) q) (nq_read t) else None)"
  by pat_completeness auto
termination by (relation "measure length") auto

declare nq_read.simps [simp del]

lemma nq_string_length: "nq_string s = Some (v, t) \<Longrightarrow> length t < length s"
proof (induction s arbitrary: v rule: nq_string.induct)
  case (2 c s)
  have p: "prepend x r = Some (v, t) \<Longrightarrow> \<exists>y. r = Some (y, t)" for x r by (auto simp: prepend_def split: option.splits)
  show ?case
    using 2 by (auto split: if_splits list.splits option.splits dest!: p; fastforce)
qed simp

lemma nq_iri_length: "nq_iri s = Some (i, t) \<Longrightarrow> length t < length s"
proof -
  have "dropWhile iri_char u = d # w \<Longrightarrow> length w < length u" for u d w
    using length_dropWhile_le [of iri_char u] by simp
  then show "nq_iri s = Some (i, t) \<Longrightarrow> ?thesis"
    by (fastforce simp: nq_iri_def split: list.splits if_splits)
qed

lemma nq_subj_length: "nq_subj s = Some (su, t) \<Longrightarrow> length t \<le> length s"
  using length_dropWhile_le [of label_char "drop 2 s"] nq_iri_length [of s]
  by (auto simp: nq_subj_def Let_def split: if_splits option.splits dest: nq_iri_length)

lemma nq_literal_length: "nq_literal s = Some (x, t) \<Longrightarrow> length t < length s"
  by (auto simp: nq_literal_def split: list.splits if_splits option.splits dest!: nq_string_length nq_iri_length)

lemma skip_length: "length (skip s) \<le> length s"
  by (rule length_dropWhile_le)

lemma nq_statement_length: "nq_statement s = Some (q, t) \<Longrightarrow> length t < length s"
proof -
  assume "nq_statement s = Some (q, t)"
  then obtain su t1 p t2 x t3 where "nq_subj s = Some (su, t1)" "nq_iri (skip t1) = Some (p, t2)"
      "nq_literal (skip t2) = Some (x, t3)" "skip t3 = CHR ''.'' # t"
    by (auto simp: nq_statement_def split: option.splits list.splits if_splits prod.splits)
  then have "length t1 \<le> length s" "length t2 < length (skip t1)" "length t3 < length (skip t2)" "length t < length (skip t3)"
    using nq_subj_length nq_iri_length nq_literal_length by auto
  with skip_length [of t1] skip_length [of t2] skip_length [of t3] show ?thesis by linarith
qed

lemma nq_read_step:
  "nq_read s = (if skip s = [] then Some [] else case nq_statement (skip s) of
     None \<Rightarrow> None | Some (q, t) \<Rightarrow> map_option ((#) q) (nq_read t))"
  using skip_length [of s] nq_statement_length [of "skip s"]
  by (auto simp: nq_read.simps [of s] split: option.splits) 

lemma nq_read_space: "list_all json_space w \<Longrightarrow> nq_read (w @ r) = nq_read r"
  by (simp add: nq_read_step [of "w @ r"] nq_read_step [of r] list_all_iff dropWhile_append2)

section \<open>What is written reads back\<close>

definition subject_text :: "nq_subject \<Rightarrow> string" where
  "subject_text su = (case su of NBlank b \<Rightarrow> ''_:'' @ b | NIri i \<Rightarrow> ''<'' @ i @ ''>'')"

definition subject_ok :: "nq_subject \<Rightarrow> bool" where
  "subject_ok su = (case su of NBlank b \<Rightarrow> b \<noteq> [] \<and> list_all label_char b | NIri i \<Rightarrow> list_all iri_char i)"

lemma nq_iri_text: "list_all iri_char i \<Longrightarrow> nq_iri (CHR ''<'' # i @ CHR ''>'' # r) = Some (i, r)"
proof -
  have "\<not> iri_char (CHR ''>'')" by code_simp
  then show "list_all iri_char i \<Longrightarrow> ?thesis"
    by (simp add: nq_iri_def list_all_iff takeWhile_append2 dropWhile_append2)
qed

lemma nq_subj_text: "subject_ok su \<Longrightarrow> nq_subj (subject_text su @ CHR '' '' # r) = Some (su, CHR '' '' # r)"
proof (cases su)
  case (NBlank b)
  have "\<not> label_char (CHR '' '')" by code_simp
  with NBlank show "subject_ok su \<Longrightarrow> ?thesis"
    by (auto simp: nq_subj_def subject_text_def subject_ok_def has_prefix_def list_all_iff takeWhile_append2 dropWhile_append2)
next
  case (NIri i)
  then show "subject_ok su \<Longrightarrow> ?thesis" using nq_iri_text [of i "CHR '' '' # r"]
    by (simp add: nq_subj_def subject_text_def subject_ok_def has_prefix_def)
qed

text \<open>The objects the program writes: a value quoted by \<^verbatim>\<open>%q\<close>, a literal as it stands, and one with a datatype.\<close>

datatype nq_object = Quoted string | Bare string | Typed string string

definition object_text :: "(nat \<Rightarrow> bool) \<Rightarrow> nq_object \<Rightarrow> string" where
  "object_text isp ob =
     (case ob of
        Quoted v \<Rightarrow> Quote isp v
      | Bare v \<Rightarrow> CHR 0x22 # v @ [CHR 0x22]
      | Typed v ty \<Rightarrow> CHR 0x22 # v @ CHR 0x22 # ''^^<'' @ ty @ ''>'')"

definition object_value :: "nq_object \<Rightarrow> string \<times> string option" where
  "object_value ob = (case ob of Quoted v \<Rightarrow> (v, None) | Bare v \<Rightarrow> (v, None) | Typed v ty \<Rightarrow> (v, Some ty))"

definition object_ok :: "nq_object \<Rightarrow> bool" where
  "object_ok ob =
     (case ob of
        Quoted v \<Rightarrow> True
      | Bare v \<Rightarrow> list_all label_char v
      | Typed v ty \<Rightarrow> list_all label_char v \<and> list_all iri_char ty)"

definition object_plain :: "nq_object \<Rightarrow> bool" where
  "object_plain ob = (case ob of Quoted v \<Rightarrow> plain v | _ \<Rightarrow> True)"

lemma nq_string_label: "list_all label_char v \<Longrightarrow> nq_string (v @ CHR 0x22 # r) = Some (v, r)"
proof -
  assume "list_all label_char v"
  then have "\<forall>c \<in> set v. byte c \<notin> {34, 92, 10, 13}" by (auto simp: list_all_iff label_char_def)
  then show ?thesis by (simp add: nq_string_raw)
qed

lemma nq_object_text:
  "object_ok ob \<Longrightarrow> nq_literal (object_text isp ob @ CHR '' '' # r) =
     (if object_plain ob then Some (object_value ob, CHR '' '' # r) else None)"
  using nq_iri_text
  by (cases ob) (simp_all add: nq_literal_def object_text_def object_value_def object_ok_def object_plain_def Quote_def
      quoted_reads nq_string_label has_prefix_def)

type_synonym line = "nq_subject \<times> string \<times> nq_object"

definition nq_line :: "(nat \<Rightarrow> bool) \<Rightarrow> string \<Rightarrow> line \<Rightarrow> string" where
  "nq_line isp ind l =
     (case l of (su, p, ob) \<Rightarrow>
        ind @ subject_text su @ '' <'' @ p @ ''> '' @ object_text isp ob @ '' .'' @ [CHR 0x0A])"

definition line_ok :: "line \<Rightarrow> bool" where
  "line_ok l = (case l of (su, p, ob) \<Rightarrow> subject_ok su \<and> list_all iri_char p \<and> object_ok ob)"

definition line_statement :: "line \<Rightarrow> statement" where
  "line_statement l = (case l of (su, p, ob) \<Rightarrow> (su, p, object_value ob))"

definition line_plain :: "line \<Rightarrow> bool" where
  "line_plain l = object_plain (snd (snd l))"

lemma nq_statement_text:
  assumes "subject_ok su" "list_all iri_char p" "object_ok ob"
  shows "nq_statement (subject_text su @ CHR '' '' # CHR ''<'' # p @ CHR ''>'' # CHR '' '' # object_text isp ob @ CHR '' '' # CHR ''.'' # r) =
    (if object_plain ob then Some ((su, p, object_value ob), r) else None)"
proof -
  have sp: "json_space (CHR '' '')" "\<not> json_space (CHR ''<'')" "\<not> json_space (CHR 0x22)" "\<not> json_space (CHR ''.'')" by code_simp+
  have sk: "skip (object_text isp ob @ x) = object_text isp ob @ x" for x
    using sp by (cases ob) (simp_all add: object_text_def Quote_def)
  show ?thesis
    using assms sp by (simp add: nq_statement_def nq_subj_text nq_iri_text sk nq_object_text)
qed

lemma read_line:
  assumes "list_all json_space ind" "line_ok l"
  shows "nq_read (nq_line isp ind l @ r) = (if line_plain l then map_option ((#) (line_statement l)) (nq_read r) else None)"
proof -
  obtain su p ob where l: "l = (su, p, ob)" by (cases l)
  then have ok: "subject_ok su" "list_all iri_char p" "object_ok ob" using assms(2) by (simp_all add: line_ok_def)
  let ?t = "subject_text su @ CHR '' '' # CHR ''<'' # p @ CHR ''>'' # CHR '' '' # object_text isp ob @ CHR '' '' # CHR ''.'' # CHR 0x0A # r"
  have sp: "\<not> json_space (CHR ''_'')" "\<not> json_space (CHR ''<'')" "json_space (CHR 0x0A)" by code_simp+
  then have sk: "skip ?t = ?t" "?t \<noteq> []" by (cases su; simp add: subject_text_def)+
  have "nq_read (nq_line isp ind l @ r) = nq_read (ind @ ?t)" by (simp add: nq_line_def l)
  also have "\<dots> = nq_read ?t" using assms(1) by (rule nq_read_space)
  also have "\<dots> = (if object_plain ob then map_option ((#) (su, p, object_value ob)) (nq_read (CHR 0x0A # r)) else None)"
    unfolding nq_read_step [of ?t] sk(1) nq_statement_text [OF ok] using sk(2) by simp
  also have "nq_read (CHR 0x0A # r) = nq_read r" using sp nq_read_space [of "[CHR 0x0A]" r] by simp
  finally show ?thesis by (simp add: l line_plain_def line_statement_def)
qed

lemma read_lines:
  assumes "list_all json_space ind" "list_all line_ok ls"
  shows "nq_read (concat (map (nq_line isp ind) ls) @ r) =
    (if list_all line_plain ls then map_option ((@) (map line_statement ls)) (nq_read r) else None)"
  using assms(2) by (induction ls; cases "nq_read r") (simp_all add: read_line [OF assms(1)])

end
