(* ===== verification/Dql.thy ===== *)
theory Dql
  imports Dgraph Nquads
begin

text \<open>
  The text of queries. The repositories of \<^verbatim>\<open>internal/repository/dgraph\<close> write queries in Dgraph's query
  language, with variables for the values of clients and, where the language takes none, with the value in the text. Here is a
  scanner for the forms they use, the binding of variables, and the tokens a query of the theory \<^verbatim>\<open>Dgraph\<close> stands for.
\<close>

section \<open>Tokens\<close>

datatype token = TName string | TPunct char | TStr string

definition name_char :: "char \<Rightarrow> bool" where
  "name_char c = (label_char c \<or> c = CHR ''.'' \<or> c = CHR ''_'' \<or> c = CHR ''$'')"

function dql_tokens :: "string \<Rightarrow> token list option" where
  "dql_tokens [] = Some []"
| "dql_tokens (c # s) =
     (if json_space c then dql_tokens s
      else if name_char c then
        map_option ((#) (TName (c # takeWhile name_char s))) (dql_tokens (dropWhile name_char s))
      else if c = CHR 0x22 then
        (case nq_string s of
           None \<Rightarrow> None
         | Some (v, t) \<Rightarrow> if length t < length s then map_option ((#) (TStr v)) (dql_tokens t) else None)
      else map_option ((#) (TPunct c)) (dql_tokens s))"
  by pat_completeness auto
termination
  by (relation "measure length") (auto simp: le_imp_less_Suc length_dropWhile_le)

text \<open>
  A query with variables starts with their declarations, a name and a type each. Only declared variables can be bound; a
  value is bound as what its type says, whatever characters it has.
\<close>

fun declarations :: "token list \<Rightarrow> (string \<times> string) list" where
  "declarations (TName n # TPunct c # TName ty # TPunct d # ts) =
     (if c = CHR '':'' then (n, ty) # declarations ts else [])"
| "declarations _ = []"

definition bind_token :: "(string \<times> string) list \<Rightarrow> (string \<times> string) list \<Rightarrow> token \<Rightarrow> token" where
  "bind_token decls vars t =
     (case t of
        TName n \<Rightarrow> (case (map_of decls n, map_of vars n) of
            (Some ty, Some v) \<Rightarrow> if ty = ''int'' then TName v else TStr v
          | _ \<Rightarrow> t)
      | _ \<Rightarrow> t)"

definition dql_read :: "string \<Rightarrow> (string \<times> string) list \<Rightarrow> token list option" where
  "dql_read txt vars =
     (case dql_tokens txt of
        None \<Rightarrow> None
      | Some ts \<Rightarrow>
          (let body = dropWhile (\<lambda>t. t \<noteq> TPunct (CHR ''{'')) ts;
               decls = declarations (drop 3 (takeWhile (\<lambda>t. t \<noteq> TPunct (CHR ''{'')) ts)) in
           if list_all (\<lambda>(n, v). map_of decls n \<noteq> None) vars then Some (map (bind_token decls vars) body) else None))"

section \<open>Queries\<close>

definition val_tokens :: "(int \<Rightarrow> string) \<Rightarrow> val \<Rightarrow> token list" where
  "val_tokens tf v =
     (case v of
        VStr s \<Rightarrow> [TStr s]
      | VBool b \<Rightarrow> [TName (if b then ''true'' else ''false'')]
      | VInt n \<Rightarrow> [TName (show_nat n)]
      | VTime t \<Rightarrow> [TStr (tf t)])"

definition call :: "string \<Rightarrow> token list \<Rightarrow> token list" where
  "call f args = TName f # TPunct (CHR ''('') # args @ [TPunct (CHR '')'')]"

definition func_tokens :: "(pred \<Rightarrow> string) \<Rightarrow> (int \<Rightarrow> string) \<Rightarrow> func \<Rightarrow> token list" where
  "func_tokens nm tf f =
     (case f of
        FuncEq p v \<Rightarrow> call ''eq'' (TName (nm p) # TPunct (CHR '','') # val_tokens tf v)
      | FuncUid u \<Rightarrow> call ''uid'' [TName u]
      | FuncType t \<Rightarrow> call ''type'' [TName t])"

fun filt_tokens :: "(pred \<Rightarrow> string) \<Rightarrow> (int \<Rightarrow> string) \<Rightarrow> filt \<Rightarrow> token list" where
  "filt_tokens nm tf (FType t) = call ''type'' [TName t]"
| "filt_tokens nm tf (FEq p v) = call ''eq'' (TName (nm p) # TPunct (CHR '','') # val_tokens tf v)"
| "filt_tokens nm tf (FLe p v) = call ''le'' (TName (nm p) # TPunct (CHR '','') # val_tokens tf v)"
| "filt_tokens nm tf (FNot f) = TName ''NOT'' # filt_tokens nm tf f"

definition arg :: "string \<Rightarrow> token list \<Rightarrow> token list" where
  "arg k v = TName k # TPunct (CHR '':'') # v"

definition comma :: "token list \<Rightarrow> token list" where
  "comma a = TPunct (CHR '','') # a"

definition block :: "token list \<Rightarrow> token list" where
  "block ts = TPunct (CHR ''{'') # ts @ [TPunct (CHR ''}'')]"

definition head_tokens :: "(pred \<Rightarrow> string) \<Rightarrow> (int \<Rightarrow> string) \<Rightarrow> string \<Rightarrow> query \<Rightarrow> token list \<Rightarrow> token list" where
  "head_tokens nm tf name q args =
     call name (arg ''func'' (func_tokens nm tf (q_func q)) @ args) @
     concat (map (\<lambda>f. TPunct (CHR ''@'') # call ''filter'' (filt_tokens nm tf f)) (q_filter q))"

text \<open>The tokens of a query under the name of its block, the second block included that counts.\<close>

definition query_tokens :: "(pred \<Rightarrow> string) \<Rightarrow> (int \<Rightarrow> string) \<Rightarrow> string \<Rightarrow> query \<Rightarrow> token list" where
  "query_tokens nm tf name q = block
     (head_tokens nm tf name q
        ((case q_orderasc q of None \<Rightarrow> [] | Some p \<Rightarrow> comma (arg ''orderasc'' [TName (nm p)])) @
         (case q_page q of
            None \<Rightarrow> []
          | Some (off, cnt) \<Rightarrow> comma (arg ''offset'' [TName (show_int off)]) @ comma (arg ''first'' [TName (show_int cnt)]))) @
      block (TName ''uid'' # map (\<lambda>p. TName (nm p)) (q_fields q)) @
      (if q_total q then head_tokens nm tf ''total'' q [] @ block (call ''count'' [TName ''uid'']) else []))"

section \<open>Scanning\<close>

lemma list_all_parts: "list_all P [] = True" "list_all P (x # xs) = (P x \<and> list_all P xs)"
  by simp_all

lemma name_chars:
  "list_all name_char ''abcdefghijklmnopqrstuvwxyzABCDEFGHIJKLMNOPQRSTUVWXYZ0123456789._$''"
  "list_all (\<lambda>c. \<not> json_space c) ''abcdefghijklmnopqrstuvwxyzABCDEFGHIJKLMNOPQRSTUVWXYZ0123456789._$(){}:,@''"
  "list_all json_space [CHR '' '', CHR 0x0A, CHR 0x09]"
  "list_all (\<lambda>c. \<not> name_char c) [CHR '' '', CHR 0x0A, CHR 0x09, CHR ''('', CHR '')'', CHR ''{'', CHR ''}'', CHR '':'', CHR '','', CHR ''@'']"
  by code_simp+

text \<open>Rewriting with the bundle \<open>scan\<close> scans a text that is written out.\<close>

lemmas scan_chars = name_chars [unfolded list_all_parts]

lemma scan_tabs: "dql_tokens (replicate n (CHR 0x09) @ b) = dql_tokens b"
  by (induction n) (simp_all add: scan_chars)

lemma name_not_space: "name_char c \<Longrightarrow> \<not> json_space c"
  by (auto simp: json_space_def name_char_def label_char_def byte_def)

lemma scan_name:
  assumes "f \<noteq> []" "list_all name_char f" "\<not> name_char c"
  shows "dql_tokens (f @ c # b) = map_option ((#) (TName f)) (dql_tokens (c # b))"
proof -
  obtain a g where f: "f = a # g" "name_char a" "\<forall>x \<in> set g. name_char x" using assms(1,2) by (cases f) (auto simp: list_all_iff)
  have "dql_tokens (a # g @ c # b) =
      map_option ((#) (TName (a # takeWhile name_char (g @ c # b)))) (dql_tokens (dropWhile name_char (g @ c # b)))"
    using f(2) name_not_space [of a] by (subst dql_tokens.simps(2)) simp
  then show ?thesis using f(1,3) assms(3) by (simp only: append.simps takeWhile_append2 dropWhile_append2) simp
qed

lemma scan_quote:
  "dql_tokens (Quote isp s @ b) = (if plain s then map_option ((#) (TStr s)) (dql_tokens b) else None)"
proof -
  have "\<not> json_space (CHR 0x22)" "\<not> name_char (CHR 0x22)" by code_simp+
  then show ?thesis using quoted_reads [of isp s b] by (simp add: Quote_def)
qed

lemma scan_uid:
  assumes "re_match validDgraphUID u"
  shows "dql_tokens (u @ CHR '')'' # b) = map_option ((#) (TName u)) (dql_tokens (CHR '')'' # b))"
proof (rule scan_name)
  obtain h where h: "u = ''0x'' @ h" "\<forall>c \<in> set h. hex_char c" using assms by (auto simp: validDgraphUID_matches)
  have "hex_char c \<Longrightarrow> name_char c" for c by (auto simp: hex_char_def name_chars(1) scan_chars)
  with h show "list_all name_char u" "u \<noteq> []" by (simp_all add: list_all_iff scan_chars)
qed (simp add: scan_chars)

lemmas scan = scan_chars scan_tabs scan_quote scan_uid

end
