(* ===== verification/Session_Text.thy ===== *)
theory Session_Text
  imports Dgraph_Session Nquads
begin

text \<open>
  \<^verbatim>\<open>internal/repository/dgraph/session.go\<close> once more, as text: the N-Quads of the mutations the session repository sends, built with
  \<^verbatim>\<open>fmt.Sprintf\<close>, and what a reader of N-Quads makes of them. \<^verbatim>\<open>Dgraph_Session\<close> works with the statements as data; here
  the two are related. The arguments \<open>isp\<close> and \<open>tf\<close> are \<^verbatim>\<open>strconv.IsPrint\<close> above U+00FF and the RFC 3339 text
  of a second; whatever they are, no value can end its literal early.
\<close>

section \<open>Statements as data\<close>

primrec pred_name :: "pred \<Rightarrow> string" where
  "pred_name DgraphType = ''dgraph.type''"
| "pred_name U_id = ''user.id''"
| "pred_name U_first_name = ''user.first_name''"
| "pred_name U_last_name = ''user.last_name''"
| "pred_name U_nickname = ''user.nickname''"
| "pred_name U_password_hash = ''user.password_hash''"
| "pred_name U_email = ''user.email''"
| "pred_name U_country = ''user.country''"
| "pred_name U_active = ''user.active''"
| "pred_name U_created_at = ''user.created_at''"
| "pred_name U_updated_at = ''user.updated_at''"
| "pred_name SA_id = ''sa.id''"
| "pred_name SA_client_id = ''sa.client_id''"
| "pred_name SA_name = ''sa.name''"
| "pred_name SA_secret_hash = ''sa.secret_hash''"
| "pred_name SA_actor_type = ''sa.actor_type''"
| "pred_name SA_permissions = ''sa.permissions''"
| "pred_name SA_active = ''sa.active''"
| "pred_name SA_created_at = ''sa.created_at''"
| "pred_name SA_updated_at = ''sa.updated_at''"
| "pred_name S_kind = ''session.kind''"
| "pred_name S_user_id = ''session.user_id''"
| "pred_name S_client_id = ''session.client_id''"
| "pred_name S_actor_id = ''session.actor_id''"
| "pred_name S_actor_type = ''session.actor_type''"
| "pred_name S_access_token_hash = ''session.access_token_hash''"
| "pred_name S_refresh_token_hash = ''session.refresh_token_hash''"
| "pred_name S_refresh_jti = ''session.refresh_jti''"
| "pred_name S_replaced_by_jti = ''session.replaced_by_jti''"
| "pred_name S_permissions = ''session.permissions''"
| "pred_name S_delegated_permissions = ''session.delegated_permissions''"
| "pred_name S_policy_groups = ''session.policy_groups''"
| "pred_name S_permission_version = ''session.permission_version''"
| "pred_name S_created_at = ''session.created_at''"
| "pred_name S_updated_at = ''session.updated_at''"
| "pred_name S_last_seen_at = ''session.last_seen_at''"
| "pred_name S_expires_at = ''session.expires_at''"
| "pred_name S_refresh_expires_at = ''session.refresh_expires_at''"
| "pred_name S_revoked = ''session.revoked''"
| "pred_name S_revoked_at = ''session.revoked_at''"
| "pred_name S_user_agent = ''session.user_agent''"
| "pred_name S_ip_address = ''session.ip_address''"

definition nq_subject_of :: "subj \<Rightarrow> nq_subject" where
  "nq_subject_of s = (case s of Blank b \<Rightarrow> NBlank b | Uid u \<Rightarrow> NIri u)"

definition quad_statement :: "(int \<Rightarrow> string) \<Rightarrow> nquad \<Rightarrow> statement" where
  "quad_statement tf q =
     (case q of (s, p, v) \<Rightarrow>
        (nq_subject_of s, pred_name p,
         (case v of
            VStr x \<Rightarrow> (x, None)
          | VBool b \<Rightarrow> ((if b then ''true'' else ''false''), Some ''xs:boolean'')
          | VInt n \<Rightarrow> (show_nat n, Some ''xs:int'')
          | VTime t \<Rightarrow> (tf t, None))))"

definition quad_plain :: "(int \<Rightarrow> string) \<Rightarrow> nquad \<Rightarrow> bool" where
  "quad_plain tf q = (case snd (snd q) of VStr x \<Rightarrow> plain x | VTime t \<Rightarrow> plain (tf t) | _ \<Rightarrow> True)"

text \<open>The text says these statements, or, when a value cannot be written in N-Quads, nothing that can be read.\<close>

definition reads_as :: "(int \<Rightarrow> string) \<Rightarrow> string \<Rightarrow> nquad list \<Rightarrow> bool" where
  "reads_as tf txt qs =
     (nq_read txt = (if list_all (quad_plain tf) qs then Some (map (quad_statement tf) qs) else None))"

section \<open>The texts\<close>

abbreviation nl :: string where "nl \<equiv> [CHR 0x0A]"
abbreviation tab :: string where "tab \<equiv> [CHR 0x09]"

definition bool_lit :: "string \<Rightarrow> nq_object" where
  "bool_lit b = Typed b ''xs:boolean''"

definition lines_text :: "(nat \<Rightarrow> bool) \<Rightarrow> string \<Rightarrow> nq_subject \<Rightarrow> (string \<times> nq_object) list \<Rightarrow> string" where
  "lines_text isp ind s ls = concat (map (\<lambda>(p, ob). nq_line isp ind (s, p, ob)) ls)"

definition create_text :: "(nat \<Rightarrow> bool) \<Rightarrow> (int \<Rightarrow> string) \<Rightarrow> int \<Rightarrow> SessionCreateInput \<Rightarrow> string" where
  "create_text isp tf now inp =
     (let s = NBlank ''session''; t = tf (fmt_rfc3339 now) in
      nl @ lines_text isp (tab @ tab) s
        [(''dgraph.type'', Bare ''Session''),
         (''session.kind'', Quoted (sci_Kind inp)),
         (''session.user_id'', Quoted (sci_UserID inp)),
         (''session.client_id'', Quoted (sci_ClientID inp)),
         (''session.actor_id'', Quoted (sci_ActorID inp)),
         (''session.actor_type'', Quoted (sci_ActorType inp)),
         (''session.access_token_hash'', Quoted (sci_AccessTokenHash inp)),
         (''session.refresh_token_hash'', Quoted (sci_RefreshTokenHash inp)),
         (''session.refresh_jti'', Quoted (sci_RefreshJTI inp)),
         (''session.permission_version'', Typed (show_nat (sci_PermissionVersion inp)) ''xs:int''),
         (''session.expires_at'', Quoted (tf (fmt_rfc3339 (sci_ExpiresAt inp)))),
         (''session.refresh_expires_at'', Quoted (tf (fmt_rfc3339 (sci_RefreshExpiresAt inp)))),
         (''session.revoked'', bool_lit ''false''),
         (''session.created_at'', Quoted t),
         (''session.updated_at'', Quoted t),
         (''session.last_seen_at'', Quoted t),
         (''session.user_agent'', Quoted (sci_UserAgent inp)),
         (''session.ip_address'', Quoted (sci_IPAddress inp))] @ tab @
      lines_text isp [] s (map (\<lambda>p. (''session.permissions'', Quoted p)) (sci_Permissions inp)) @
      lines_text isp [] s (map (\<lambda>p. (''session.delegated_permissions'', Quoted p)) (sci_DelegatedPermissions inp)) @
      lines_text isp [] s (map (\<lambda>g. (''session.policy_groups'', Quoted g)) (sci_PolicyGroups inp)))"

definition rotate_text ::
  "(nat \<Rightarrow> bool) \<Rightarrow> (int \<Rightarrow> string) \<Rightarrow> int \<Rightarrow> SessionRefreshInput \<Rightarrow> sessionNode \<Rightarrow> string" where
  "rotate_text isp tf now inp old =
     (let carry = (length (sri_Permissions inp) = 0);
          perms = (if carry then sn_Permissions old else sri_Permissions inp);
          delegPerms = (if carry then sn_DelegPerms old else sri_DelegatedPermissions inp);
          pgroups = (if carry then sn_PolicyGroups old else sri_PolicyGroups inp);
          permVersion = (if carry then sn_PermVersion old else sri_PermissionVersion inp);
          t = tf (fmt_rfc3339 now); o' = NIri (sn_UID old); s = NBlank ''new'' in
      nl @ lines_text isp (tab @ tab) o'
        [(''session.revoked'', bool_lit ''true''),
         (''session.revoked_at'', Quoted t),
         (''session.replaced_by_jti'', Quoted (sri_NewRefreshJTI inp)),
         (''session.updated_at'', Quoted t)] @ tab @
      nl @
      nl @ lines_text isp (tab @ tab) s
        [(''dgraph.type'', Bare ''Session''),
         (''session.kind'', Quoted (sn_Kind old)),
         (''session.user_id'', Quoted (sn_UserID old)),
         (''session.client_id'', Quoted (sn_ClientID old)),
         (''session.actor_id'', Quoted (sn_ActorID old)),
         (''session.actor_type'', Quoted (sn_ActorType old)),
         (''session.access_token_hash'', Quoted (sri_NewAccessTokenHash inp)),
         (''session.refresh_token_hash'', Quoted (sri_NewRefreshTokenHash inp)),
         (''session.refresh_jti'', Quoted (sri_NewRefreshJTI inp)),
         (''session.permission_version'', Typed (show_nat permVersion) ''xs:int''),
         (''session.expires_at'', Quoted (tf (fmt_rfc3339 (sri_NewExpiresAt inp)))),
         (''session.refresh_expires_at'', Quoted (tf (fmt_rfc3339 (sri_NewRefreshExpiresAt inp)))),
         (''session.revoked'', bool_lit ''false''),
         (''session.created_at'', Quoted t),
         (''session.updated_at'', Quoted t),
         (''session.last_seen_at'', Quoted t),
         (''session.user_agent'', Quoted (sri_UserAgent inp)),
         (''session.ip_address'', Quoted (sri_IPAddress inp))] @ tab @
      lines_text isp [] s (map (\<lambda>p. (''session.permissions'', Quoted p)) perms) @
      lines_text isp [] s (map (\<lambda>p. (''session.delegated_permissions'', Quoted p)) delegPerms) @
      lines_text isp [] s (map (\<lambda>g. (''session.policy_groups'', Quoted g)) pgroups))"

definition revoke_lines :: "(int \<Rightarrow> string) \<Rightarrow> int \<Rightarrow> (string \<times> nq_object) list" where
  "revoke_lines tf now =
     [(''session.revoked'', bool_lit ''true''),
      (''session.revoked_at'', Quoted (tf (fmt_rfc3339 now))),
      (''session.updated_at'', Quoted (tf (fmt_rfc3339 now)))]"

definition revoke_text :: "(nat \<Rightarrow> bool) \<Rightarrow> (int \<Rightarrow> string) \<Rightarrow> int \<Rightarrow> string \<Rightarrow> string" where
  "revoke_text isp tf now sessionID =
     nl @ lines_text isp (tab @ tab) (NIri sessionID) (revoke_lines tf now) @ tab"

definition revoke_all_text :: "(nat \<Rightarrow> bool) \<Rightarrow> (int \<Rightarrow> string) \<Rightarrow> int \<Rightarrow> string list \<Rightarrow> string" where
  "revoke_all_text isp tf now uids =
     concat (map (\<lambda>u. nl @ lines_text isp (tab @ tab @ tab) (NIri u) (revoke_lines tf now) @ tab @ tab) uids)"

definition touch_text :: "(nat \<Rightarrow> bool) \<Rightarrow> (int \<Rightarrow> string) \<Rightarrow> int \<Rightarrow> string \<Rightarrow> string" where
  "touch_text isp tf now sessionID =
     lines_text isp [] (NIri sessionID) [(''session.last_seen_at'', Quoted (tf (fmt_rfc3339 now)))]"

section \<open>Reading them back\<close>

text \<open>\<open>says tf txt qs\<close>: in front of any other text, \<open>txt\<close> adds exactly the statements \<open>qs\<close>.\<close>

definition says :: "(int \<Rightarrow> string) \<Rightarrow> string \<Rightarrow> nquad list \<Rightarrow> bool" where
  "says tf txt qs =
     (\<forall>r. nq_read (txt @ r) =
        (if list_all (quad_plain tf) qs then map_option ((@) (map (quad_statement tf) qs)) (nq_read r) else None))"

lemma map_option_append [simp]: "map_option ((@) []) x = x" "map_option ((@) ys) (map_option ((@) zs) x) = map_option ((@) (ys @ zs)) x"
  by (cases x; simp)+

lemma says_append: "says tf a ps \<Longrightarrow> says tf b qs \<Longrightarrow> says tf (a @ b) (ps @ qs)"
  by (simp add: says_def)

lemma says_space: "list_all json_space w \<Longrightarrow> says tf w []"
  by (simp add: says_def nq_read_space)

lemma says_concat: "(\<And>x. x \<in> set xs \<Longrightarrow> says tf (f x) (g x)) \<Longrightarrow> says tf (concat (map f xs)) (concat (map g xs))"
  by (induction xs) (auto intro: says_append says_space)

lemma says_reads:
  assumes "says tf txt qs"
  shows "reads_as tf txt qs"
proof -
  have "nq_read [] = Some []" by (simp add: nq_read_step)
  with assms show ?thesis unfolding says_def reads_as_def by (metis append_Nil2 option.simps(9))
qed

text \<open>A line of a template and the statement it stands for.\<close>

definition line_for :: "(int \<Rightarrow> string) \<Rightarrow> nq_subject \<Rightarrow> string \<times> nq_object \<Rightarrow> nquad \<Rightarrow> bool" where
  "line_for tf s l q =
     (case l of (p, ob) \<Rightarrow> line_ok (s, p, ob) \<and> quad_statement tf q = (s, p, object_value ob) \<and> quad_plain tf q = object_plain ob)"

lemma says_line:
  assumes "list_all json_space ind" "line_for tf s l q"
  shows "says tf (nq_line isp ind (s, l)) [q]"
proof -
  obtain p ob where l: "l = (p, ob)" by (cases l)
  with assms(2) have "line_ok (s, p, ob)" "quad_statement tf q = (s, p, object_value ob)" "quad_plain tf q = object_plain ob"
    by (simp_all add: line_for_def)
  then show ?thesis using read_line [OF assms(1)] unfolding l
    by (auto simp: says_def line_plain_def line_statement_def fun_eq_iff intro: option.map_cong)
qed

lemma says_lines:
  assumes "list_all json_space ind" "list_all2 (line_for tf s) ls qs"
  shows "says tf (lines_text isp ind s ls) qs"
  using assms(2)
proof (induction rule: list_all2_induct)
  case (Cons l ls q qs)
  then show ?case using says_append [OF says_line [OF assms(1) Cons(1)] Cons(3)] by (simp add: lines_text_def split_def)
qed (simp add: lines_text_def says_space)

lemma iri_pred: "list_all iri_char (pred_name p)"
  by (cases p) (simp_all add: iri_char_def byte_def)

definition object_for :: "(int \<Rightarrow> string) \<Rightarrow> nq_object \<Rightarrow> val \<Rightarrow> bool" where
  "object_for tf ob v =
     (object_ok ob \<and> object_plain ob = (case v of VStr x \<Rightarrow> plain x | VTime t \<Rightarrow> plain (tf t) | _ \<Rightarrow> True) \<and>
      object_value ob =
        (case v of VStr x \<Rightarrow> (x, None) | VBool b \<Rightarrow> ((if b then ''true'' else ''false''), Some ''xs:boolean'')
         | VInt n \<Rightarrow> (show_nat n, Some ''xs:int'') | VTime t \<Rightarrow> (tf t, None)))"

lemma line_for_iff [simp]:
  "line_for tf s (n, ob) (u, p, v) \<longleftrightarrow> n = pred_name p \<and> s = nq_subject_of u \<and> subject_ok s \<and> object_for tf ob v"
  using iri_pred [of p] by (auto simp: line_for_def line_ok_def quad_statement_def quad_plain_def object_for_def)

lemma show_nat_label: "list_all label_char (show_nat n)"
  using show_nat_ok(2) [of n] by (auto simp: list_all_iff label_char_def is_dec_def)

lemma object_for_simps [simp]:
  "object_for tf (Quoted x) (VStr y) \<longleftrightarrow> x = y"
  "object_for tf (Quoted x) (VTime t) \<longleftrightarrow> x = tf t"
  "object_for tf (Typed (show_nat n) ''xs:int'') (VInt n)"
  "object_for tf (bool_lit ''true'') (VBool True)" "object_for tf (bool_lit ''false'') (VBool False)"
  "object_for tf (Bare ''Session'') (VStr ''Session'')"
proof -
  have i: "list_all iri_char ''xs:int''" "list_all iri_char ''xs:boolean''" "list_all label_char ''true''"
    "list_all label_char ''false''" "list_all label_char ''Session''" by code_simp+
  have s: "plain ''Session''" by (rule plain_ascii) code_simp
  show "object_for tf (Quoted x) (VStr y) \<longleftrightarrow> x = y" "object_for tf (Quoted x) (VTime t) \<longleftrightarrow> x = tf t"
    by (auto simp: object_for_def object_ok_def object_plain_def object_value_def)
  show "object_for tf (Typed (show_nat n) ''xs:int'') (VInt n)"
    "object_for tf (bool_lit ''true'') (VBool True)" "object_for tf (bool_lit ''false'') (VBool False)"
    "object_for tf (Bare ''Session'') (VStr ''Session'')"
    using i s show_nat_label by (simp_all add: object_for_def object_ok_def object_plain_def object_value_def bool_lit_def)
qed

lemma subject_of_simps [simp]:
  "nq_subject_of (Blank b) = NBlank b" "nq_subject_of (Uid u) = NIri u"
  "subject_ok (NBlank ''session'')" "subject_ok (NBlank ''new'')"
proof -
  show "subject_ok (NBlank ''session'')" "subject_ok (NBlank ''new'')" by code_simp+
qed (simp_all add: nq_subject_of_def)

lemma uid_subject: "re_match validDgraphUID u \<Longrightarrow> subject_ok (NIri u)"
proof -
  assume "re_match validDgraphUID u"
  then obtain h where "u = ''0x'' @ h" "list_all hex_char h" by (auto simp: validDgraphUID_matches list_all_iff)
  moreover have "hex_char c \<Longrightarrow> iri_char c" for c
  proof -
    have "list_all iri_char ''0123456789abcdefABCDEF''" by code_simp
    then show "hex_char c \<Longrightarrow> iri_char c" by (auto simp: hex_char_def)
  qed
  moreover have "list_all iri_char ''0x''" by code_simp
  ultimately show ?thesis by (auto simp: subject_ok_def list_all_iff)
qed

lemma white [simp]: "list_all json_space nl" "list_all json_space tab" "list_all json_space (tab @ tab)"
  "list_all json_space (tab @ tab @ tab)"
  by code_simp+

lemma says_before: "list_all json_space w \<Longrightarrow> says tf txt qs \<Longrightarrow> says tf (w @ txt) qs"
  using says_append [OF says_space] by fastforce

lemma says_after: "says tf txt qs \<Longrightarrow> list_all json_space w \<Longrightarrow> says tf (txt @ w) qs"
  using says_append [OF _ says_space] by fastforce

lemma says_values:
  "n = pred_name p \<Longrightarrow> s = nq_subject_of u \<Longrightarrow> subject_ok s \<Longrightarrow>
   says tf (lines_text isp [] s (map (\<lambda>x. (n, Quoted x)) xs)) (map (\<lambda>x. (u, p, VStr x)) xs)"
  by (rule says_lines) (simp_all add: list_all2_map1 list_all2_map2 list_all2_same)

lemma create_says: "says tf (create_text isp tf now inp) (create_nquads now inp)"
  unfolding create_text_def create_nquads_def session_quads_def Let_def
  by (rule says_before, rule white, rule says_append, rule says_lines, rule white, simp, rule says_before, rule white)
    (intro says_append says_values; simp)

lemma rotate_says:
  assumes "re_match validDgraphUID (sn_UID old)"
  shows "says tf (rotate_text isp tf now inp old) (rotate_nquads now inp old)"
  unfolding rotate_text_def rotate_nquads_def Let_def
  by (rule says_before, rule white, rule says_append, rule says_lines, rule white, simp add: uid_subject [OF assms],
      rule says_before, rule white, rule says_before, rule white, rule says_before, rule white,
      rule says_append, rule says_lines, rule white, simp, rule says_before, rule white)
    (intro says_append says_values; simp)

lemma revoke_says:
  assumes "re_match validDgraphUID u" "list_all json_space ind"
  shows "says tf (lines_text isp ind (NIri u) (revoke_lines tf now)) (revoke_nquads now u)"
  using assms uid_subject [OF assms(1)] by (intro says_lines) (simp_all add: revoke_lines_def revoke_nquads_def)

text \<open>C15: The text of every mutation of the session repository, read as N-Quads, is exactly the statements the repository means,
  whatever strings the values are - users choose some of them - or it cannot be read at all: that is so just when a value is not UTF-8 or has a control
  character for which Go's \<^verbatim>\<open>%q\<close> writes an escape that N-Quads does not have.\<close>

theorem mutation_texts_read_back:
  assumes "re_match validDgraphUID u" "re_match validDgraphUID (sn_UID old)" "list_all (re_match validDgraphUID) us"
  shows "reads_as tf (create_text isp tf now inp) (create_nquads now inp) \<and>
    reads_as tf (rotate_text isp tf now rin old) (rotate_nquads now rin old) \<and>
    reads_as tf (revoke_text isp tf now u) (revoke_nquads now u) \<and>
    reads_as tf (revoke_all_text isp tf now us) (concat (map (revoke_nquads now) us)) \<and>
    reads_as tf (touch_text isp tf now u) [(Uid u, S_last_seen_at, VTime (fmt_rfc3339 now))]"
proof (intro conjI says_reads)
  show "says tf (revoke_text isp tf now u) (revoke_nquads now u)" unfolding revoke_text_def
    by (rule says_before, rule white, rule says_after, rule revoke_says [OF assms(1)], rule white, rule white)
  have "says tf (nl @ lines_text isp (tab @ tab @ tab) (NIri v) (revoke_lines tf now) @ tab @ tab) (revoke_nquads now v)"
    if "v \<in> set us" for v
  proof -
    have v: "re_match validDgraphUID v" using assms(3) that by (simp add: list_all_iff)
    show ?thesis by (rule says_before, rule white, rule says_after, rule revoke_says [OF v], rule white, rule white)
  qed
  then show "says tf (revoke_all_text isp tf now us) (concat (map (revoke_nquads now) us))"
    unfolding revoke_all_text_def by (rule says_concat)
  show "says tf (touch_text isp tf now u) [(Uid u, S_last_seen_at, VTime (fmt_rfc3339 now))]"
    unfolding touch_text_def by (rule says_lines) (simp_all add: uid_subject [OF assms(1)])
qed (rule create_says rotate_says [OF assms(2)])+

definition ex_hostile :: string where \<comment> \<open>a user agent that tries to end the literal and revoke another session\<close>
  "ex_hostile = CHR 0x22 # '' . <0x7> <session.revoked> '' @ [CHR 0x0A]"

definition ex_text_input :: "string \<Rightarrow> SessionCreateInput" where
  "ex_text_input ua =
     \<lparr>sci_Kind = ''USER'', sci_UserID = ''u'', sci_ClientID = '''', sci_ActorID = '''', sci_ActorType = '''',
      sci_AccessTokenHash = ''a'', sci_RefreshTokenHash = ''r'', sci_RefreshJTI = ''j'', sci_Permissions = [''read''],
      sci_DelegatedPermissions = [], sci_PolicyGroups = [], sci_PermissionVersion = 3, sci_ExpiresAt = 0,
      sci_RefreshExpiresAt = 0, sci_UserAgent = ua, sci_IPAddress = ''''\<rparr>"

definition ex_text_refresh :: SessionRefreshInput where
  "ex_text_refresh =
     \<lparr>sri_OldSessionID = ''0x1'', sri_NewAccessTokenHash = ''a'', sri_NewRefreshTokenHash = ''r'', sri_NewRefreshJTI = ''j'',
      sri_Permissions = [], sri_DelegatedPermissions = [], sri_PolicyGroups = [], sri_PermissionVersion = 0,
      sri_NewExpiresAt = 0, sri_NewRefreshExpiresAt = 0, sri_UserAgent = '''', sri_IPAddress = ''''\<rparr>"

definition ex_text_old :: sessionNode where
  "ex_text_old = decode_session \<lparr>jn_uid = ''0x1'', jn_val = (\<lambda>_. [])\<rparr>"

lemma ex_hostile_plain: "plain ex_hostile" "\<not> plain [char_of (255 :: nat)]"
  by (simp_all add: ex_hostile_def rune_plain_def RuneError_def byte_def tail_len_def)

theorem mutation_texts_read_back_witness:
  "nq_read (create_text (\<lambda>_. True) (\<lambda>_. ''t'') 0 (ex_text_input ex_hostile)) =
     Some (map (quad_statement (\<lambda>_. ''t'')) (create_nquads 0 (ex_text_input ex_hostile))) \<and>
   nq_read (create_text (\<lambda>_. True) (\<lambda>_. ''t'') 0 (ex_text_input [char_of (255 :: nat)])) = None"
proof -
  have u: "re_match validDgraphUID ''0x1''" by code_simp
  then have o: "re_match validDgraphUID (sn_UID ex_text_old)" by (simp add: ex_text_old_def decode_session_def Let_def)
  have r: "reads_as (\<lambda>_. ''t'') (create_text (\<lambda>_. True) (\<lambda>_. ''t'') 0 (ex_text_input ua)) (create_nquads 0 (ex_text_input ua))" for ua
    using mutation_texts_read_back [OF u o, of "[''0x1'', ''0x1'']" "\<lambda>_. ''t''" "\<lambda>_. True" 0 "ex_text_input ua" ex_text_refresh] u by simp
  have p: "plain ''USER''" "plain ''u''" "plain ''a''" "plain ''r''" "plain ''j''" "plain ''t''" "plain ''Session''" "plain ''read''"
    by (rule plain_ascii, code_simp)+
  have q: "list_all (quad_plain (\<lambda>_. ''t'')) (create_nquads 0 (ex_text_input ua)) = plain ua" for ua
    using p by (simp add: create_nquads_def session_quads_def Let_def ex_text_input_def quad_plain_def)
  show ?thesis using r [of ex_hostile] r [of "[char_of (255 :: nat)]"] ex_hostile_plain
    unfolding reads_as_def q by simp
qed

end
