(* ===== verification/User_Repo.thy ===== *)
theory User_Repo
  imports Dgraph
begin

text \<open>
  The contract of the user store, \<^verbatim>\<open>repository.UserRepository\<close>: the record \<open>user_repo\<close> has one field per
  method of the Go interface, and the locale \<open>user_repository\<close> states what the methods promise over a
  table of users by node. A read with a zookie is a strong read; a read without one (\<open>None\<close>, the nil
  pointer) promises nothing about freshness and has no law. \<open>Update\<close> and \<open>Delete\<close> take the state their
  read meets and the state their write meets.
\<close>

record 'db user_repo =
  ur_Create :: "User \<Rightarrow> 'db \<Rightarrow> Zookie res \<times> 'db"
  ur_GetByID :: "string \<Rightarrow> Zookie option \<Rightarrow> 'db \<Rightarrow> User res"
  ur_GetByEmail :: "string \<Rightarrow> Zookie option \<Rightarrow> 'db \<Rightarrow> User res"
  ur_Update :: "int \<Rightarrow> string \<Rightarrow> UpdateUserInput \<Rightarrow> 'db \<Rightarrow> 'db \<Rightarrow> (User \<times> Zookie) res \<times> 'db"
  ur_Delete :: "string \<Rightarrow> 'db \<Rightarrow> 'db \<Rightarrow> Zookie res \<times> 'db"
  ur_List :: "ListFilter \<Rightarrow> Zookie option \<Rightarrow> 'db \<Rightarrow> ListResult res"
  ur_Ping :: "'db \<Rightarrow> unit res"

type_synonym users = "uid \<Rightarrow> User option"

text \<open>A user as stored: times in whole seconds.\<close>

definition stored_user :: "User \<Rightarrow> User" where
  "stored_user u = u\<lparr>usr_CreatedAt := trunc_sec (usr_CreatedAt u), usr_UpdatedAt := trunc_sec (usr_UpdatedAt u)\<rparr>"

definition taken :: "users \<Rightarrow> string \<Rightarrow> string \<Rightarrow> bool" where
  "taken U email nick = (\<exists>x u. U x = Some u \<and> (usr_Email u = email \<or> usr_Nickname u = nick))"

text \<open>
  The effect of a partial update on the stored user: only the fields given change, and a field given
  as the empty string keeps its stored value (the wire struct omits empty fields).
\<close>

definition set_field :: "string option \<Rightarrow> string \<Rightarrow> string" where
  "set_field v old = (case v of None \<Rightarrow> old | Some x \<Rightarrow> if x = '''' then old else x)"

definition updated_user :: "int \<Rightarrow> UpdateUserInput \<Rightarrow> User \<Rightarrow> User" where
  "updated_user now i u =
     u\<lparr>usr_FirstName := set_field (uui_FirstName i) (usr_FirstName u),
       usr_LastName := set_field (uui_LastName i) (usr_LastName u),
       usr_Nickname := set_field (uui_Nickname i) (usr_Nickname u),
       usr_Country := set_field (uui_Country i) (usr_Country u),
       usr_UpdatedAt := trunc_sec now\<rparr>"

text \<open>The user \<open>Update\<close> returns: the fields as the caller gave them, empty ones included, and no password hash.\<close>

definition shown_user :: "int \<Rightarrow> UpdateUserInput \<Rightarrow> User \<Rightarrow> User" where
  "shown_user now i u =
     u\<lparr>usr_FirstName := case_option (usr_FirstName u) (\<lambda>x. x) (uui_FirstName i),
       usr_LastName := case_option (usr_LastName u) (\<lambda>x. x) (uui_LastName i),
       usr_Nickname := case_option (usr_Nickname u) (\<lambda>x. x) (uui_Nickname i),
       usr_Country := case_option (usr_Country u) (\<lambda>x. x) (uui_Country i),
       usr_PasswordHash := '''', usr_UpdatedAt := trunc_sec now\<rparr>"

text \<open>
  A page of the users a filter asks for: some fixed order of their nodes, the slice the page number and
  size cut out of it, and each user as stored but without the password hash.
\<close>

definition listed :: "ListFilter \<Rightarrow> users \<Rightarrow> uid set" where
  "listed f U = {x. \<exists>u. U x = Some u \<and> usr_Active u \<and> (lf_Country f = '''' \<or> usr_Country u = lf_Country f)}"

definition enumerates :: "uid list \<Rightarrow> ListFilter \<Rightarrow> users \<Rightarrow> bool" where
  "enumerates xs f U = (distinct xs \<and> set xs = listed f U)"

definition page_of :: "ListFilter \<Rightarrow> users \<Rightarrow> uid list \<Rightarrow> User list" where
  "page_of f U xs = map (\<lambda>x. (the (U x))\<lparr>usr_PasswordHash := ''''\<rparr>)
     (take (nat (lf_PageSize f)) (drop (nat ((lf_Page f - 1) * lf_PageSize f)) xs))"

lemma enumerates_card: "enumerates xs f U \<Longrightarrow> card (listed f U) = length xs"
  by (auto simp: enumerates_def dest: distinct_card)

lemma length_page_of:
  assumes "1 \<le> lf_Page f" "1 \<le> lf_PageSize f"
  shows "int (length (page_of f U xs)) = max 0 (min (lf_PageSize f) (int (length xs) - (lf_Page f - 1) * lf_PageSize f))"
proof -
  have "0 \<le> (lf_Page f - 1) * lf_PageSize f" using assms by simp
  then show ?thesis using assms(2) by (simp add: page_of_def min_def max_def) linarith
qed

locale user_repository =
  fixes repo :: "'db user_repo"
    and users :: "'db \<Rightarrow> users"
    and inv :: "'db \<Rightarrow> bool"
  assumes create_ok: "inv db \<Longrightarrow> ur_Create repo u db = (Inr z, db') \<Longrightarrow>
      usr_Email u \<noteq> '''' \<Longrightarrow> usr_Nickname u \<noteq> '''' \<Longrightarrow>
      \<not> taken (users db) (to_lower (usr_Email u)) (usr_Nickname u) \<and>
      (\<exists>x. users db x = None \<and> users db' = (users db)(x \<mapsto> stored_user u))"
    and create_err: "inv db \<Longrightarrow> ur_Create repo u db = (Inl e, db') \<Longrightarrow>
      usr_Email u \<noteq> '''' \<Longrightarrow> usr_Nickname u \<noteq> '''' \<Longrightarrow>
      foreign e \<or> e = Sentinel ErrUserAlreadyExists \<and> users db' = users db \<and>
        taken (users db) (to_lower (usr_Email u)) (usr_Nickname u)"
    and create_inv: "inv db \<Longrightarrow> ur_Create repo u db = (r, db') \<Longrightarrow> inv db'"
    and by_id_ok: "inv db \<Longrightarrow> ur_GetByID repo i (Some z) db = Inr u \<Longrightarrow>
      usr_ID u = i \<and> (\<exists>x. users db x = Some u)"
    and by_id_err: "inv db \<Longrightarrow> ur_GetByID repo i (Some z) db = Inl e \<Longrightarrow>
      foreign e \<or> e = Sentinel ErrUserNotFound \<and> (\<forall>x u. users db x = Some u \<longrightarrow> usr_ID u \<noteq> i \<or> i = '''')"
    and by_email_ok: "inv db \<Longrightarrow> ur_GetByEmail repo m (Some z) db = Inr u \<Longrightarrow>
      usr_Email u = to_lower m \<and> (\<exists>x. users db x = Some u)"
    and by_email_err: "inv db \<Longrightarrow> ur_GetByEmail repo m (Some z) db = Inl e \<Longrightarrow>
      foreign e \<or> e = Sentinel ErrUserNotFound \<and> (\<forall>x u. users db x = Some u \<longrightarrow> usr_Email u \<noteq> to_lower m \<or> m = '''')"
    and update_ok: "inv db \<Longrightarrow> ur_Update repo now i inp db db = (Inr (u, z), db') \<Longrightarrow>
      \<exists>x old. users db x = Some old \<and> usr_ID old = i \<and> u = shown_user now inp old \<and>
        users db' = (users db)(x \<mapsto> updated_user now inp old)"
    and update_err: "inv db \<Longrightarrow> ur_Update repo now i inp db db = (Inl e, db') \<Longrightarrow>
      foreign e \<or> e = Sentinel ErrUserNotFound \<and> db' = db \<and> (\<forall>x u. users db x = Some u \<longrightarrow> usr_ID u \<noteq> i \<or> i = '''')"
    and update_inv: "inv db \<Longrightarrow> ur_Update repo now i inp db db = (r2, db') \<Longrightarrow> inv db'"
    and delete_ok: "inv db \<Longrightarrow> ur_Delete repo i db db = (Inr z, db') \<Longrightarrow>
      \<exists>x old. users db x = Some old \<and> usr_ID old = i \<and> users db' = (users db)(x := None)"
    and delete_err: "inv db \<Longrightarrow> ur_Delete repo i db db = (Inl e, db') \<Longrightarrow>
      foreign e \<or> e = Sentinel ErrUserNotFound \<and> db' = db \<and> (\<forall>x u. users db x = Some u \<longrightarrow> usr_ID u \<noteq> i \<or> i = '''')"
    and delete_inv: "inv db \<Longrightarrow> ur_Delete repo i db db = (r, db') \<Longrightarrow> inv db'"
    and list_ok: "inv db \<Longrightarrow> lf_PageSize f * lf_Page f < 2 ^ 63 \<Longrightarrow> 1 \<le> lf_Page f \<Longrightarrow> 1 \<le> lf_PageSize f \<Longrightarrow>
      lf_PageSize f \<le> 100 \<Longrightarrow> ur_List repo f (Some z) db = Inr l \<Longrightarrow>
      \<exists>xs. enumerates xs f (users db) \<and> lr_Users l = page_of f (users db) xs \<and>
        lr_Page l = lf_Page f \<and> lr_Total l = int (length xs) \<and> lr_Total l \<le> lr_Pages l * lf_PageSize f \<and>
        (lr_Pages l = 1 \<or> 1 < lr_Pages l \<and> (lr_Pages l - 1) * lf_PageSize f < lr_Total l)"

end
