(* ===== verification/Dgraph_User.thy ===== *)
theory Dgraph_User
  imports User_Repo
begin

text \<open>
  \<^verbatim>\<open>internal/repository/dgraph/repository.go\<close>: the wire struct, its JSON (empty fields are omitted on
  writing and read back as zero values), the read modes and every method of \<^verbatim>\<open>Repository\<close>, over any
  Dgraph client. The second half shows that a \<open>dgraph_client\<close> makes it a \<open>user_repository\<close>.
\<close>

section \<open>The Dgraph implementation\<close>

record dgraphUser =
  du_UID :: string
  du_DType :: "string list"
  du_ID :: string
  du_FirstName :: string
  du_LastName :: string
  du_Nickname :: string
  du_PasswordHash :: string
  du_Email :: string
  du_Country :: string
  du_Active :: bool
  du_CreatedAt :: "int option"
  du_UpdatedAt :: "int option"

definition decode_user :: "jnode \<Rightarrow> dgraphUser" where
  "decode_user j =
     (let n = jn_val j in
      \<lparr>du_UID = jn_uid j, du_DType = [], du_ID = jstr n U_id, du_FirstName = jstr n U_first_name,
       du_LastName = jstr n U_last_name, du_Nickname = jstr n U_nickname,
       du_PasswordHash = jstr n U_password_hash, du_Email = jstr n U_email,
       du_Country = jstr n U_country, du_Active = jbool n U_active,
       du_CreatedAt = jtime n U_created_at, du_UpdatedAt = jtime n U_updated_at\<rparr>)"

definition omit_str :: "subj \<Rightarrow> pred \<Rightarrow> string \<Rightarrow> nquad list" where \<comment> \<open>\<open>omitempty\<close>\<close>
  "omit_str s p x = (if x = '''' then [] else [(s, p, VStr x)])"

definition omit_time :: "subj \<Rightarrow> pred \<Rightarrow> int option \<Rightarrow> nquad list" where
  "omit_time s p x = (case x of None \<Rightarrow> [] | Some t \<Rightarrow> [(s, p, VTime t)])"

definition user_json :: "subj \<Rightarrow> dgraphUser \<Rightarrow> nquad list" where
  "user_json s d =
     map (\<lambda>t. (s, DgraphType, VStr t)) (du_DType d) @
     omit_str s U_id (du_ID d) @ omit_str s U_first_name (du_FirstName d) @
     omit_str s U_last_name (du_LastName d) @ omit_str s U_nickname (du_Nickname d) @
     omit_str s U_password_hash (du_PasswordHash d) @ omit_str s U_email (du_Email d) @
     omit_str s U_country (du_Country d) @ [(s, U_active, VBool (du_Active d))] @
     omit_time s U_created_at (du_CreatedAt d) @ omit_time s U_updated_at (du_UpdatedAt d)"

definition dgraphUser_toDomain :: "dgraphUser \<Rightarrow> User" where
  "dgraphUser_toDomain d =
     \<lparr>usr_ID = du_ID d, usr_FirstName = du_FirstName d, usr_LastName = du_LastName d,
      usr_Nickname = du_Nickname d, usr_PasswordHash = du_PasswordHash d, usr_Email = du_Email d,
      usr_Country = du_Country d, usr_Active = du_Active d,
      usr_CreatedAt = parse_time (du_CreatedAt d), usr_UpdatedAt = parse_time (du_UpdatedAt d)\<rparr>"

definition newReadTxn :: "Zookie option \<Rightarrow> qmode" where
  "newReadTxn zookie = (case zookie of None \<Rightarrow> BestEffort | Some _ \<Rightarrow> Strong)"

definition zookieFromTxn :: "64 word option \<Rightarrow> Zookie" where
  "zookieFromTxn t =
     (case t of None \<Rightarrow> zero_zookie | Some ts \<Rightarrow> if ts = 0 then zero_zookie else NewZookie ts)"

definition new_dgraphUser :: "User \<Rightarrow> dgraphUser" where
  "new_dgraphUser u =
     \<lparr>du_UID = ''_:user'', du_DType = [''User''], du_ID = usr_ID u, du_FirstName = usr_FirstName u,
      du_LastName = usr_LastName u, du_Nickname = usr_Nickname u, du_PasswordHash = usr_PasswordHash u,
      du_Email = usr_Email u, du_Country = usr_Country u, du_Active = usr_Active u,
      du_CreatedAt = Some (fmt_rfc3339 (usr_CreatedAt u)),
      du_UpdatedAt = Some (fmt_rfc3339 (usr_UpdatedAt u))\<rparr>"

definition create_user_mut :: "User \<Rightarrow> mutation" where
  "create_user_mut u =
     \<lparr>mu_set = user_json (Blank ''user'') (new_dgraphUser u), mu_del = [],
      mu_cond = [(U_email, VStr (to_lower (usr_Email u))), (U_nickname, VStr (usr_Nickname u))]\<rparr>"

definition Repository_Create :: "'db dgraph \<Rightarrow> User \<Rightarrow> 'db \<Rightarrow> Zookie res \<times> 'db" where
  "Repository_Create dg u db =
     (case dg_mutate dg (create_user_mut u) db of
        (Inl e, db') \<Rightarrow> (Inl (Wrap ''dgraph: create user'' e), db')
      | (Inr resp, db') \<Rightarrow>
          (if length (mr_uids resp) = 0 then (Inl (Sentinel ErrUserAlreadyExists), db')
           else (Inr (zookieFromTxn (mr_commit_ts resp)), db')))"

definition readFields :: "pred list" where
  "readFields = [U_id, U_first_name, U_last_name, U_nickname, U_email, U_country, U_active, U_created_at, U_updated_at]"

definition userFields :: "pred list" where
  "userFields = [U_id, U_first_name, U_last_name, U_nickname, U_password_hash, U_email, U_country, U_active,
     U_created_at, U_updated_at]"

definition user_query :: "pred \<Rightarrow> string \<Rightarrow> pred list \<Rightarrow> query" where
  "user_query p v fs =
     \<lparr>q_func = FuncEq p (VStr v), q_filter = [], q_orderasc = None, q_page = None, q_fields = fs, q_total = False\<rparr>"

definition apply_update :: "int \<Rightarrow> UpdateUserInput \<Rightarrow> dgraphUser \<Rightarrow> dgraphUser" where
  "apply_update now i d0 =
     (let d1 = (case uui_FirstName i of None \<Rightarrow> d0 | Some x \<Rightarrow> d0\<lparr>du_FirstName := x\<rparr>);
          d2 = (case uui_LastName i of None \<Rightarrow> d1 | Some x \<Rightarrow> d1\<lparr>du_LastName := x\<rparr>);
          d3 = (case uui_Nickname i of None \<Rightarrow> d2 | Some x \<Rightarrow> d2\<lparr>du_Nickname := x\<rparr>);
          d4 = (case uui_Country i of None \<Rightarrow> d3 | Some x \<Rightarrow> d3\<lparr>du_Country := x\<rparr>)
      in d4\<lparr>du_UpdatedAt := Some (fmt_rfc3339 now)\<rparr>)"

definition Repository_Update ::
  "'db dgraph \<Rightarrow> int \<Rightarrow> string \<Rightarrow> UpdateUserInput \<Rightarrow> 'db \<Rightarrow> 'db \<Rightarrow> (User \<times> Zookie) res \<times> 'db" where
  "Repository_Update dg now i inp snap db =
     (case dg_query dg Strong (user_query U_id i readFields) snap of
        Inl e \<Rightarrow> (Inl (Wrap ''dgraph: update read'' e), db)
      | Inr resp \<Rightarrow> (case unmarshal ''dgraph: update unmarshal'' resp of
          Inl e \<Rightarrow> (Inl e, db)
        | Inr (ns, _) \<Rightarrow> (case ns of
            [] \<Rightarrow> (Inl (Sentinel ErrUserNotFound), db)
          | n # _ \<Rightarrow>
              (let du = apply_update now inp (decode_user n) in
               case dg_commit dg (set_nquads (user_json (Uid (du_UID du)) du)) snap db of
                 (MutateErr e, db') \<Rightarrow> (Inl (Wrap ''dgraph: update mutate'' e), db')
               | (CommitErr e, db') \<Rightarrow> (Inl (Wrap ''dgraph: update mutate'' e), db')
               | (Committed mutResp, db') \<Rightarrow>
                   (Inr (dgraphUser_toDomain du, zookieFromTxn (mr_commit_ts mutResp)), db')))))"

definition Repository_Delete :: "'db dgraph \<Rightarrow> string \<Rightarrow> 'db \<Rightarrow> 'db \<Rightarrow> Zookie res \<times> 'db" where
  "Repository_Delete dg i seen db =
     (case dg_query dg Strong (user_query U_id i []) seen of
        Inl e \<Rightarrow> (Inl (Wrap ''dgraph: delete lookup'' e), db)
      | Inr resp \<Rightarrow> (case unmarshal ''dgraph: delete unmarshal'' resp of
          Inl e \<Rightarrow> (Inl e, db)
        | Inr (ns, _) \<Rightarrow> (case ns of
            [] \<Rightarrow> (Inl (Sentinel ErrUserNotFound), db)
          | n # _ \<Rightarrow> (case dg_mutate dg (delete_uids [jn_uid n]) db of
              (Inl e, db') \<Rightarrow> (Inl (Wrap ''dgraph: delete mutate'' e), db')
            | (Inr mutResp, db') \<Rightarrow> (Inr (zookieFromTxn (mr_commit_ts mutResp)), db')))))"

definition Repository_queryOne :: "'db dgraph \<Rightarrow> query \<Rightarrow> Zookie option \<Rightarrow> 'db \<Rightarrow> User res" where
  "Repository_queryOne dg q zookie db =
     (case dg_query dg (newReadTxn zookie) q db of
        Inl e \<Rightarrow> Inl (Wrap ''dgraph: query'' e)
      | Inr resp \<Rightarrow> (case unmarshal ''dgraph: unmarshal'' resp of
          Inl e \<Rightarrow> Inl e
        | Inr (ns, _) \<Rightarrow> (case ns of [] \<Rightarrow> Inl (Sentinel ErrUserNotFound)
                           | n # _ \<Rightarrow> Inr (dgraphUser_toDomain (decode_user n)))))"

definition Repository_GetByID :: "'db dgraph \<Rightarrow> string \<Rightarrow> Zookie option \<Rightarrow> 'db \<Rightarrow> User res" where
  "Repository_GetByID dg i zookie db = Repository_queryOne dg (user_query U_id i userFields) zookie db"

definition Repository_GetByEmail :: "'db dgraph \<Rightarrow> string \<Rightarrow> Zookie option \<Rightarrow> 'db \<Rightarrow> User res" where
  "Repository_GetByEmail dg m zookie db =
     Repository_queryOne dg (user_query U_email (to_lower m) userFields) zookie db"

definition list_users_query :: "ListFilter \<Rightarrow> query" where
  "list_users_query f =
     \<lparr>q_func = (if lf_Country f \<noteq> '''' then FuncEq U_country (VStr (lf_Country f)) else FuncType ''User''),
      q_filter = [FEq U_active (VBool True)], q_orderasc = None,
      q_page = Some (wrap64 (wrap64 (lf_Page f - 1) * lf_PageSize f), lf_PageSize f),
      q_fields = readFields, q_total = True\<rparr>"

text \<open>\<^verbatim>\<open>math.Ceil(float64(total) / float64(pageSize))\<close>; floats are exact here (counts below 2 to the 53).\<close>

definition ceil_div :: "int \<Rightarrow> int \<Rightarrow> int" where
  "ceil_div a b = - ((- a) div b)"

definition Repository_List :: "'db dgraph \<Rightarrow> ListFilter \<Rightarrow> Zookie option \<Rightarrow> 'db \<Rightarrow> ListResult res" where
  "Repository_List dg f0 zookie db =
     (let f = ListFilter_Normalise f0 in
      case dg_query dg (newReadTxn zookie) (list_users_query f) db of
        Inl e \<Rightarrow> Inl (Wrap ''dgraph: list'' e)
      | Inr resp \<Rightarrow> (case unmarshal ''dgraph: list unmarshal'' resp of
          Inl e \<Rightarrow> Inl e
        | Inr (ns, cs) \<Rightarrow>
            (let total = (case cs of [] \<Rightarrow> 0 | c # _ \<Rightarrow> int c);
                 pages = ceil_div total (lf_PageSize f) in
             Inr \<lparr>lr_Users = map (\<lambda>n. dgraphUser_toDomain (decode_user n)) ns, lr_Total = total,
                  lr_Page = lf_Page f, lr_Pages = (if pages < 1 then 1 else pages)\<rparr>)))"

definition Repository_Ping :: "'db dgraph \<Rightarrow> 'db \<Rightarrow> unit res" where
  "Repository_Ping dg db =
     (case dg_query dg Strong
        \<lparr>q_func = FuncUid ''0x1'', q_filter = [], q_orderasc = None, q_page = None, q_fields = [], q_total = False\<rparr> db of
        Inl e \<Rightarrow> Inl (Wrap ''dgraph: ping'' e)
      | Inr _ \<Rightarrow> Inr ())"

definition dgraph_user_repo :: "'db dgraph \<Rightarrow> 'db user_repo" where
  "dgraph_user_repo dg =
     \<lparr>ur_Create = Repository_Create dg, ur_GetByID = Repository_GetByID dg,
      ur_GetByEmail = Repository_GetByEmail dg, ur_Update = Repository_Update dg,
      ur_Delete = Repository_Delete dg, ur_List = Repository_List dg, ur_Ping = Repository_Ping dg\<rparr>"

section \<open>The users of a graph\<close>

definition user_typed :: "node \<Rightarrow> bool" where
  "user_typed n = (VStr ''User'' \<in> set (n DgraphType))"

definition user_view :: "graph \<Rightarrow> users" where
  "user_view g x =
     (if user_typed (g x) then Some (dgraphUser_toDomain (decode_user \<lparr>jn_uid = x, jn_val = g x\<rparr>)) else None)"

definition user_strs :: "pred list" where
  "user_strs = [U_id, U_first_name, U_last_name, U_nickname, U_password_hash, U_email, U_country]"

definition opt_str :: "string \<Rightarrow> val list" where
  "opt_str x = (if x = '''' then [] else [VStr x])"

definition wf_user_node :: "node \<Rightarrow> bool" where
  "wf_user_node n =
     (if user_typed n then
        (\<forall>p \<in> set user_strs. \<exists>x. n p = opt_str x) \<and> (\<exists>b. n U_active = [VBool b]) \<and>
        (\<exists>t. n U_created_at = [VTime t]) \<and> (\<exists>t. n U_updated_at = [VTime t])
      else \<forall>p \<in> set (U_active # user_strs). n p = [])"

definition wf_users :: "graph \<Rightarrow> bool" where
  "wf_users g = (\<forall>x. wf_user_node (g x))"

lemmas user_defs = decode_user_def dgraphUser_toDomain_def Let_def

lemma jstr_opt: "n p = opt_str x \<Longrightarrow> jstr n p = x"
  by (simp add: opt_str_def jstr_def split: if_splits)

lemma opt_str_mem [simp]: "VStr v \<in> set (opt_str x) \<longleftrightarrow> v = x \<and> x \<noteq> ''''"
  by (auto simp: opt_str_def)

lemma wf_strE:
  assumes "wf_user_node n" "user_typed n" "p \<in> set user_strs"
  shows "n p = opt_str (jstr n p)"
  using assms jstr_opt by (fastforce simp: wf_user_node_def)

lemma user_viewD:
  assumes "user_view g x = Some u" "wf_users g"
  shows "user_typed (g x)" "g x U_id = opt_str (usr_ID u)" "g x U_email = opt_str (usr_Email u)"
    "g x U_nickname = opt_str (usr_Nickname u)" "g x U_country = opt_str (usr_Country u)"
    "g x U_active = [VBool (usr_Active u)]"
    "u = dgraphUser_toDomain (decode_user \<lparr>jn_uid = x, jn_val = g x\<rparr>)"
proof -
  show t: "user_typed (g x)" and u: "u = dgraphUser_toDomain (decode_user \<lparr>jn_uid = x, jn_val = g x\<rparr>)"
    using assms(1) by (auto simp: user_view_def split: if_splits)
  have w: "wf_user_node (g x)" using assms(2) by (simp add: wf_users_def)
  note s = wf_strE [OF w t]
  show "g x U_id = opt_str (usr_ID u)" "g x U_email = opt_str (usr_Email u)"
    "g x U_nickname = opt_str (usr_Nickname u)" "g x U_country = opt_str (usr_Country u)"
  proof -
    have e: "usr_ID u = jstr (g x) U_id" "usr_Email u = jstr (g x) U_email"
        "usr_Nickname u = jstr (g x) U_nickname" "usr_Country u = jstr (g x) U_country"
      by (simp_all add: u user_defs)
    show "g x U_id = opt_str (usr_ID u)" "g x U_email = opt_str (usr_Email u)"
      "g x U_nickname = opt_str (usr_Nickname u)" "g x U_country = opt_str (usr_Country u)"
      unfolding e by (intro s, simp add: user_strs_def)+
  qed
  show "g x U_active = [VBool (usr_Active u)]"
  proof -
    have "\<exists>b. g x U_active = [VBool b]" using w t by (simp add: wf_user_node_def)
    then show ?thesis by (elim exE) (simp add: u user_defs)
  qed
qed

lemma user_mem_typed: "wf_users g \<Longrightarrow> p \<in> set (U_active # user_strs) \<Longrightarrow> v \<in> set (g x p) \<Longrightarrow> user_typed (g x)"
proof -
  assume w: "wf_users g" and p: "p \<in> set (U_active # user_strs)" and v: "v \<in> set (g x p)"
  show "user_typed (g x)"
  proof (rule ccontr)
    assume "\<not> user_typed (g x)"
    then have "g x p = []" using w p unfolding wf_users_def wf_user_node_def by metis
    with v show False by simp
  qed
qed

section \<open>Effect of the mutations\<close>

fun json_node :: "dgraphUser \<Rightarrow> pred \<Rightarrow> val list" where
  "json_node d DgraphType = map VStr (du_DType d)"
| "json_node d U_id = opt_str (du_ID d)"
| "json_node d U_first_name = opt_str (du_FirstName d)"
| "json_node d U_last_name = opt_str (du_LastName d)"
| "json_node d U_nickname = opt_str (du_Nickname d)"
| "json_node d U_password_hash = opt_str (du_PasswordHash d)"
| "json_node d U_email = opt_str (du_Email d)"
| "json_node d U_country = opt_str (du_Country d)"
| "json_node d U_active = [VBool (du_Active d)]"
| "json_node d U_created_at = (case du_CreatedAt d of None \<Rightarrow> [] | Some t \<Rightarrow> [VTime t])"
| "json_node d U_updated_at = (case du_UpdatedAt d of None \<Rightarrow> [] | Some t \<Rightarrow> [VTime t])"
| "json_node d _ = []"

lemma vals_omit:
  "vals_for as (omit_str s p x) u q = (if resolve as s = Some u \<and> p = q then opt_str x else [])"
  "vals_for as (omit_time s p t) u q =
     (if resolve as s = Some u \<and> p = q then (case t of None \<Rightarrow> [] | Some t \<Rightarrow> [VTime t]) else [])"
  "vals_for as (map (\<lambda>v. (s, p, VStr v)) vs) u q = (if resolve as s = Some u \<and> p = q then map VStr vs else [])"
  by (auto simp: omit_str_def opt_str_def omit_time_def vals_for_map_list split: option.splits)

lemma vals_user_json:
  "vals_for as (user_json s d) u p = (if resolve as s = Some u then json_node d p else [])"
  by (cases p) (simp_all add: user_json_def vals_omit)

lemma omit_quads:
  "q \<in> set (omit_str s p x) \<Longrightarrow> fst q = s \<and> fst (snd q) = p"
  "q \<in> set (omit_time s p t) \<Longrightarrow> fst q = s \<and> fst (snd q) = p"
  by (auto simp: omit_str_def omit_time_def split: option.splits if_splits)

lemma user_json_quads:
  assumes "q \<in> set (user_json s d)"
  shows "fst q = s" "du_DType d = [] \<Longrightarrow> \<not> is_list_pred (fst (snd q))"
  using assms unfolding user_json_def set_append set_map
  by (elim UnE; force simp: is_list_pred_def dest: omit_quads)+

lemma user_json_nonempty: "user_json s d \<noteq> []"
  by (simp add: user_json_def)

lemma last_opt: "(let vs = opt_str x in if vs = [] then [] else [last vs]) = opt_str x"
  by (simp add: opt_str_def)

lemma create_user_view:
  assumes "mut_step as (create_user_mut u) g h" "wf_users g"
  obtains (taken) "\<not> cond_ok g (create_user_mut u)" "as = []" "h = g"
  | (new) x where "cond_ok g (create_user_mut u)" "as = [(''user'', x)]" "user_view g x = None"
      "user_view h = (user_view g)(x \<mapsto> stored_user u)" "wf_users h"
proof (rule blank_step [OF assms(1), where b = "''user''"])
  show "mu_del (create_user_mut u) = []" "mu_set (create_user_mut u) \<noteq> []"
    "\<forall>q \<in> set (mu_set (create_user_mut u)). fst q = Blank ''user''"
    by (auto simp: create_user_mut_def user_json_nonempty user_json_quads)
next
  assume "\<not> cond_ok g (create_user_mut u)" "as = []" "h = g"
  then show thesis by (rule taken)
next
  fix x
  let ?d = "new_dgraphUser u"
  assume c: "cond_ok g (create_user_mut u)" "as = [(''user'', x)]" and gx: "g x = (\<lambda>_. [])"
    and l: "\<And>p. is_list_pred p \<Longrightarrow> set (h x p) = set (vals_for [(''user'', x)] (mu_set (create_user_mut u)) x p)"
    and s: "\<And>p. \<not> is_list_pred p \<Longrightarrow> h x p =
      (let vs = vals_for [(''user'', x)] (mu_set (create_user_mut u)) x p in if vs = [] then [] else [last vs])"
    and o: "\<And>y. y \<noteq> x \<Longrightarrow> h y = g y"
  have v: "vals_for [(''user'', x)] (mu_set (create_user_mut u)) x p = json_node ?d p" for p
    by (simp add: create_user_mut_def vals_user_json)
  have hx: "h x p = json_node ?d p" if "p \<in> set (U_active # U_created_at # U_updated_at # user_strs)" for p
    using that s [of p] unfolding v
    by (auto simp: user_strs_def is_list_pred_def last_opt opt_str_def new_dgraphUser_def Let_def)
  have typed: "user_typed (h x)"
    using l [of DgraphType] unfolding v by (simp add: user_typed_def is_list_pred_def new_dgraphUser_def)
  have "wf_user_node (h x)"
    using typed hx by (auto simp: wf_user_node_def user_strs_def new_dgraphUser_def)
  then have "wf_users h" using assms(2) o by (auto simp: wf_users_def) (metis)
  moreover have "user_view h = (user_view g)(x \<mapsto> stored_user u)"
  proof
    fix y
    have "user_view h x = Some (stored_user u)"
      using typed hx
      by (simp add: user_view_def user_defs stored_user_def user_strs_def new_dgraphUser_def jstr_def jbool_def
          jtime_def opt_str_def)
    then show "user_view h y = ((user_view g)(x \<mapsto> stored_user u)) y"
      using o [of y] by (auto simp: user_view_def)
  qed
  moreover have "user_view g x = None" by (simp add: user_view_def user_typed_def gx)
  ultimately show thesis using c by (intro new)
qed

lemma cond_taken:
  assumes "wf_users g" "usr_Email u \<noteq> ''''" "usr_Nickname u \<noteq> ''''"
  shows "cond_ok g (create_user_mut u) \<longleftrightarrow> \<not> taken (user_view g) (to_lower (usr_Email u)) (usr_Nickname u)"
proof -
  have e: "to_lower (usr_Email u) \<noteq> ''''" using assms(2) by (simp add: to_lower_def)
  have 1: "VStr v \<in> set (g x U_email) \<longleftrightarrow> (\<exists>w. user_view g x = Some w \<and> usr_Email w = v)" if "v \<noteq> ''''" for v x
  proof
    assume a: "VStr v \<in> set (g x U_email)"
    then have "user_typed (g x)" by (intro user_mem_typed [OF assms(1), of U_email]) (auto simp: user_strs_def)
    then obtain w where w: "user_view g x = Some w" by (simp add: user_view_def)
    with a user_viewD(3) [OF w assms(1)] show "\<exists>w. user_view g x = Some w \<and> usr_Email w = v" by simp
  qed (use that user_viewD(3) [OF _ assms(1)] in auto)
  have 2: "VStr v \<in> set (g x U_nickname) \<longleftrightarrow> (\<exists>w. user_view g x = Some w \<and> usr_Nickname w = v)" if "v \<noteq> ''''" for v x
  proof
    assume a: "VStr v \<in> set (g x U_nickname)"
    then have "user_typed (g x)" by (intro user_mem_typed [OF assms(1), of U_nickname]) (auto simp: user_strs_def)
    then obtain w where w: "user_view g x = Some w" by (simp add: user_view_def)
    with a user_viewD(4) [OF w assms(1)] show "\<exists>w. user_view g x = Some w \<and> usr_Nickname w = v" by simp
  qed (use that user_viewD(4) [OF _ assms(1)] in auto)
  show ?thesis
    by (auto simp: cond_ok_def create_user_mut_def taken_def 1 [OF e] 2 [OF assms(3)])
qed

text \<open>An update of one node: non-empty fields of the wire struct replace the stored ones.\<close>

definition overlay :: "dgraphUser \<Rightarrow> node \<Rightarrow> node" where
  "overlay d n = (\<lambda>p. let vs = json_node d p in if vs = [] then n p else [last vs])"

lemma overlay_str:
  "overlay d n U_id = (if du_ID d = '''' then n U_id else opt_str (du_ID d))"
  "overlay d n U_first_name = (if du_FirstName d = '''' then n U_first_name else opt_str (du_FirstName d))"
  "overlay d n U_last_name = (if du_LastName d = '''' then n U_last_name else opt_str (du_LastName d))"
  "overlay d n U_nickname = (if du_Nickname d = '''' then n U_nickname else opt_str (du_Nickname d))"
  "overlay d n U_password_hash = (if du_PasswordHash d = '''' then n U_password_hash else opt_str (du_PasswordHash d))"
  "overlay d n U_email = (if du_Email d = '''' then n U_email else opt_str (du_Email d))"
  "overlay d n U_country = (if du_Country d = '''' then n U_country else opt_str (du_Country d))"
  "overlay d n U_active = [VBool (du_Active d)]"
  "overlay d n U_created_at = (case du_CreatedAt d of None \<Rightarrow> n U_created_at | Some t \<Rightarrow> [VTime t])"
  "overlay d n U_updated_at = (case du_UpdatedAt d of None \<Rightarrow> n U_updated_at | Some t \<Rightarrow> [VTime t])"
  "du_DType d = [] \<Longrightarrow> overlay d n DgraphType = n DgraphType"
  by (simp_all add: overlay_def opt_str_def split: option.splits)

lemma jstr_if: "jstr (overlay d n) p = (if x = '''' then jstr n p else x)"
  if "overlay d n p = (if x = '''' then n p else opt_str x)"
  using that by (auto simp: jstr_def opt_str_def)

lemma overlay_opt:
  "p \<in> set user_strs \<Longrightarrow> overlay d n p = n p \<or> (\<exists>y. overlay d n p = opt_str y)"
  unfolding user_strs_def list.set insert_iff empty_iff
  by (elim disjE) (auto simp: overlay_str)

lemma update_effect:
  assumes st: "mut_step as (set_nquads (user_json (Uid x) d)) g h" and d: "du_DType d = []"
    and wf: "wf_users g" and typed: "user_typed (g x)"
  shows "h = g(x := overlay d (g x))" "wf_users h"
proof -
  show h: "h = g(x := overlay d (g x))"
    using uid_step [OF st, of x] user_json_quads [of _ "Uid x" d] d
    by (auto simp: vals_user_json overlay_def)
  have w: "wf_user_node (g x)" using wf by (simp add: wf_users_def)
  have typed': "user_typed (overlay d (g x))" using typed d by (simp add: user_typed_def overlay_str)
  have s: "\<exists>y. g x p = opt_str y" if "p \<in> set user_strs" for p
    using w typed that unfolding wf_user_node_def by simp
  have t: "(\<exists>t. g x U_created_at = [VTime t])" "(\<exists>t. g x U_updated_at = [VTime t])"
    using w typed unfolding wf_user_node_def by simp_all
  have "\<exists>y. overlay d (g x) p = opt_str y" if "p \<in> set user_strs" for p
    using overlay_opt [OF that, of d "g x"] s [OF that] by metis
  moreover have "\<exists>t. overlay d (g x) U_created_at = [VTime t]" "\<exists>t. overlay d (g x) U_updated_at = [VTime t]"
    using t(1) by (cases "du_CreatedAt d"; simp add: overlay_str) (use t(2) in \<open>cases "du_UpdatedAt d"; simp add: overlay_str\<close>)
  ultimately have "wf_user_node (overlay d (g x))"
    unfolding wf_user_node_def using typed' by (simp add: overlay_str(8))
  then show "wf_users h" using wf by (simp add: h wf_users_def)
qed

lemma update_read:
  fixes n :: node and now inp x
  defines "d \<equiv> apply_update now inp (decode_user \<lparr>jn_uid = x, jn_val = project readFields n\<rparr>)"
    and "old \<equiv> dgraphUser_toDomain (decode_user \<lparr>jn_uid = x, jn_val = n\<rparr>)"
  shows "du_UID d = x" "du_DType d = []" "dgraphUser_toDomain d = shown_user now inp old"
    "wf_user_node n \<Longrightarrow> user_typed n \<Longrightarrow>
      dgraphUser_toDomain (decode_user \<lparr>jn_uid = x, jn_val = overlay d n\<rparr>) = updated_user now inp old"
proof -
  have f: "du_UID d = x" "du_DType d = []" "du_ID d = jstr n U_id" "du_Email d = jstr n U_email"
    "du_PasswordHash d = ''''" "du_Active d = jbool n U_active" "du_CreatedAt d = jtime n U_created_at"
    "du_UpdatedAt d = Some (fmt_rfc3339 now)"
    "du_FirstName d = (case uui_FirstName inp of None \<Rightarrow> jstr n U_first_name | Some v \<Rightarrow> v)"
    "du_LastName d = (case uui_LastName inp of None \<Rightarrow> jstr n U_last_name | Some v \<Rightarrow> v)"
    "du_Nickname d = (case uui_Nickname inp of None \<Rightarrow> jstr n U_nickname | Some v \<Rightarrow> v)"
    "du_Country d = (case uui_Country inp of None \<Rightarrow> jstr n U_country | Some v \<Rightarrow> v)"
    by (simp_all add: d_def apply_update_def decode_user_def Let_def project_def readFields_def
        jstr_def jbool_def jtime_def split: option.split)
  show "du_UID d = x" "du_DType d = []" by (fact f)+
  show "dgraphUser_toDomain d = shown_user now inp old"
    by (simp add: dgraphUser_toDomain_def f shown_user_def old_def decode_user_def split: option.split)
  assume w: "wf_user_node n" "user_typed n"
  obtain c where c: "n U_created_at = [VTime c]" using w unfolding wf_user_node_def by auto
  have o: "jstr (overlay d n) U_id = jstr n U_id" "jstr (overlay d n) U_email = jstr n U_email"
    "jstr (overlay d n) U_password_hash = jstr n U_password_hash"
    "jstr (overlay d n) U_first_name = set_field (uui_FirstName inp) (jstr n U_first_name)"
    "jstr (overlay d n) U_last_name = set_field (uui_LastName inp) (jstr n U_last_name)"
    "jstr (overlay d n) U_nickname = set_field (uui_Nickname inp) (jstr n U_nickname)"
    "jstr (overlay d n) U_country = set_field (uui_Country inp) (jstr n U_country)"
    "jbool (overlay d n) U_active = jbool n U_active" "jtime (overlay d n) U_created_at = jtime n U_created_at"
    "jtime (overlay d n) U_updated_at = Some (fmt_rfc3339 now)"
    using c by (simp_all add: overlay_str(1-7) [THEN jstr_if] overlay_str(8-10) f set_field_def jbool_def jtime_def split: option.split)
  show "dgraphUser_toDomain (decode_user \<lparr>jn_uid = x, jn_val = overlay d n\<rparr>) = updated_user now inp old"
    using o by (simp add: user_defs updated_user_def old_def)
qed

lemma delete_user_view:
  assumes "mut_step as (delete_uids [x]) g h" "wf_users g"
  shows "user_view h = (user_view g)(x := None)" "wf_users h"
proof -
  have h: "h y = (if y = x then (\<lambda>_. []) else g y)" for y
    using assms(1) by (auto simp: mut_step_def delete_uids_def cond_ok_def applied_def Let_def fun_eq_iff)
  show "user_view h = (user_view g)(x := None)"
    by (rule ext) (simp add: user_view_def h user_typed_def)
  have "wf_user_node (\<lambda>_. [])" by (simp add: wf_user_node_def user_typed_def)
  then show "wf_users h" using assms(2) h by (auto simp: wf_users_def)
qed

end
