(* ===== verification/Service_Account_Repo.thy ===== *)
theory Service_Account_Repo
  imports Dgraph
begin

text \<open>
  The contract of the store of machine identities, \<^verbatim>\<open>repository.ServiceAccountRepository\<close>: the record
  \<open>service_account_repo\<close> has one field per method of the Go interface, and the locale
  \<open>service_account_repository\<close> states what the methods promise over a table of accounts by node.
  \<open>Deactivate\<close> takes the state its lookup meets and the state its write meets.
\<close>

record 'db service_account_repo =
  sar_CreateServiceAccount :: "ServiceAccount \<Rightarrow> 'db \<Rightarrow> Zookie res \<times> 'db"
  sar_GetByClientID :: "string \<Rightarrow> Zookie option \<Rightarrow> 'db \<Rightarrow> ServiceAccount res"
  sar_Deactivate :: "int \<Rightarrow> string \<Rightarrow> 'db \<Rightarrow> 'db \<Rightarrow> Zookie res \<times> 'db"

type_synonym accounts = "uid \<Rightarrow> ServiceAccount option"

text \<open>An account as stored: times in whole seconds; the permissions are kept as a set.\<close>

definition stored_account :: "ServiceAccount \<Rightarrow> ServiceAccount" where
  "stored_account a = a\<lparr>sa_CreatedAt := trunc_sec (sa_CreatedAt a), sa_UpdatedAt := trunc_sec (sa_UpdatedAt a)\<rparr>"

definition same_account :: "ServiceAccount \<Rightarrow> ServiceAccount \<Rightarrow> bool" where
  "same_account a b =
     (a\<lparr>sa_Permissions := []\<rparr> = b\<lparr>sa_Permissions := []\<rparr> \<and> set (sa_Permissions a) = set (sa_Permissions b))"

lemma same_accountD:
  assumes "same_account a b"
  shows "sa_ID a = sa_ID b" "sa_ClientID a = sa_ClientID b" "sa_Name a = sa_Name b"
    "sa_SecretHash a = sa_SecretHash b" "sa_ActorType a = sa_ActorType b" "sa_Active a = sa_Active b"
    "set (sa_Permissions a) = set (sa_Permissions b)"
  using assms by (cases a; cases b; simp add: same_account_def)+

definition client_taken :: "accounts \<Rightarrow> string \<Rightarrow> bool" where
  "client_taken A c = (\<exists>x a. A x = Some a \<and> sa_ClientID a = c)"

definition deactivated :: "int \<Rightarrow> ServiceAccount \<Rightarrow> ServiceAccount" where
  "deactivated now a = a\<lparr>sa_Active := False, sa_UpdatedAt := trunc_sec now\<rparr>"

definition unique_clients :: "accounts \<Rightarrow> bool" where
  "unique_clients A =
     (\<forall>x y a b. A x = Some a \<longrightarrow> A y = Some b \<longrightarrow> sa_ClientID a = sa_ClientID b \<longrightarrow> x = y)"

locale service_account_repository =
  fixes repo :: "'db service_account_repo"
    and accounts :: "'db \<Rightarrow> accounts"
    and inv :: "'db \<Rightarrow> bool"
  assumes create_ok: "inv db \<Longrightarrow> sar_CreateServiceAccount repo a db = (Inr z, db') \<Longrightarrow> sa_ClientID a \<noteq> '''' \<Longrightarrow>
      \<not> client_taken (accounts db) (sa_ClientID a) \<and>
      (\<exists>x b. accounts db x = None \<and> same_account b (stored_account a) \<and> accounts db' = (accounts db)(x \<mapsto> b))"
    and create_err: "inv db \<Longrightarrow> sar_CreateServiceAccount repo a db = (Inl e, db') \<Longrightarrow> sa_ClientID a \<noteq> '''' \<Longrightarrow>
      foreign e \<or> e = Sentinel ErrUserAlreadyExists \<and> accounts db' = accounts db \<and>
        client_taken (accounts db) (sa_ClientID a)"
    and create_inv: "inv db \<Longrightarrow> sar_CreateServiceAccount repo a db = (r, db') \<Longrightarrow> inv db'"
    and get_ok: "inv db \<Longrightarrow> sar_GetByClientID repo c (Some z) db = Inr a \<Longrightarrow>
      sa_ClientID a = c \<and> (\<exists>x. accounts db x = Some a)"
    and get_err: "inv db \<Longrightarrow> sar_GetByClientID repo c (Some z) db = Inl e \<Longrightarrow>
      foreign e \<or> e = Sentinel ErrUserNotFound \<and> (c = '''' \<or> \<not> client_taken (accounts db) c)"
    and deactivate_ok: "inv db \<Longrightarrow> sar_Deactivate repo now c db db = (Inr z, db') \<Longrightarrow>
      \<exists>x a. accounts db x = Some a \<and> sa_ClientID a = c \<and>
        accounts db' = (accounts db)(x \<mapsto> deactivated now a)"
    and deactivate_err: "inv db \<Longrightarrow> sar_Deactivate repo now c db db = (Inl e, db') \<Longrightarrow>
      foreign e \<or> e = Sentinel ErrUserNotFound \<and> db' = db \<and> (c = '''' \<or> \<not> client_taken (accounts db) c)"
    and deactivate_inv: "inv db \<Longrightarrow> sar_Deactivate repo now c db db = (r, db') \<Longrightarrow> inv db'"

end
