(* ===== verification/Dgraph_Service_Account.thy ===== *)
theory Dgraph_Service_Account
  imports Service_Account_Repo Dgraph_User
begin

text \<open>
  \<^verbatim>\<open>internal/repository/dgraph/service_account.go\<close>. Unlike the other repositories this one passes its
  query variables under a name that is not the declared one: the map key is \<^verbatim>\<open>clientID\<close>, the query
  declares \<^verbatim>\<open>$clientID\<close> (the creation query declares nothing). How the server treats that decides
  what the repository does, so variable binding is a parameter here: \<open>bind declared given\<close> is the
  value of each variable, or the error with which the server rejects the request.

  \<^item> \<open>declared_vars bind\<close> is the documented behaviour: a variable that is given but not declared is an error.
  \<^item> \<open>faithful_vars bind\<close> is all the laws of the repository need: of the two declarations its texts have, the server
    refuses the request or gives the variable the value sent. The documented behaviour is a case of it.
\<close>

section \<open>Query variables\<close>

type_synonym vbind = "string list \<Rightarrow> (string \<times> string) list \<Rightarrow> (string \<Rightarrow> string) res"

definition QueryWithVars ::
  "vbind \<Rightarrow> 'db dgraph \<Rightarrow> qmode \<Rightarrow> string list \<Rightarrow> ((string \<Rightarrow> string) \<Rightarrow> query) \<Rightarrow> (string \<times> string) list \<Rightarrow>
   'db \<Rightarrow> qjson res" where
  "QueryWithVars bind dg md declared q vars db =
     (case bind declared vars of Inl e \<Rightarrow> Inl e | Inr env \<Rightarrow> dg_query dg md (q env) db)"

definition DoWithVars ::
  "vbind \<Rightarrow> 'db dgraph \<Rightarrow> string list \<Rightarrow> ((string \<Rightarrow> string) \<Rightarrow> mutation) \<Rightarrow> (string \<times> string) list \<Rightarrow>
   'db \<Rightarrow> mresp res \<times> 'db" where
  "DoWithVars bind dg declared m vars db =
     (case bind declared vars of Inl e \<Rightarrow> (Inl e, db) | Inr env \<Rightarrow> dg_mutate dg (m env) db)"

definition declared_vars :: "vbind \<Rightarrow> bool" where
  "declared_vars bind =
     (\<forall>declared given. (\<exists>k \<in> fst ` set given. k \<notin> set declared) \<longrightarrow>
        (\<exists>e. bind declared given = Inl e \<and> foreign e))"

definition faithful_vars :: "vbind \<Rightarrow> bool" where
  "faithful_vars bind =
     (\<forall>declared \<in> {[], [''$clientID'']}. \<forall>c.
        case bind declared [(''clientID'', c)] of Inl e \<Rightarrow> foreign e | Inr env \<Rightarrow> env ''$clientID'' = c)"

lemma declared_faithful: "declared_vars bind \<Longrightarrow> faithful_vars bind"
proof -
  assume "declared_vars bind"
  then have "\<exists>e. bind declared [(''clientID'', c)] = Inl e \<and> foreign e" if "declared \<in> {[], [''$clientID'']}" for declared c
    using that unfolding declared_vars_def by auto
  then show ?thesis unfolding faithful_vars_def by (metis (no_types, lifting) sum.simps(5))
qed

section \<open>The repository\<close>

record dgraphServiceAccount =
  dsa_UID :: string
  dsa_DType :: "string list"
  dsa_ID :: string
  dsa_ClientID :: string
  dsa_Name :: string
  dsa_SecretHash :: string
  dsa_ActorType :: string
  dsa_Permissions :: "string list"
  dsa_Active :: bool
  dsa_CreatedAt :: "int option"
  dsa_UpdatedAt :: "int option"

definition decode_sa :: "jnode \<Rightarrow> dgraphServiceAccount" where
  "decode_sa j =
     (let n = jn_val j in
      \<lparr>dsa_UID = jn_uid j, dsa_DType = [], dsa_ID = jstr n SA_id, dsa_ClientID = jstr n SA_client_id,
       dsa_Name = jstr n SA_name, dsa_SecretHash = jstr n SA_secret_hash,
       dsa_ActorType = jstr n SA_actor_type, dsa_Permissions = jstrs n SA_permissions,
       dsa_Active = jbool n SA_active, dsa_CreatedAt = jtime n SA_created_at,
       dsa_UpdatedAt = jtime n SA_updated_at\<rparr>)"

definition sa_json :: "subj \<Rightarrow> dgraphServiceAccount \<Rightarrow> nquad list" where
  "sa_json s d =
     map (\<lambda>t. (s, DgraphType, VStr t)) (dsa_DType d) @
     omit_str s SA_id (dsa_ID d) @ omit_str s SA_client_id (dsa_ClientID d) @
     omit_str s SA_name (dsa_Name d) @ omit_str s SA_secret_hash (dsa_SecretHash d) @
     omit_str s SA_actor_type (dsa_ActorType d) @
     map (\<lambda>t. (s, SA_permissions, VStr t)) (dsa_Permissions d) @
     [(s, SA_active, VBool (dsa_Active d))] @
     omit_time s SA_created_at (dsa_CreatedAt d) @ omit_time s SA_updated_at (dsa_UpdatedAt d)"

definition dgraphServiceAccount_toDomain :: "dgraphServiceAccount \<Rightarrow> ServiceAccount" where
  "dgraphServiceAccount_toDomain d =
     \<lparr>sa_ID = dsa_ID d, sa_ClientID = dsa_ClientID d, sa_Name = dsa_Name d,
      sa_SecretHash = dsa_SecretHash d, sa_ActorType = dsa_ActorType d,
      sa_Permissions = dsa_Permissions d, sa_Active = dsa_Active d,
      sa_CreatedAt = parse_time (dsa_CreatedAt d), sa_UpdatedAt = parse_time (dsa_UpdatedAt d)\<rparr>"

definition new_dsa :: "ServiceAccount \<Rightarrow> dgraphServiceAccount" where
  "new_dsa a =
     \<lparr>dsa_UID = ''_:sa'', dsa_DType = [''ServiceAccount''], dsa_ID = sa_ID a, dsa_ClientID = sa_ClientID a,
      dsa_Name = sa_Name a, dsa_SecretHash = sa_SecretHash a, dsa_ActorType = sa_ActorType a,
      dsa_Permissions = sa_Permissions a, dsa_Active = sa_Active a,
      dsa_CreatedAt = Some (fmt_rfc3339 (sa_CreatedAt a)),
      dsa_UpdatedAt = Some (fmt_rfc3339 (sa_UpdatedAt a))\<rparr>"

definition create_sa_mut :: "ServiceAccount \<Rightarrow> (string \<Rightarrow> string) \<Rightarrow> mutation" where
  "create_sa_mut a env =
     \<lparr>mu_set = sa_json (Blank ''sa'') (new_dsa a), mu_del = [],
      mu_cond = [(SA_client_id, VStr (env ''$clientID''))]\<rparr>"

definition SA_CreateServiceAccount ::
  "vbind \<Rightarrow> 'db dgraph \<Rightarrow> ServiceAccount \<Rightarrow> 'db \<Rightarrow> Zookie res \<times> 'db" where
  "SA_CreateServiceAccount bind dg a db =
     (case DoWithVars bind dg [] (create_sa_mut a) [(''clientID'', sa_ClientID a)] db of
        (Inl e, db') \<Rightarrow> (Inl (Wrap ''dgraph: create service account'' e), db')
      | (Inr resp, db') \<Rightarrow>
          (if length (mr_uids resp) = 0 then (Inl (Sentinel ErrUserAlreadyExists), db')
           else (Inr (zookieFromTxn (mr_commit_ts resp)), db')))"

definition saFields :: "pred list" where
  "saFields = [SA_id, SA_client_id, SA_name, SA_secret_hash, SA_actor_type, SA_permissions, SA_active,
     SA_created_at, SA_updated_at]"

definition account_query :: "pred list \<Rightarrow> (string \<Rightarrow> string) \<Rightarrow> query" where
  "account_query fs env = user_query SA_client_id (env ''$clientID'') fs"

definition SA_GetByClientID ::
  "vbind \<Rightarrow> 'db dgraph \<Rightarrow> string \<Rightarrow> Zookie option \<Rightarrow> 'db \<Rightarrow> ServiceAccount res" where
  "SA_GetByClientID bind dg c zookie db =
     (case QueryWithVars bind dg (newReadTxn zookie) [''$clientID''] (account_query saFields) [(''clientID'', c)] db of
        Inl e \<Rightarrow> Inl (Wrap ''dgraph: get service account'' e)
      | Inr resp \<Rightarrow> (case unmarshal ''dgraph: unmarshal service account'' resp of
          Inl e \<Rightarrow> Inl e
        | Inr (ns, _) \<Rightarrow> (case ns of [] \<Rightarrow> Inl (Sentinel ErrUserNotFound)
                           | n # _ \<Rightarrow> Inr (dgraphServiceAccount_toDomain (decode_sa n)))))"

definition deactivate_mut :: "int \<Rightarrow> uid \<Rightarrow> mutation" where
  "deactivate_mut now u =
     set_nquads [(Uid u, SA_active, VBool False), (Uid u, SA_updated_at, VTime (fmt_rfc3339 now))]"

definition SA_Deactivate ::
  "vbind \<Rightarrow> 'db dgraph \<Rightarrow> int \<Rightarrow> string \<Rightarrow> 'db \<Rightarrow> 'db \<Rightarrow> Zookie res \<times> 'db" where
  "SA_Deactivate bind dg now c seen db =
     (case QueryWithVars bind dg Strong [''$clientID''] (account_query []) [(''clientID'', c)] seen of
        Inl e \<Rightarrow> (Inl (Wrap ''dgraph: deactivate lookup'' e), db)
      | Inr resp \<Rightarrow> (case unmarshal ''dgraph: deactivate unmarshal'' resp of
          Inl e \<Rightarrow> (Inl e, db)
        | Inr (ns, _) \<Rightarrow> (case ns of
            [] \<Rightarrow> (Inl (Sentinel ErrUserNotFound), db)
          | n # _ \<Rightarrow> (case dg_mutate dg (deactivate_mut now (jn_uid n)) db of
              (Inl e, db') \<Rightarrow> (Inl (Wrap ''dgraph: deactivate mutate'' e), db')
            | (Inr mutResp, db') \<Rightarrow> (Inr (zookieFromTxn (mr_commit_ts mutResp)), db')))))"

definition dgraph_service_account_repo :: "vbind \<Rightarrow> 'db dgraph \<Rightarrow> 'db service_account_repo" where
  "dgraph_service_account_repo bind dg =
     \<lparr>sar_CreateServiceAccount = SA_CreateServiceAccount bind dg,
      sar_GetByClientID = SA_GetByClientID bind dg, sar_Deactivate = SA_Deactivate bind dg\<rparr>"

section \<open>The accounts of a graph\<close>

definition sa_typed :: "node \<Rightarrow> bool" where
  "sa_typed n = (VStr ''ServiceAccount'' \<in> set (n DgraphType))"

definition account_view :: "graph \<Rightarrow> accounts" where
  "account_view g x =
     (if sa_typed (g x) then Some (dgraphServiceAccount_toDomain (decode_sa \<lparr>jn_uid = x, jn_val = g x\<rparr>)) else None)"

definition wf_sa_node :: "node \<Rightarrow> bool" where
  "wf_sa_node n =
     (if sa_typed n then (\<exists>c. n SA_client_id = opt_str c) else n SA_client_id = [])"

definition wf_accounts :: "graph \<Rightarrow> bool" where
  "wf_accounts g = (\<forall>x. wf_sa_node (g x))"

lemmas sa_defs = decode_sa_def dgraphServiceAccount_toDomain_def Let_def

lemma sa_client_node:
  assumes "wf_accounts g" "VStr c \<in> set (g x SA_client_id)"
  obtains a where "account_view g x = Some a" "sa_ClientID a = c" "c \<noteq> ''''"
    "a = dgraphServiceAccount_toDomain (decode_sa \<lparr>jn_uid = x, jn_val = g x\<rparr>)" "sa_typed (g x)"
proof -
  have w: "wf_sa_node (g x)" using assms(1) by (simp add: wf_accounts_def)
  have t: "sa_typed (g x)" using w assms(2) by (auto simp: wf_sa_node_def split: if_splits)
  then obtain d where d: "g x SA_client_id = opt_str d" using w by (auto simp: wf_sa_node_def)
  with assms(2) have "d = c" "c \<noteq> ''''" by simp_all
  then show ?thesis using that t jstr_opt [of "g x" SA_client_id d] d
    by (simp add: account_view_def sa_defs)
qed

lemma sa_client_in_node:
  assumes "wf_accounts g" "account_view g x = Some a" "sa_ClientID a \<noteq> ''''"
  shows "VStr (sa_ClientID a) \<in> set (g x SA_client_id)"
proof -
  have t: "sa_typed (g x)" "a = dgraphServiceAccount_toDomain (decode_sa \<lparr>jn_uid = x, jn_val = g x\<rparr>)"
    using assms(2) by (auto simp: account_view_def split: if_splits)
  then obtain d where d: "g x SA_client_id = opt_str d"
    using assms(1) unfolding wf_accounts_def wf_sa_node_def by metis
  then have "sa_ClientID a = d" using t(2) jstr_opt by (simp add: sa_defs)
  with d assms(3) show ?thesis by simp
qed

lemma client_taken_iff:
  assumes "wf_accounts g" "c \<noteq> ''''"
  shows "client_taken (account_view g) c \<longleftrightarrow> (\<exists>x. VStr c \<in> set (g x SA_client_id))"
  using assms(2) sa_client_in_node [OF assms(1)] by (auto simp: client_taken_def elim!: sa_client_node [OF assms(1)])

section \<open>Effect of the mutations\<close>

fun sa_node :: "dgraphServiceAccount \<Rightarrow> pred \<Rightarrow> val list" where
  "sa_node d DgraphType = map VStr (dsa_DType d)"
| "sa_node d SA_id = opt_str (dsa_ID d)"
| "sa_node d SA_client_id = opt_str (dsa_ClientID d)"
| "sa_node d SA_name = opt_str (dsa_Name d)"
| "sa_node d SA_secret_hash = opt_str (dsa_SecretHash d)"
| "sa_node d SA_actor_type = opt_str (dsa_ActorType d)"
| "sa_node d SA_permissions = map VStr (dsa_Permissions d)"
| "sa_node d SA_active = [VBool (dsa_Active d)]"
| "sa_node d SA_created_at = (case dsa_CreatedAt d of None \<Rightarrow> [] | Some t \<Rightarrow> [VTime t])"
| "sa_node d SA_updated_at = (case dsa_UpdatedAt d of None \<Rightarrow> [] | Some t \<Rightarrow> [VTime t])"
| "sa_node d _ = []"

lemma vals_sa_json:
  "vals_for as (sa_json s d) u p = (if resolve as s = Some u then sa_node d p else [])"
  by (cases p) (simp_all add: sa_json_def vals_omit)

lemma sa_json_quads: "q \<in> set (sa_json s d) \<Longrightarrow> fst q = s"
  unfolding sa_json_def set_append set_map by (elim UnE; force dest: omit_quads)

lemma sa_json_nonempty: "sa_json s d \<noteq> []"
  by (simp add: sa_json_def)

lemma create_account_view:
  assumes "mut_step as (create_sa_mut a env) g h" "wf_accounts g"
  obtains (taken) "\<not> cond_ok g (create_sa_mut a env)" "as = []" "h = g"
  | (new) x b where "cond_ok g (create_sa_mut a env)" "as = [(''sa'', x)]" "account_view g x = None"
      "same_account b (stored_account a)" "account_view h = (account_view g)(x \<mapsto> b)" "wf_accounts h"
proof (rule blank_step [OF assms(1), where b = "''sa''"])
  show "mu_del (create_sa_mut a env) = []" "mu_set (create_sa_mut a env) \<noteq> []"
    "\<forall>q \<in> set (mu_set (create_sa_mut a env)). fst q = Blank ''sa''"
    by (auto simp: create_sa_mut_def sa_json_nonempty sa_json_quads)
next
  assume "\<not> cond_ok g (create_sa_mut a env)" "as = []" "h = g"
  then show thesis by (rule taken)
next
  fix x
  let ?d = "new_dsa a" and ?b = "dgraphServiceAccount_toDomain (decode_sa \<lparr>jn_uid = x, jn_val = h x\<rparr>)"
  assume c: "cond_ok g (create_sa_mut a env)" "as = [(''sa'', x)]" and gx: "g x = (\<lambda>_. [])"
    and l: "\<And>p. is_list_pred p \<Longrightarrow> set (h x p) = set (vals_for [(''sa'', x)] (mu_set (create_sa_mut a env)) x p)"
    and s: "\<And>p. \<not> is_list_pred p \<Longrightarrow> h x p =
      (let vs = vals_for [(''sa'', x)] (mu_set (create_sa_mut a env)) x p in if vs = [] then [] else [last vs])"
    and o: "\<And>y. y \<noteq> x \<Longrightarrow> h y = g y"
  have v: "vals_for [(''sa'', x)] (mu_set (create_sa_mut a env)) x p = sa_node ?d p" for p
    by (simp add: create_sa_mut_def vals_sa_json)
  have typed: "sa_typed (h x)"
    using l [of DgraphType] unfolding v by (simp add: sa_typed_def is_list_pred_def new_dsa_def)
  have hx: "h x p = sa_node ?d p" if "p \<in> {SA_id, SA_client_id, SA_name, SA_secret_hash, SA_actor_type, SA_active,
      SA_created_at, SA_updated_at}" for p
    using that s [of p] unfolding v
    by (auto simp: is_list_pred_def last_opt opt_str_def new_dsa_def Let_def)
  have perms: "set (jstrs (h x) SA_permissions) = set (sa_Permissions a)"
    using l [of SA_permissions] unfolding v by (auto simp: set_jstrs is_list_pred_def new_dsa_def)
  have b: "same_account ?b (stored_account a)"
    using hx perms by (simp add: same_account_def stored_account_def sa_defs new_dsa_def jstr_def jbool_def
        jtime_def opt_str_def)
  have w: "wf_accounts h"
    using assms(2) o typed hx [of SA_client_id] by (auto simp: wf_accounts_def wf_sa_node_def new_dsa_def) metis+
  have view: "account_view h = (account_view g)(x \<mapsto> ?b)"
  proof
    fix y
    show "account_view h y = ((account_view g)(x \<mapsto> ?b)) y"
      using o [of y] typed by (auto simp: account_view_def)
  qed
  have "account_view g x = None" by (simp add: account_view_def sa_typed_def gx)
  then show thesis using c b view w by (intro new)
qed

lemma deactivate_view:
  assumes "mut_step as (deactivate_mut now x) g h" "wf_accounts g" "account_view g x = Some a"
  shows "account_view h = (account_view g)(x \<mapsto> deactivated now a)" "wf_accounts h"
proof -
  have h: "h = g(x := (g x)(SA_active := [VBool False], SA_updated_at := [VTime (fmt_rfc3339 now)]))"
    using uid_step [OF assms(1) [unfolded deactivate_mut_def], of x]
    by (auto simp: is_list_pred_def fun_eq_iff Let_def)
  have a: "a = dgraphServiceAccount_toDomain (decode_sa \<lparr>jn_uid = x, jn_val = g x\<rparr>)" "sa_typed (g x)"
    using assms(3) by (auto simp: account_view_def split: if_splits)
  have "account_view h x = Some (deactivated now a)"
    using a(2) by (simp add: account_view_def h sa_typed_def a(1) deactivated_def sa_defs jstr_def jstrs_def
        jbool_def jtime_def)
  moreover have "y \<noteq> x \<Longrightarrow> account_view h y = account_view g y" for y by (simp add: account_view_def h)
  ultimately show "account_view h = (account_view g)(x \<mapsto> deactivated now a)" by (auto simp: fun_eq_iff)
  show "wf_accounts h"
    using assms(2) by (auto simp: wf_accounts_def wf_sa_node_def h sa_typed_def)
qed

end
