(* ===== verification/Query_Text.thy ===== *)
theory Query_Text
  imports Dql Session_Text Dgraph_User Dgraph_Service_Account
begin

text \<open>
  The queries of the session, user and service account repositories (\<^verbatim>\<open>internal/repository/dgraph/session.go\<close>,
  \<^verbatim>\<open>repository.go\<close>, \<^verbatim>\<open>service_account.go\<close>) as the texts the code sends, each with its variables. Those of the first two
  ask for the queries, and guard the write, that \<^verbatim>\<open>Dgraph_Session\<close> and \<^verbatim>\<open>Dgraph_User\<close> work with; those of the third are
  refused for the name of their variable.
\<close>

abbreviation indent :: "nat \<Rightarrow> string" where
  "indent n \<equiv> CHR 0x0A # replicate n (CHR 0x09)" \<comment> \<open>a new line\<close>

text \<open>The text with its variables reads as the tokens of the query, under the name the result is decoded from.\<close>

definition asks :: "(int \<Rightarrow> string) \<Rightarrow> string \<Rightarrow> (string \<times> string) list \<Rightarrow> string \<Rightarrow> query \<Rightarrow> bool" where
  "asks tf txt vars name q = (dql_read txt vars = Some (query_tokens pred_name tf name q))"

section \<open>Sessions\<close>

definition fields_text :: "nat \<Rightarrow> string list \<Rightarrow> string" where
  "fields_text n fs = concat (map (\<lambda>f. indent n @ f) fs)"

definition sessionFields_text :: string where
  "sessionFields_text = fields_text 1
     [''uid'', ''session.kind'', ''session.user_id'', ''session.client_id'', ''session.actor_id'', ''session.actor_type'',
      ''session.access_token_hash'', ''session.refresh_token_hash'', ''session.refresh_jti'', ''session.replaced_by_jti'',
      ''session.permissions'', ''session.delegated_permissions'', ''session.policy_groups'', ''session.permission_version'',
      ''session.created_at'', ''session.updated_at'', ''session.last_seen_at'', ''session.expires_at'',
      ''session.refresh_expires_at'', ''session.revoked'', ''session.revoked_at'', ''session.user_agent'', ''session.ip_address'']"

definition session_by_id_text :: "string \<Rightarrow> string" where
  "session_by_id_text sid =
     indent 2 @ ''{'' @
     indent 3 @ ''session(func: uid('' @ sid @ '')) @filter(type(Session)) {'' @ sessionFields_text @
     indent 3 @ ''}'' @
     indent 2 @ ''}''"

definition list_sessions_text :: string where
  "list_sessions_text =
     indent 2 @ ''query Sessions($uid: string) {'' @
     indent 3 @ ''sessions(func: eq(session.user_id, $uid), orderasc: session.last_seen_at)'' @
     indent 4 @ ''@filter(NOT eq(session.revoked, true)) {'' @ sessionFields_text @
     indent 3 @ ''}'' @
     indent 2 @ ''}''"

definition rotate_read_text :: "string \<Rightarrow> string" where
  "rotate_read_text sid =
     indent 2 @ ''{'' @
     indent 3 @ ''old(func: uid('' @ sid @ '')) @filter(type(Session)) {'' @
     fields_text 4
       [''uid'', ''session.revoked'', ''session.kind'', ''session.user_id'', ''session.client_id'', ''session.actor_id'',
        ''session.actor_type'', ''session.permissions'', ''session.delegated_permissions'', ''session.policy_groups'',
        ''session.permission_version'', ''session.user_agent'', ''session.ip_address''] @
     indent 3 @ ''}'' @
     indent 2 @ ''}''"

definition active_sessions_text :: string where
  "active_sessions_text =
     indent 2 @ ''query Sessions($uid: string) {'' @
     indent 3 @ ''sessions(func: eq(session.user_id, $uid))'' @
     indent 4 @ ''@filter(NOT eq(session.revoked, true)) {'' @
     indent 4 @ ''uid'' @
     indent 3 @ ''}'' @
     indent 2 @ ''}''"

definition expired_text :: "(nat \<Rightarrow> bool) \<Rightarrow> string \<Rightarrow> string" where
  "expired_text isp threshold =
     ''{'' @
     indent 2 @ ''expired(func: type(Session)) @filter(le(session.refresh_expires_at, '' @ Quote isp threshold @ '')) {'' @
     indent 3 @ ''uid'' @
     indent 2 @ ''}'' @
     indent 1 @ ''}''"

definition session_by_text :: "string \<Rightarrow> string" where
  "session_by_text predicate =
     indent 2 @ ''query Session($val: string) {'' @
     indent 3 @ ''session(func: eq('' @ predicate @ '', $val)) @filter(type(Session)) {'' @ sessionFields_text @
     indent 3 @ ''}'' @
     indent 2 @ ''}''"

section \<open>Users\<close>

definition user_read_text :: "string list \<Rightarrow> string \<Rightarrow> string \<Rightarrow> string" where \<comment> \<open>the reads of \<open>Update\<close>, \<open>GetByID\<close> and \<open>GetByEmail\<close>\<close>
  "user_read_text fs var predicate =
     indent 2 @ ''query q('' @ var @ '': string) {'' @
     indent 3 @ ''users(func: eq('' @ predicate @ '', '' @ var @ '')) {'' @
     fields_text 4 fs @
     indent 3 @ ''}'' @
     indent 2 @ ''}''"

definition update_read_text :: string where
  "update_read_text = user_read_text
     [''uid'', ''user.id'', ''user.first_name'', ''user.last_name'', ''user.nickname'', ''user.email'', ''user.country'',
      ''user.active'', ''user.created_at'', ''user.updated_at''] ''$id'' ''user.id''"

definition get_by_id_text :: string where
  "get_by_id_text = user_read_text
     [''uid'', ''user.id'', ''user.first_name'', ''user.last_name'', ''user.nickname'', ''user.password_hash'', ''user.email'',
      ''user.country'', ''user.active'', ''user.created_at'', ''user.updated_at''] ''$id'' ''user.id''"

definition get_by_email_text :: string where
  "get_by_email_text = user_read_text
     [''uid'', ''user.id'', ''user.first_name'', ''user.last_name'', ''user.nickname'', ''user.password_hash'', ''user.email'',
      ''user.country'', ''user.active'', ''user.created_at'', ''user.updated_at''] ''$email'' ''user.email''"

definition delete_read_text :: string where
  "delete_read_text =
     indent 2 @ ''query q($id: string) {'' @
     indent 3 @ ''users(func: eq(user.id, $id)) { uid }'' @
     indent 2 @ ''}''"

definition list_fields_text :: string where
  "list_fields_text =
     indent 4 @ ''uid'' @
     indent 4 @ ''user.id user.first_name user.last_name user.nickname'' @
     indent 4 @ ''user.email user.country user.active user.created_at user.updated_at''"

definition list_users_text :: "ListFilter \<Rightarrow> string" where
  "list_users_text f =
     (if lf_Country f \<noteq> '''' then
        indent 2 @ ''query q($country: string, $offset: int, $pageSize: int) {'' @
        indent 3 @ ''users(func: eq(user.country, $country), offset: $offset, first: $pageSize) @filter(eq(user.active, true)) {'' @
        list_fields_text @
        indent 3 @ ''}'' @
        indent 3 @ ''total(func: eq(user.country, $country)) @filter(eq(user.active, true)) {'' @
        indent 4 @ ''count(uid)'' @
        indent 3 @ ''}'' @
        indent 2 @ ''}''
      else
        indent 2 @ ''query q($offset: int, $pageSize: int) {'' @
        indent 3 @ ''users(func: type(User), offset: $offset, first: $pageSize) @filter(eq(user.active, true)) {'' @
        list_fields_text @
        indent 3 @ ''}'' @
        indent 3 @ ''total(func: type(User)) @filter(eq(user.active, true)) {'' @
        indent 4 @ ''count(uid)'' @
        indent 3 @ ''}'' @
        indent 2 @ ''}'')"

definition list_users_vars :: "ListFilter \<Rightarrow> (string \<times> string) list" where
  "list_users_vars f =
     (''$offset'', show_int (wrap64 (wrap64 (lf_Page f - 1) * lf_PageSize f))) # (''$pageSize'', show_int (lf_PageSize f)) #
     (if lf_Country f \<noteq> '''' then [(''$country'', lf_Country f)] else [])"

definition ping_text :: string where
  "ping_text = ''{ q(func: uid(0x1)) { uid } }''"

text \<open>The request of \<open>Create\<close>: a query that names what it finds, and the condition of the mutation on these names.\<close>

definition create_query_text :: string where
  "create_query_text =
     indent 3 @ ''query q($email: string, $nickname: string) {'' @
     indent 4 @ ''email as var(func: eq(user.email, $email))'' @
     indent 4 @ ''nickname as var(func: eq(user.nickname, $nickname))'' @
     indent 3 @ ''}''"

definition create_cond_text :: string where
  "create_cond_text = ''@if(eq(len(email), 0) AND eq(len(nickname), 0))''"

definition create_vars :: "User \<Rightarrow> (string \<times> string) list" where
  "create_vars u = [(''$email'', to_lower (usr_Email u)), (''$nickname'', usr_Nickname u)]"

text \<open>
  What such a pair of texts stands for: under one name each, the blocks that look for a node with the value, and the
  condition that none of them found any.
\<close>

definition upsert_tokens :: "(int \<Rightarrow> string) \<Rightarrow> (string \<times> pred \<times> val) list \<Rightarrow> token list" where
  "upsert_tokens tf cs = block (concat
     (map (\<lambda>(n, p, v). TName n # TName ''as'' # call ''var'' (arg ''func'' (func_tokens pred_name tf (FuncEq p v)))) cs))"

fun none_found :: "string list \<Rightarrow> token list" where
  "none_found [] = []"
| "none_found [n] = call ''eq'' (call ''len'' [TName n] @ comma [TName ''0''])"
| "none_found (n # ns) = call ''eq'' (call ''len'' [TName n] @ comma [TName ''0'']) @ TName ''AND'' # none_found ns"

definition guards :: "(int \<Rightarrow> string) \<Rightarrow> string \<Rightarrow> (string \<times> string) list \<Rightarrow> string \<Rightarrow> string list \<Rightarrow> mutation \<Rightarrow> bool" where
  "guards tf txt vars cond ns m =
     (length ns = length (mu_cond m) \<and> dql_read txt vars = Some (upsert_tokens tf (zip ns (mu_cond m))) \<and>
      dql_tokens cond = Some (TPunct (CHR ''@'') # call ''if'' (none_found ns)))"

section \<open>Service accounts\<close>




section \<open>Reading them\<close>

lemma scan_fields:
  "list_all (\<lambda>f. f \<noteq> [] \<and> list_all name_char f) fs \<Longrightarrow>
   dql_tokens (fields_text n fs @ CHR 0x0A # b) = map_option ((@) (map TName fs)) (dql_tokens b)"
proof (induction fs)
  case Nil
  then show ?case by (cases "dql_tokens b") (simp_all add: fields_text_def scan_chars)
next
  case (Cons f fs)
  have next_line: "\<exists>x. fields_text n fs @ CHR 0x0A # b = CHR 0x0A # x" by (cases fs) (simp_all add: fields_text_def)
  then obtain x where x: "fields_text n fs @ CHR 0x0A # b = CHR 0x0A # x" ..
  have "dql_tokens (fields_text n (f # fs) @ CHR 0x0A # b) = dql_tokens (f @ CHR 0x0A # x)"
    using x by (simp add: fields_text_def scan_chars scan_tabs)
  also have "\<dots> = map_option ((#) (TName f)) (dql_tokens (fields_text n fs @ CHR 0x0A # b))"
    unfolding x by (rule scan_name) (use Cons.prems in \<open>simp_all add: scan_chars\<close>)
  finally show ?case using Cons by (cases "dql_tokens b") simp_all
qed

lemma scan_sessionFields:
  "dql_tokens (sessionFields_text @ CHR 0x0A # b) = map_option ((@) (TName ''uid'' # map (\<lambda>p. TName (pred_name p)) sessionFields)) (dql_tokens b)"
  unfolding sessionFields_text_def by (subst scan_fields) (simp_all add: scan_chars sessionFields_def)

lemma pred_no_var: "pred_name p \<noteq> CHR ''$'' # v"
  by (cases p) simp_all

lemmas query_simps = query_tokens_def head_tokens_def call_def arg_def comma_def block_def func_tokens_def val_tokens_def
  uid_query_def eq_query_def list_query_def active_query_def expired_query_def user_query_def list_users_query_def
  rotateFields_def readFields_def userFields_def

lemmas read_simps = asks_def dql_read_def Let_def bind_token_def scan scan_fields scan_sessionFields comp_def pred_no_var

lemma asks_sessions:
  "re_match validDgraphUID u \<Longrightarrow> asks tf (session_by_id_text u) [] ''session'' (uid_query u sessionFields)"
  "re_match validDgraphUID u \<Longrightarrow> asks tf (rotate_read_text u) [] ''old'' (uid_query u rotateFields)"
  "asks tf list_sessions_text [(''$uid'', usr)] ''sessions'' (list_query usr)"
  "asks tf active_sessions_text [(''$uid'', usr)] ''sessions'' (active_query usr)"
  "plain (tf (fmt_rfc3339 now)) \<Longrightarrow> asks tf (expired_text isp (tf (fmt_rfc3339 now))) [] ''expired'' (expired_query now)"
  "asks tf (session_by_text ''session.access_token_hash'') [(''$val'', v)] ''session'' (eq_query S_access_token_hash v)"
  "asks tf (session_by_text ''session.refresh_token_hash'') [(''$val'', v)] ''session'' (eq_query S_refresh_token_hash v)"
  by (simp_all add: read_simps query_simps session_by_id_text_def rotate_read_text_def list_sessions_text_def
      active_sessions_text_def expired_text_def session_by_text_def)

lemma asks_users:
  "asks tf update_read_text [(''$id'', i)] ''users'' (user_query U_id i readFields)"
  "asks tf get_by_id_text [(''$id'', i)] ''users'' (user_query U_id i userFields)"
  "asks tf get_by_email_text [(''$email'', m)] ''users'' (user_query U_email m userFields)"
  "asks tf delete_read_text [(''$id'', i)] ''users'' (user_query U_id i [])"
  by (simp_all add: read_simps query_simps user_read_text_def update_read_text_def get_by_id_text_def get_by_email_text_def
      delete_read_text_def)

lemma scan_list_fields:
  "dql_tokens (list_fields_text @ CHR 0x0A # b) =
     map_option ((@) (TName ''uid'' # map (\<lambda>p. TName (pred_name p)) readFields)) (dql_tokens (CHR 0x0A # b))"
  by (cases "dql_tokens b") (simp_all add: list_fields_text_def readFields_def scan)

lemma asks_users_of_country:
  "lf_Country f \<noteq> '''' \<Longrightarrow> asks tf (list_users_text f) (list_users_vars f) ''users'' (list_users_query f)"
  by (simp add: read_simps query_simps list_users_text_def scan_list_fields list_users_vars_def)

lemma asks_all_users:
  "lf_Country f = '''' \<Longrightarrow> asks tf (list_users_text f) (list_users_vars f) ''users'' (list_users_query f)"
  by (simp add: read_simps query_simps list_users_text_def scan_list_fields list_users_vars_def)

lemma asks_ping:
  "asks tf ping_text [] ''q''
     \<lparr>q_func = FuncUid ''0x1'', q_filter = [], q_orderasc = None, q_page = None, q_fields = [], q_total = False\<rparr>"
  by (simp add: read_simps query_simps ping_text_def)

lemma create_guarded:
  "guards tf create_query_text (create_vars u) create_cond_text [''email'', ''nickname''] (create_user_mut u)"
  by (simp add: guards_def create_user_mut_def read_simps create_query_text_def create_cond_text_def create_vars_def
      upsert_tokens_def block_def call_def arg_def comma_def func_tokens_def val_tokens_def)

text \<open>C16: Every query text of the session and the user repository, with its variables, asks for exactly the query the
  repository means, under the name its answer is decoded by, and the query and the condition sent with a new user are
  the guard of that write, on the email in lower case and the nickname: whatever user IDs, email addresses, nicknames,
  hashes and countries clients choose, they stay inside one token, and so does a session ID that \<^verbatim>\<open>validDgraphUID\<close> lets
  into the text.\<close>

theorem query_texts_ask:
  assumes "re_match validDgraphUID sid" "plain (tf (fmt_rfc3339 now))"
  shows "asks tf (session_by_id_text sid) [] ''session'' (uid_query sid sessionFields) \<and>
    asks tf (rotate_read_text sid) [] ''old'' (uid_query sid rotateFields) \<and>
    asks tf list_sessions_text [(''$uid'', usr)] ''sessions'' (list_query usr) \<and>
    asks tf active_sessions_text [(''$uid'', usr)] ''sessions'' (active_query usr) \<and>
    asks tf (expired_text isp (tf (fmt_rfc3339 now))) [] ''expired'' (expired_query now) \<and>
    asks tf (session_by_text ''session.access_token_hash'') [(''$val'', h)] ''session'' (eq_query S_access_token_hash h) \<and>
    asks tf (session_by_text ''session.refresh_token_hash'') [(''$val'', h)] ''session'' (eq_query S_refresh_token_hash h) \<and>
    asks tf update_read_text [(''$id'', usr)] ''users'' (user_query U_id usr readFields) \<and>
    asks tf get_by_id_text [(''$id'', usr)] ''users'' (user_query U_id usr userFields) \<and>
    asks tf get_by_email_text [(''$email'', to_lower m)] ''users'' (user_query U_email (to_lower m) userFields) \<and>
    asks tf delete_read_text [(''$id'', usr)] ''users'' (user_query U_id usr []) \<and>
    asks tf (list_users_text f) (list_users_vars f) ''users'' (list_users_query f) \<and>
    asks tf ping_text [] ''q''
      \<lparr>q_func = FuncUid ''0x1'', q_filter = [], q_orderasc = None, q_page = None, q_fields = [], q_total = False\<rparr> \<and>
    guards tf create_query_text (create_vars u) create_cond_text [''email'', ''nickname''] (create_user_mut u)"
  using asks_users_of_country [of f tf] asks_all_users [of f tf]
  by (intro conjI asks_sessions asks_users asks_ping create_guarded assms) blast

theorem query_texts_ask_witness:
  "asks (\<lambda>_. ''t'') (session_by_id_text ''0x1f'') [] ''session'' (uid_query ''0x1f'' sessionFields) \<and>
   asks (\<lambda>_. ''t'') get_by_email_text [(''$email'', to_lower ''A){ uid } '')] ''users''
     (user_query U_email (to_lower ''A){ uid } '') userFields)"
proof -
  have "re_match validDgraphUID ''0x1f''" by code_simp
  moreover have "plain ((\<lambda>_ :: int. ''t'') (fmt_rfc3339 0))" by (rule plain_ascii) code_simp
  ultimately show ?thesis
    using query_texts_ask [of "''0x1f''" "\<lambda>_. ''t''" 0 "''u''" "\<lambda>_. True" "''h''" "''A){ uid } ''"
        "\<lparr>lf_Country = '''', lf_Page = 1, lf_PageSize = 20\<rparr>"] by blast
qed


end
