(* ===== verification/Dgraph_Service_Account_Laws.thy ===== *)
theory Dgraph_Service_Account_Laws
  imports Dgraph_Service_Account
begin

text \<open>
  The service account repository over a Dgraph client meets the contract of the store of machine identities,
  whatever the server makes of the variable names, as long as it either refuses a variable or gives it the
  value sent: \<open>dgraph_binding\<close> extends \<open>dgraph_client\<close> with such a server. A server that binds as documented is
  one of them; it refuses every request of the repository.
\<close>

locale dgraph_binding = dgraph_client dg graph for dg :: "'db dgraph" and graph +
  fixes bind :: vbind
  assumes faithful: "faithful_vars bind"
begin

lemma bound:
  assumes "declared \<in> {[], [''$clientID'']}"
  obtains (refused) e where "bind declared [(''clientID'', c)] = Inl e" "foreign e"
  | (bound) env where "bind declared [(''clientID'', c)] = Inr env" "env ''$clientID'' = c"
proof (cases "bind declared [(''clientID'', c)]")
  case (Inl e)
  then show ?thesis using refused bspec [OF faithful [unfolded faithful_vars_def] assms, rule_format, of c] by simp
next
  case (Inr env)
  then show ?thesis using bound bspec [OF faithful [unfolded faithful_vars_def] assms, rule_format, of c] by simp
qed

lemma account_query_nodes:
  assumes "dg_query dg Strong (user_query SA_client_id c fs) db = Inr j" "wf_accounts (graph db)"
  obtains (none) cs where "j = Json [] cs" "c = '''' \<or> \<not> client_taken (account_view (graph db)) c"
  | (some) n ns cs a where "j = Json (n # ns) cs" "account_view (graph db) (jn_uid n) = Some a" "sa_ClientID a = c"
      "n = \<lparr>jn_uid = jn_uid n, jn_val = project fs (graph db (jn_uid n))\<rparr>"
      "a = dgraphServiceAccount_toDomain (decode_sa \<lparr>jn_uid = jn_uid n, jn_val = graph db (jn_uid n)\<rparr>)"
proof -
  have pq: "proper (user_query SA_client_id c fs)" "q_page (user_query SA_client_id c fs) = None"
      "q_fields (user_query SA_client_id c fs) = fs"
    by (simp_all add: proper_def user_query_def)
  obtain ns cs where j: "j = Json ns cs" using query_not_bad [OF assms(1) pq(1)] by (cases j) auto
  note q = query_nodes [OF assms(1) [unfolded j] pq(1,2)]
  have sel: "selected (user_query SA_client_id c fs) x n \<longleftrightarrow> VStr c \<in> set (n SA_client_id)" for x n
    by (simp add: selected_def user_query_def)
  show ?thesis
  proof (cases ns)
    case Nil
    then show ?thesis using none [of cs] j q(2) client_taken_iff [OF assms(2), of c] by (auto simp: sel)
  next
    case (Cons n ns')
    have "VStr c \<in> set (graph db (jn_uid n) SA_client_id)" using q(2) Cons by (auto simp: sel)
    moreover have "n = \<lparr>jn_uid = jn_uid n, jn_val = project fs (graph db (jn_uid n))\<rparr>"
      using q(3) [of n] Cons pq(3) by (cases n) simp
    ultimately show ?thesis using some [of n ns' cs] j Cons by (auto elim!: sa_client_node [OF assms(2)])
  qed
qed

lemma create_account_cases:
  assumes wf: "wf_accounts (graph db)" and r: "SA_CreateServiceAccount bind dg a db = (r, db')"
  obtains (new) x b where "sa_ClientID a \<noteq> '''' \<Longrightarrow> \<not> client_taken (account_view (graph db)) (sa_ClientID a)"
      "account_view (graph db) x = None" "same_account b (stored_account a)"
      "account_view (graph db') = (account_view (graph db))(x \<mapsto> b)" "wf_accounts (graph db')"
      "is_ok r \<or> (\<exists>e. r = Inl e \<and> foreign e)"
  | (same) e where "r = Inl e" "graph db' = graph db"
      "foreign e \<or> e = Sentinel ErrUserAlreadyExists \<and> (sa_ClientID a \<noteq> '''' \<longrightarrow> client_taken (account_view (graph db)) (sa_ClientID a))"
proof (cases rule: bound [of "[]" "sa_ClientID a", simplified])
  case (1 e)
  then show ?thesis using r same by (auto simp: SA_CreateServiceAccount_def DoWithVars_def)
next
  case env: (2 env)
  let ?m = "create_sa_mut a env"
  obtain m where m: "dg_mutate dg ?m db = (m, db')"
      "r = (case m of Inl e \<Rightarrow> Inl (Wrap ''dgraph: create service account'' e) | Inr resp \<Rightarrow>
        if length (mr_uids resp) = 0 then Inl (Sentinel ErrUserAlreadyExists) else Inr (zookieFromTxn (mr_commit_ts resp)))"
    using r env by (auto simp: SA_CreateServiceAccount_def DoWithVars_def split: prod.splits sum.splits if_splits)
  have ct: "cond_ok (graph db) ?m \<longleftrightarrow> \<not> client_taken (account_view (graph db)) (sa_ClientID a)" if "sa_ClientID a \<noteq> ''''"
    using client_taken_iff [OF wf that] env(2) by (auto simp: cond_ok_def create_sa_mut_def)
  show ?thesis
  proof (cases m)
    case (Inl e)
    with m mutate_err have e: "foreign e" and g: "graph db' = graph db \<or>
        (\<exists>as. mut_step as ?m (graph db) (graph db'))" by blast+
    from g consider "graph db' = graph db" | as where "mut_step as ?m (graph db) (graph db')" by blast
    then show ?thesis
    proof cases
      case 1
      then show ?thesis using same m(2) Inl e by auto
    next
      case 2
      show ?thesis
        by (cases rule: create_account_view [OF 2 wf]) (use same new m(2) Inl e ct in auto)
    qed
  next
    case (Inr resp)
    with m mutate_ok have a: "mut_step (mr_uids resp) ?m (graph db) (graph db')" by blast
    show ?thesis
      by (cases rule: create_account_view [OF a wf]) (use same new m(2) Inr ct in auto)
  qed
qed

lemma get_account_cases:
  assumes wf: "wf_accounts (graph db)" and r: "SA_GetByClientID bind dg c (Some z) db = r"
  obtains (ok) x a where "r = Inr a" "account_view (graph db) x = Some a" "sa_ClientID a = c"
  | (none) "r = Inl (Sentinel ErrUserNotFound)" "c = '''' \<or> \<not> client_taken (account_view (graph db)) c"
  | (failed) e where "r = Inl e" "foreign e"
proof (cases rule: bound [of "[''$clientID'']" c, simplified])
  case (1 e)
  then show ?thesis using r failed by (auto simp: SA_GetByClientID_def QueryWithVars_def)
next
  case env: (2 env)
  note d = SA_GetByClientID_def QueryWithVars_def newReadTxn_def account_query_def unmarshal_def
  show ?thesis
  proof (cases "dg_query dg Strong (user_query SA_client_id c saFields) db")
    case (Inl e)
    then show ?thesis using r env failed [of "Wrap ''dgraph: get service account'' e"] query_err by (auto simp: d)
  next
    case (Inr j)
    show ?thesis
    proof (cases rule: account_query_nodes [OF Inr wf])
      case (1 cs)
      then show ?thesis using none r Inr env by (auto simp: d)
    next
      case (2 n ns cs a)
      have "decode_sa n = decode_sa \<lparr>jn_uid = jn_uid n, jn_val = graph db (jn_uid n)\<rparr>"
        by (subst 2(4)) (simp add: decode_sa_def project_def saFields_def jstr_def jstrs_def jbool_def jtime_def Let_def)
      then show ?thesis using ok [of a "jn_uid n"] 2 r Inr env by (auto simp: d)
    qed
  qed
qed

lemma deactivate_cases:
  assumes wf: "wf_accounts (graph db)" and r: "SA_Deactivate bind dg now c db db = (r, db')"
  obtains (new) x a where "account_view (graph db) x = Some a" "sa_ClientID a = c"
      "account_view (graph db') = (account_view (graph db))(x \<mapsto> deactivated now a)" "wf_accounts (graph db')"
      "is_ok r \<or> (\<exists>e. r = Inl e \<and> foreign e)"
  | (none) "r = Inl (Sentinel ErrUserNotFound)" "db' = db" "c = '''' \<or> \<not> client_taken (account_view (graph db)) c"
  | (failed) e where "r = Inl e" "foreign e" "graph db' = graph db"
proof (cases rule: bound [of "[''$clientID'']" c, simplified])
  case (1 e)
  then show ?thesis using r failed by (auto simp: SA_Deactivate_def QueryWithVars_def)
next
  case env: (2 env)
  note d = SA_Deactivate_def QueryWithVars_def account_query_def unmarshal_def
  show ?thesis
  proof (cases "dg_query dg Strong (user_query SA_client_id c []) db")
    case (Inl e)
    then show ?thesis using r env failed [of "Wrap ''dgraph: deactivate lookup'' e"] query_err by (auto simp: d)
  next
    case (Inr j)
    show ?thesis
    proof (cases rule: account_query_nodes [OF Inr wf])
      case (1 cs)
      then show ?thesis using none r Inr env by (auto simp: d)
    next
      case (2 n ns cs a)
      let ?m = "deactivate_mut now (jn_uid n)"
      obtain m where m: "dg_mutate dg ?m db = (m, db')"
          "r = (case m of Inl e \<Rightarrow> Inl (Wrap ''dgraph: deactivate mutate'' e) | Inr mr \<Rightarrow> Inr (zookieFromTxn (mr_commit_ts mr)))"
        using r Inr env 2(1) by (auto simp: d split: prod.splits sum.splits)
      note eff = deactivate_view [OF _ wf 2(2)]
      show ?thesis
      proof (cases m)
        case (Inl e)
        then have "foreign e" "graph db' = graph db \<or> (\<exists>as. mut_step as ?m (graph db) (graph db'))"
          using m(1) mutate_err [of ?m db e db'] by auto
        then show ?thesis using failed new [OF 2(2,3)] m(2) Inl eff by auto
      next
        case (Inr mr)
        then have "mut_step (mr_uids mr) ?m (graph db) (graph db')" using m(1) mutate_ok [of ?m db mr db'] by auto
        then show ?thesis using new [OF 2(2,3)] m(2) Inr eff by auto
      qed
    qed
  qed
qed

end

sublocale dgraph_binding \<subseteq> sar: service_account_repository "dgraph_service_account_repo bind dg"
  "\<lambda>db. account_view (graph db)" "\<lambda>db. wf_accounts (graph db)"
proof (unfold_locales, unfold dgraph_service_account_repo_def service_account_repo.simps, goal_cases)
  case (1 db a z db') then show ?case by (cases rule: create_account_cases [OF 1(1,2)]) auto
next
  case (2 db a e db') then show ?case by (cases rule: create_account_cases [OF 2(1,2)]) auto
next
  case (3 db a r db') then show ?case by (cases rule: create_account_cases [OF 3]) auto
next
  case (4 db c z a) then show ?case by (cases rule: get_account_cases [OF 4]) auto
next
  case (5 db c z e) then show ?case by (cases rule: get_account_cases [OF 5]) auto
next
  case (6 db now c z db') then show ?case by (cases rule: deactivate_cases [OF 6]) auto
next
  case (7 db now c e db') then show ?case by (cases rule: deactivate_cases [OF 7]) auto
next
  case (8 db now c r db') then show ?case by (cases rule: deactivate_cases [OF 8]) auto
qed

context dgraph_binding
begin

lemma bound_accounts:
  "service_account_repository (dgraph_service_account_repo bind dg)
    (\<lambda>db. account_view (graph db)) (\<lambda>db. wf_accounts (graph db))"
  by (rule sar.service_account_repository_axioms)

end

lemma dgraph_accounts:
  assumes "dgraph_client dg graph" "faithful_vars bind"
  shows "service_account_repository (dgraph_service_account_repo bind dg)
    (\<lambda>db. account_view (graph db)) (\<lambda>db. wf_accounts (graph db))"
proof -
  from assms have "dgraph_binding dg graph bind"
    by (simp add: dgraph_binding_def dgraph_binding_axioms_def)
  then show ?thesis by (rule dgraph_binding.bound_accounts)
qed

text \<open>Two servers: one that binds by bare name, for runs that get past the variables, and one that binds as documented.\<close>

definition bare_bind :: vbind where
  "bare_bind declared given =
     Inr (\<lambda>x. case map_of (map (\<lambda>(k, v). (CHR ''$'' # k, v)) given) x of None \<Rightarrow> '''' | Some v \<Rightarrow> v)"

definition strict_bind :: vbind where
  "strict_bind declared given =
     (if list_all (\<lambda>(k, v). List.member declared k) given
      then Inr (\<lambda>x. case map_of given x of None \<Rightarrow> '''' | Some v \<Rightarrow> v)
      else Inl (Foreign ''rpc error: Type of variable not specified''))"

lemma bare_bind_faithful: "faithful_vars bare_bind"
  by (simp add: faithful_vars_def bare_bind_def)

lemma strict_bind_declared: "declared_vars strict_bind"
  by (auto simp: declared_vars_def strict_bind_def list_all_iff)

interpretation mem_accounts: dgraph_binding mem_dgraph mem_graph strict_bind
  by unfold_locales (rule declared_faithful [OF strict_bind_declared])

end
