(* ===== verification/Dgraph_User_Laws.thy ===== *)
theory Dgraph_User_Laws
  imports Dgraph_User
begin

text \<open>
  \<^verbatim>\<open>Repository\<close> over a Dgraph client meets the contract of the user store: the laws of
  \<open>user_repository\<close> for \<open>dgraph_user_repo dg\<close>.
\<close>

lemma proper_user [simp]: "proper (user_query p v fs)" "q_page (user_query p v fs) = None"
    "q_fields (user_query p v fs) = fs"
  by (simp_all add: proper_def user_query_def)

lemma selected_user [simp]: "selected (user_query p v fs) x n \<longleftrightarrow> VStr v \<in> set (n p)"
  by (simp add: selected_def user_query_def)

lemma decode_user_project [simp]:
  "decode_user \<lparr>jn_uid = x, jn_val = project userFields n\<rparr> = decode_user \<lparr>jn_uid = x, jn_val = n\<rparr>"
  by (simp add: decode_user_def project_def userFields_def jstr_def jbool_def jtime_def)


lemma ceil_div_pages:
  assumes "0 \<le> (a :: int)" "1 \<le> b"
  defines "p \<equiv> (if ceil_div a b < 1 then 1 else ceil_div a b)"
  shows "a \<le> p * b" "p = 1 \<or> 1 < p \<and> (p - 1) * b < a"
proof -
  have c: "a \<le> ceil_div a b * b" "(ceil_div a b - 1) * b < a"
  proof -
    have e: "- a = (- a) div b * b + (- a) mod b" by simp
    have m: "0 \<le> (- a) mod b" "(- a) mod b < b" using assms(2) by simp_all
    show "a \<le> ceil_div a b * b" using e m(1) unfolding ceil_div_def by linarith
    have "(ceil_div a b - 1) * b = - ((- a) div b * b) - b" by (simp add: ceil_div_def algebra_simps)
    then show "(ceil_div a b - 1) * b < a" using e m(2) by linarith
  qed
  have "ceil_div a b * b \<le> p * b" using assms(2) by (intro mult_right_mono) (auto simp: p_def)
  with c(1) show "a \<le> p * b" by linarith
  show "p = 1 \<or> 1 < p \<and> (p - 1) * b < a" using c(2) by (auto simp: p_def)
qed

text \<open>A user predicate with a value belongs to a user of the table.\<close>

lemma user_with:
  assumes "wf_users g" "p \<in> set user_strs" "VStr v \<in> set (g x p)"
  obtains u where "user_view g x = Some u" "v \<noteq> ''''" "p = U_id \<longrightarrow> usr_ID u = v"
    "p = U_email \<longrightarrow> usr_Email u = v" "p = U_country \<longrightarrow> usr_Country u = v"
proof -
  have t: "user_typed (g x)" using assms(2,3) by (intro user_mem_typed [OF assms(1)]) auto
  then obtain u where u: "user_view g x = Some u" by (simp add: user_view_def)
  have "wf_user_node (g x)" using assms(1) by (simp add: wf_users_def)
  from wf_strE [OF this t assms(2)] assms(3) have "v \<noteq> ''''" by (metis opt_str_mem)
  then show ?thesis
    using assms(3) user_viewD(2,3,5) [OF u assms(1)] by (intro that [OF u]) auto
qed

context dgraph_client
begin

lemma find_user:
  assumes "dg_query dg Strong (user_query p v fs) db = Inr j" "wf_users (graph db)" "p \<in> set user_strs"
  obtains (none) cs where "j = Json [] cs" "\<And>x. VStr v \<notin> set (graph db x p)"
  | (some) n ns cs u where "j = Json (n # ns) cs" "user_view (graph db) (jn_uid n) = Some u"
      "n = \<lparr>jn_uid = jn_uid n, jn_val = project fs (graph db (jn_uid n))\<rparr>"
      "p = U_id \<Longrightarrow> usr_ID u = v" "p = U_email \<Longrightarrow> usr_Email u = v"
proof (cases j)
  case BadJson
  then show ?thesis using query_not_bad [OF assms(1)] by simp
next
  case (Json ns cs)
  note q = query_nodes [OF assms(1) [unfolded Json] proper_user(1,2)]
  show ?thesis
  proof (cases ns)
    case Nil
    then show ?thesis using none [of cs] Json q(2) by auto
  next
    case (Cons n ns')
    have "VStr v \<in> set (graph db (jn_uid n) p)" using q(2) Cons by auto
    then obtain u where "user_view (graph db) (jn_uid n) = Some u" "p = U_id \<longrightarrow> usr_ID u = v" "p = U_email \<longrightarrow> usr_Email u = v"
      by (rule user_with [OF assms(2,3)])
    moreover have "n = \<lparr>jn_uid = jn_uid n, jn_val = project fs (graph db (jn_uid n))\<rparr>"
      using q(3) [of n] Cons by (cases n) simp
    ultimately show ?thesis using some [of n ns' cs u] Json Cons by simp
  qed
qed

lemma in_strs [simp]: "U_id \<in> set user_strs" "U_email \<in> set user_strs" "U_country \<in> set user_strs"
  by (simp_all add: user_strs_def)

lemma query_user_cases:
  assumes "wf_users (graph db)" "p \<in> {U_id, U_email}"
    and r: "Repository_queryOne dg (user_query p v userFields) (Some z) db = r"
  obtains (ok) x u where "r = Inr u" "user_view (graph db) x = Some u" "p = U_id \<Longrightarrow> usr_ID u = v" "p = U_email \<Longrightarrow> usr_Email u = v"
  | (none) "r = Inl (Sentinel ErrUserNotFound)" "\<And>x. VStr v \<notin> set (graph db x p)"
  | (failed) e where "r = Inl e" "foreign e"
proof (cases "dg_query dg Strong (user_query p v userFields) db")
  case (Inl e)
  then show ?thesis using r failed [of "Wrap ''dgraph: query'' e"] query_err
    by (auto simp: Repository_queryOne_def newReadTxn_def)
next
  case (Inr j)
  have p: "p \<in> set user_strs" using assms(2) by auto
  show ?thesis
  proof (rule find_user [OF Inr assms(1) p])
    fix cs assume "j = Json [] cs" "\<And>x. VStr v \<notin> set (graph db x p)"
    then show thesis using none r Inr by (auto simp: Repository_queryOne_def newReadTxn_def unmarshal_def)
  next
    fix n ns cs u
    assume a: "j = Json (n # ns) cs" "user_view (graph db) (jn_uid n) = Some u"
      and n: "n = \<lparr>jn_uid = jn_uid n, jn_val = project userFields (graph db (jn_uid n))\<rparr>"
      and f: "p = U_id \<Longrightarrow> usr_ID u = v" "p = U_email \<Longrightarrow> usr_Email u = v"
    have "u = dgraphUser_toDomain (decode_user n)"
      using user_viewD(7) [OF a(2) assms(1)] by (subst n) simp
    then show thesis using ok [of u "jn_uid n"] a f r Inr
      by (auto simp: Repository_queryOne_def newReadTxn_def unmarshal_def)
  qed
qed

lemma create_user_cases:
  assumes wf: "wf_users (graph db)" and r: "Repository_Create dg u db = (r, db')"
    and ne: "usr_Email u \<noteq> ''''" "usr_Nickname u \<noteq> ''''"
  obtains (new) x where "\<not> taken (user_view (graph db)) (to_lower (usr_Email u)) (usr_Nickname u)"
      "user_view (graph db) x = None" "user_view (graph db') = (user_view (graph db))(x \<mapsto> stored_user u)"
      "wf_users (graph db')" "is_ok r \<or> (\<exists>e. r = Inl e \<and> foreign e)"
  | (same) e where "r = Inl e" "graph db' = graph db"
      "foreign e \<or> e = Sentinel ErrUserAlreadyExists \<and> taken (user_view (graph db)) (to_lower (usr_Email u)) (usr_Nickname u)"
proof -
  obtain m where m: "dg_mutate dg (create_user_mut u) db = (m, db')"
    using r by (auto simp: Repository_Create_def split: prod.splits sum.splits if_splits)
  have rm: "r = (case m of Inl e \<Rightarrow> Inl (Wrap ''dgraph: create user'' e) | Inr resp \<Rightarrow>
      if length (mr_uids resp) = 0 then Inl (Sentinel ErrUserAlreadyExists) else Inr (zookieFromTxn (mr_commit_ts resp)))"
    using r m by (auto simp: Repository_Create_def split: sum.splits)
  note ct = cond_taken [OF wf ne]
  show ?thesis
  proof (cases m)
    case (Inl e)
    with m mutate_err have e: "foreign e" and g: "graph db' = graph db \<or>
        (\<exists>as. mut_step as (create_user_mut u) (graph db) (graph db'))" by blast+
    from g show ?thesis
    proof
      assume "graph db' = graph db"
      then show ?thesis using same [of "Wrap ''dgraph: create user'' e"] rm Inl e by auto
    next
      assume "\<exists>as. mut_step as (create_user_mut u) (graph db) (graph db')"
      then obtain as where a: "mut_step as (create_user_mut u) (graph db) (graph db')" by blast
      show ?thesis
      proof (cases rule: create_user_view [OF a wf])
        case 1
        then show ?thesis using same [of "Wrap ''dgraph: create user'' e"] rm Inl e by auto
      next
        case (2 x)
        then show ?thesis using new [of x] rm Inl e ct by auto
      qed
    qed
  next
    case (Inr resp)
    with m mutate_ok have a: "mut_step (mr_uids resp) (create_user_mut u) (graph db) (graph db')" by blast
    show ?thesis
    proof (cases rule: create_user_view [OF a wf])
      case 1
      then show ?thesis using same [of "Sentinel ErrUserAlreadyExists"] rm Inr ct by auto
    next
      case (2 x)
      then show ?thesis using new [of x] rm Inr ct by auto
    qed
  qed
qed

lemma create_user_wf:
  assumes "wf_users (graph db)" "Repository_Create dg u db = (r, db')"
  shows "wf_users (graph db')"
proof -
  obtain m where m: "dg_mutate dg (create_user_mut u) db = (m, db')"
    using assms(2) by (auto simp: Repository_Create_def split: prod.splits sum.splits if_splits)
  then have "graph db' = graph db \<or> (\<exists>as. mut_step as (create_user_mut u) (graph db) (graph db'))"
    using mutate_ok mutate_err by (cases m) blast+
  then show ?thesis
    using assms(1) by (auto elim!: create_user_view [OF _ assms(1)])
qed

lemma update_user_cases:
  assumes wf: "wf_users (graph db)" and r: "Repository_Update dg now i inp db db = (r, db')"
  obtains (new) x old where "user_view (graph db) x = Some old" "usr_ID old = i"
      "user_view (graph db') = (user_view (graph db))(x \<mapsto> updated_user now inp old)" "wf_users (graph db')"
      "(\<exists>z. r = Inr (shown_user now inp old, z)) \<or> (\<exists>e. r = Inl e \<and> foreign e)"
  | (none) "r = Inl (Sentinel ErrUserNotFound)" "db' = db" "\<And>x. VStr i \<notin> set (graph db x U_id)"
  | (failed) e where "r = Inl e" "foreign e" "graph db' = graph db"
proof (cases "dg_query dg Strong (user_query U_id i readFields) db")
  case (Inl e)
  then show ?thesis using r failed [of "Wrap ''dgraph: update read'' e"] query_err
    by (auto simp: Repository_Update_def)
next
  case (Inr j)
  show ?thesis
  proof (rule find_user [OF Inr wf in_strs(1)])
    fix cs assume "j = Json [] cs" "\<And>x. VStr i \<notin> set (graph db x U_id)"
    then show thesis using none r Inr by (auto simp: Repository_Update_def unmarshal_def)
  next
    fix n :: jnode and ns cs u
    let ?x = "jn_uid n"
    assume j: "j = Json (n # ns) cs" and u: "user_view (graph db) ?x = Some u"
      and n: "n = \<lparr>jn_uid = ?x, jn_val = project readFields (graph db ?x)\<rparr>"
      and f: "U_id = U_id \<Longrightarrow> usr_ID u = i"
    define d where "d = apply_update now inp (decode_user \<lparr>jn_uid = ?x, jn_val = project readFields (graph db ?x)\<rparr>)"
    let ?m = "set_nquads (user_json (Uid ?x) d)"
    note d = update_read [where n = "graph db ?x" and now = now and inp = inp and x = ?x, folded d_def]
    have wn: "wf_user_node (graph db ?x)" using wf by (simp add: wf_users_def)
    note uD = user_viewD [OF u wf]
    have du: "dgraphUser_toDomain d = shown_user now inp u" using d(3) uD(7) by simp
    have eff: "user_view h = (user_view (graph db))(?x \<mapsto> updated_user now inp u) \<and> wf_users h"
      if "mut_step as ?m (graph db) h" for as h
    proof -
      note e = update_effect [OF that d(2) wf uD(1)]
      have "user_typed (overlay d (graph db ?x))" using uD(1) d(2) by (simp add: user_typed_def overlay_str)
      then have "user_view h ?x = Some (updated_user now inp u)"
        using d(4) [OF wn uD(1)] uD(7) by (simp add: user_view_def e(1))
      moreover have "y \<noteq> ?x \<Longrightarrow> user_view h y = user_view (graph db) y" for y by (simp add: user_view_def e(1))
      ultimately show ?thesis using e(2) by (auto simp: fun_eq_iff)
    qed
    obtain t where t: "dg_commit dg ?m db db = (t, db')"
      using r Inr j n d(1) by (auto simp: Repository_Update_def unmarshal_def Let_def d_def
          split: prod.splits txn_result.splits)
    have r': "r = (case t of MutateErr e \<Rightarrow> Inl (Wrap ''dgraph: update mutate'' e)
        | CommitErr e \<Rightarrow> Inl (Wrap ''dgraph: update mutate'' e)
        | Committed mr \<Rightarrow> Inr (shown_user now inp u, zookieFromTxn (mr_commit_ts mr)))"
      using r Inr j t d(1) n du
      by (auto simp: Repository_Update_def unmarshal_def Let_def d_def split: prod.splits txn_result.splits)
    show thesis
    proof (cases t)
      case (MutateErr e)
      then show ?thesis using failed r' t commit_mutate_err [of ?m db db e db'] by auto
    next
      case (CommitErr e)
      then have "foreign e" "graph db' = graph db \<or> (\<exists>as. mut_step as ?m (graph db) (graph db'))"
        using t commit_err [of ?m db db e db'] by auto
      then show ?thesis using failed new [OF u] r' CommitErr eff f by auto
    next
      case (Committed mr)
      then have "mut_step (mr_uids mr) ?m (graph db) (graph db')"
        using t commit_ok [of ?m db db mr db'] by auto
      then show ?thesis using new [OF u] r' Committed eff f by auto
    qed
  qed
qed

lemma delete_user_cases:
  assumes wf: "wf_users (graph db)" and r: "Repository_Delete dg i db db = (r, db')"
  obtains (new) x old where "user_view (graph db) x = Some old" "usr_ID old = i"
      "user_view (graph db') = (user_view (graph db))(x := None)" "wf_users (graph db')"
      "is_ok r \<or> (\<exists>e. r = Inl e \<and> foreign e)"
  | (none) "r = Inl (Sentinel ErrUserNotFound)" "db' = db" "\<And>x. VStr i \<notin> set (graph db x U_id)"
  | (failed) e where "r = Inl e" "foreign e" "graph db' = graph db"
proof (cases "dg_query dg Strong (user_query U_id i []) db")
  case (Inl e)
  then show ?thesis using r failed [of "Wrap ''dgraph: delete lookup'' e"] query_err
    by (auto simp: Repository_Delete_def)
next
  case (Inr j)
  show ?thesis
  proof (rule find_user [OF Inr wf in_strs(1)])
    fix cs assume "j = Json [] cs" "\<And>x. VStr i \<notin> set (graph db x U_id)"
    then show thesis using none r Inr by (auto simp: Repository_Delete_def unmarshal_def)
  next
    fix n :: jnode and ns cs u
    let ?x = "jn_uid n"
    assume j: "j = Json (n # ns) cs" and u: "user_view (graph db) ?x = Some u"
      and f: "U_id = U_id \<Longrightarrow> usr_ID u = i"
    obtain m where m: "dg_mutate dg (delete_uids [?x]) db = (m, db')"
        "r = (case m of Inl e \<Rightarrow> Inl (Wrap ''dgraph: delete mutate'' e) | Inr mr \<Rightarrow> Inr (zookieFromTxn (mr_commit_ts mr)))"
      using r Inr j by (auto simp: Repository_Delete_def unmarshal_def split: prod.splits sum.splits)
    have eff: "user_view h = (user_view (graph db))(?x := None) \<and> wf_users h"
      if "mut_step as (delete_uids [?x]) (graph db) h" for as h
      using delete_user_view [OF that wf] by simp
    show thesis
    proof (cases m)
      case (Inl e)
      then have "foreign e" "graph db' = graph db \<or> (\<exists>as. mut_step as (delete_uids [?x]) (graph db) (graph db'))"
        using m(1) mutate_err [of "delete_uids [?x]" db e db'] by auto
      then show ?thesis using failed new [OF u] m(2) Inl eff f by auto
    next
      case (Inr mr)
      then have "mut_step (mr_uids mr) (delete_uids [?x]) (graph db) (graph db')"
        using m(1) mutate_ok [of "delete_uids [?x]" db mr db'] by auto
      then show ?thesis using new [OF u] m(2) Inr eff f by auto
    qed
  qed
qed

lemma not_stored: "wf_users (graph db) \<Longrightarrow> (\<And>x. VStr i \<notin> set (graph db x U_id)) \<Longrightarrow>
    \<forall>x u. user_view (graph db) x = Some u \<longrightarrow> usr_ID u \<noteq> i \<or> i = ''''"
  by (metis opt_str_mem user_viewD(2))

lemma not_stored_email: "wf_users (graph db) \<Longrightarrow> (\<And>x. VStr i \<notin> set (graph db x U_email)) \<Longrightarrow>
    \<forall>x u. user_view (graph db) x = Some u \<longrightarrow> usr_Email u \<noteq> i \<or> i = ''''"
  by (metis opt_str_mem user_viewD(3))

lemma selected_list:
  assumes "wf_users g"
  shows "selected (list_users_query f) x (g x) \<longleftrightarrow> x \<in> listed f (user_view g)"
proof (cases "user_view g x")
  case None
  then have t: "\<not> user_typed (g x)" by (simp add: user_view_def split: if_splits)
  then have "VBool True \<notin> set (g x U_active)" using user_mem_typed [OF assms, of U_active] by auto
  with None show ?thesis by (simp add: selected_def list_users_query_def listed_def)
next
  case (Some u)
  note d = user_viewD [OF Some assms]
  from d(1) have "VStr ''User'' \<in> set (g x DgraphType)" by (simp add: user_typed_def)
  with Some d(5,6) show ?thesis by (auto simp: selected_def list_users_query_def listed_def)
qed

lemma list_users_ok:
  assumes wf: "wf_users (graph db)" and r: "Repository_List dg f (Some z) db = Inr l"
    and f: "1 \<le> lf_Page f" "1 \<le> lf_PageSize f" "lf_PageSize f \<le> 100" "lf_PageSize f * lf_Page f < 2 ^ 63"
  obtains xs where "enumerates xs f (user_view (graph db))" "lr_Users l = page_of f (user_view (graph db)) xs"
    "lr_Page l = lf_Page f" "lr_Total l = int (length xs)" "lr_Total l \<le> lr_Pages l * lf_PageSize f"
    "lr_Pages l = 1 \<or> 1 < lr_Pages l \<and> (lr_Pages l - 1) * lf_PageSize f < lr_Total l"
proof -
  have n: "ListFilter_Normalise f = f" using f by (simp add: ListFilter_Normalise_def)
  let ?off = "(lf_Page f - 1) * lf_PageSize f"
  have off: "0 \<le> ?off" "?off < 2 ^ 63" "lf_Page f - 1 < 2 ^ 63"
  proof -
    show "0 \<le> ?off" using f by simp
    show "?off < 2 ^ 63" using f(2,4) by (simp add: algebra_simps)
    have "lf_Page f * 1 \<le> lf_Page f * lf_PageSize f" using f by (intro mult_left_mono) auto
    then show "lf_Page f - 1 < 2 ^ 63" using f(4) by (simp add: mult.commute)
  qed
  have w: "wrap64 (wrap64 (lf_Page f - 1) * lf_PageSize f) = ?off"
  proof -
    have "wrap64 (lf_Page f - 1) = lf_Page f - 1" using f off(3) by (intro wrap64_id) auto
    moreover have "wrap64 ?off = ?off" using off(1,2) by (intro wrap64_id) auto
    ultimately show ?thesis by simp
  qed
  have page: "q_page (list_users_query f) = Some (?off, lf_PageSize f)" by (simp add: list_users_query_def w)
  have proper: "proper (list_users_query f)" using f off(1) by (simp add: proper_def list_users_query_def w)
  obtain j where j: "dg_query dg Strong (list_users_query f) db = Inr j"
    using r by (auto simp: Repository_List_def n newReadTxn_def split: sum.splits)
  from query_ok [OF j proper] obtain us where us: "complete (graph db) (list_users_query f) us"
      "j = Json (map (\<lambda>u. \<lparr>jn_uid = u, jn_val = project readFields (graph db u)\<rparr>)
         (take (nat (lf_PageSize f)) (drop (nat ?off) us))) [length us]"
    by (auto simp: answers_def page paginate_def) (simp add: list_users_query_def)
  let ?us = "take (nat (lf_PageSize f)) (drop (nat ?off) us)"
  have l: "lr_Page l = lf_Page f" "lr_Total l = int (length us)"
      "lr_Users l = map (\<lambda>x. dgraphUser_toDomain (decode_user \<lparr>jn_uid = x, jn_val = project readFields (graph db x)\<rparr>)) ?us"
    using r j us(2) by (auto simp: Repository_List_def n newReadTxn_def unmarshal_def Let_def)
  have pages: "lr_Pages l = (if ceil_div (lr_Total l) (lf_PageSize f) < 1 then 1 else ceil_div (lr_Total l) (lf_PageSize f))"
    using r j us(2) by (auto simp: Repository_List_def n newReadTxn_def unmarshal_def Let_def)
  have p: "lr_Total l \<le> lr_Pages l * lf_PageSize f"
    "lr_Pages l = 1 \<or> 1 < lr_Pages l \<and> (lr_Pages l - 1) * lf_PageSize f < lr_Total l"
    unfolding pages using ceil_div_pages [of "lr_Total l" "lf_PageSize f"] f(2) l(2) by simp_all
  have set: "set us = listed f (user_view (graph db))" "distinct us"
    using us(1) selected_list [OF wf] by (auto simp: complete_def)
  have "dgraphUser_toDomain (decode_user \<lparr>jn_uid = x, jn_val = project readFields (graph db x)\<rparr>) =
      (the (user_view (graph db) x))\<lparr>usr_PasswordHash := ''''\<rparr>" if "x \<in> set ?us" for x
  proof -
    have "x \<in> set us" using that by (meson in_set_dropD in_set_takeD)
    then obtain v where v: "user_view (graph db) x = Some v" by (auto simp: set listed_def)
    then show ?thesis using user_viewD(7) [OF v wf]
      by (simp add: user_defs project_def readFields_def jstr_def jbool_def jtime_def)
  qed
  then have "lr_Users l = page_of f (user_view (graph db)) us" unfolding l page_of_def by (rule map_cong [OF refl])
  with set l p that show ?thesis by (simp add: enumerates_def)
qed

end

sublocale dgraph_client \<subseteq> ur: user_repository "dgraph_user_repo dg"
  "\<lambda>db. user_view (graph db)" "\<lambda>db. wf_users (graph db)"
proof (unfold_locales, unfold dgraph_user_repo_def user_repo.simps Repository_GetByID_def
    Repository_GetByEmail_def, goal_cases)
  case (1 db u z db')
  show ?case using 1(3-) by (cases rule: create_user_cases [OF 1]) auto
next
  case (2 db u e db')
  show ?case using 2(3-) by (cases rule: create_user_cases [OF 2]) auto
next case (3 db u r db') then show ?case by (rule create_user_wf)
next
  case (4 db i z u)
  show ?case by (cases rule: query_user_cases [OF 4(1) _ 4(2)]) auto
next
  case (5 db i z e)
  show ?case by (cases rule: query_user_cases [OF 5(1) _ 5(2)]) (use not_stored [OF 5(1)] in auto)
next
  case (6 db m z u)
  show ?case by (cases rule: query_user_cases [OF 6(1) _ 6(2)]) auto
next
  case (7 db m z e)
  show ?case
    by (cases rule: query_user_cases [OF 7(1) _ 7(2)]) (use not_stored_email [OF 7(1)] in \<open>auto simp: to_lower_def\<close>)
next
  case (8 db now i inp u z db')
  show ?case by (cases rule: update_user_cases [OF 8]) auto
next
  case (9 db now i inp e db')
  show ?case by (cases rule: update_user_cases [OF 9]) (use not_stored [OF 9(1)] in auto)
next
  case (10 db now i inp r db')
  show ?case by (cases rule: update_user_cases [OF 10]) (use 10 in auto)
next
  case (11 db i z db')
  show ?case by (cases rule: delete_user_cases [OF 11]) auto
next
  case (12 db i e db')
  show ?case by (cases rule: delete_user_cases [OF 12]) (use not_stored [OF 12(1)] in auto)
next
  case (13 db i r db')
  show ?case by (cases rule: delete_user_cases [OF 13]) (use 13 in auto)
next
  case (14 db f z l)
  show ?case by (rule list_users_ok [OF 14(1) 14(6) 14(3,4,5,2)]) blast
qed

context dgraph_client
begin

lemma dgraph_users:
  "user_repository (dgraph_user_repo dg) (\<lambda>db. user_view (graph db)) (\<lambda>db. wf_users (graph db))"
  by (rule ur.user_repository_axioms)

end

interpretation mem_users: user_repository "dgraph_user_repo mem_dgraph"
  "\<lambda>db. user_view (mem_graph db)" "\<lambda>db. wf_users (mem_graph db)"
  by (rule mem.ur.user_repository_axioms)

end
