(* ===== verification/Auth_Service.thy ===== *)
theory Auth_Service
  imports Dgraph_User_Laws
begin

text \<open>
  \<^verbatim>\<open>internal/service/auth.go\<close>: registration, credential check and profile management over a user store.

  \<^item> \<^verbatim>\<open>bcrypt\<close> is an argument: a record of the two functions the service calls; what is relied on (a
    generated hash compares equal with its password) is the locale \<open>bcrypt_lib\<close>.
  \<^item> The UUID and the salt drawn for a new user, and the clock, are arguments.
  \<^item> \<open>Auth_Login\<close> also returns the hashes it compared the password with, because the function means
    to run a comparison on every path.
  \<^item> A panic of a constructor is \<open>None\<close>.
\<close>

section \<open>Operations\<close>

record bcrypt =
  bc_GenerateFromPassword :: "string \<Rightarrow> string \<Rightarrow> int \<Rightarrow> string res" \<comment> \<open>salt, password, cost\<close>
  bc_Compare :: "string \<Rightarrow> string \<Rightarrow> bool" \<comment> \<open>hash, password; \<open>True\<close> is the nil error\<close>

locale bcrypt_lib =
  fixes bc :: bcrypt
  assumes generated_compares: "bc_GenerateFromPassword bc salt pw cost = Inr h \<Longrightarrow> bc_Compare bc h pw"
    and generate_err: "bc_GenerateFromPassword bc salt pw cost = Inl e \<Longrightarrow> foreign e"

definition bcryptFloor :: int where
  "bcryptFloor = 12"

record 'db AuthService =
  as_repo :: "'db user_repo"
  as_bcryptCost :: int

definition Auth_New :: "'db user_repo \<Rightarrow> int \<Rightarrow> 'db AuthService option" where
  "Auth_New repo bcryptCost =
     (if bcryptCost < bcryptFloor then None else Some \<lparr>as_repo = repo, as_bcryptCost = bcryptCost\<rparr>)"

definition registered_user :: "int \<Rightarrow> string \<Rightarrow> string \<Rightarrow> CreateUserInput \<Rightarrow> User" where
  "registered_user now uuid hash input =
     \<lparr>usr_ID = uuid, usr_FirstName = cui_FirstName input, usr_LastName = cui_LastName input,
      usr_Nickname = cui_Nickname input, usr_PasswordHash = hash, usr_Email = cui_Email input,
      usr_Country = cui_Country input, usr_Active = True, usr_CreatedAt = now, usr_UpdatedAt = now\<rparr>"

definition Auth_Register ::
  "'db AuthService \<Rightarrow> bcrypt \<Rightarrow> string \<Rightarrow> int \<Rightarrow> string \<Rightarrow> CreateUserInput \<Rightarrow> 'db \<Rightarrow> (User \<times> Zookie) res \<times> 'db" where
  "Auth_Register sv bc salt now uuid i0 db =
     (case CreateUserInput_Validate i0 of
        (Some e, _) \<Rightarrow> (Inl (Wrap ''register'' e), db)
      | (None, input) \<Rightarrow>
          (case bc_GenerateFromPassword bc salt (cui_Password input) (as_bcryptCost sv) of
             Inl e \<Rightarrow> (Inl (Wrap ''register: hash password'' e), db)
           | Inr hash \<Rightarrow>
               (let user = registered_user now uuid hash input in
                case ur_Create (as_repo sv) user db of
                  (Inl e, db') \<Rightarrow> (Inl (Wrap ''register'' e), db')
                | (Inr zookie, db') \<Rightarrow> (Inr (user, zookie), db'))))"

definition dummyHash :: string where
  "dummyHash = ''$2a$12$dummyhashfortimingprotection''"

definition Auth_Login :: "'db AuthService \<Rightarrow> bcrypt \<Rightarrow> LoginInput \<Rightarrow> 'db \<Rightarrow> User res \<times> string list" where
  "Auth_Login sv bc i0 db =
     (case LoginInput_Validate i0 of
        (Some e, _) \<Rightarrow> (Inl (Wrap ''login'' e), [])
      | (None, input) \<Rightarrow>
          (case ur_GetByEmail (as_repo sv) (li_Email input) StrongRead db of
             Inl e \<Rightarrow> (Inl (Sentinel ErrInvalidCredentials), [dummyHash])
           | Inr user \<Rightarrow>
               (if \<not> bc_Compare bc (usr_PasswordHash user) (li_Password input)
                then (Inl (Sentinel ErrInvalidCredentials), [usr_PasswordHash user])
                else if \<not> usr_Active user then (Inl (Sentinel ErrUnauthorized), [usr_PasswordHash user])
                else (Inr user, [usr_PasswordHash user]))))"

definition Auth_GetUser :: "'db AuthService \<Rightarrow> string \<Rightarrow> Zookie option \<Rightarrow> 'db \<Rightarrow> User res" where
  "Auth_GetUser sv i zookie db =
     (case ur_GetByID (as_repo sv) i zookie db of
        Inl e \<Rightarrow> Inl (Wrap ''get user'' e)
      | Inr user \<Rightarrow> if \<not> usr_Active user then Inl (Sentinel ErrUserNotFound) else Inr user)"

definition Auth_UpdateUser ::
  "'db AuthService \<Rightarrow> int \<Rightarrow> string \<Rightarrow> string \<Rightarrow> UpdateUserInput \<Rightarrow> 'db \<Rightarrow> 'db \<Rightarrow> (User \<times> Zookie) res \<times> 'db" where
  "Auth_UpdateUser sv now callerID targetID input snap db =
     (if callerID \<noteq> targetID then (Inl (Sentinel ErrUnauthorized), db)
      else case ur_Update (as_repo sv) now targetID input snap db of
        (Inl e, db') \<Rightarrow> (Inl (Wrap ''update user'' e), db')
      | (Inr uz, db') \<Rightarrow> (Inr uz, db'))"

definition Auth_DeleteUser :: "'db AuthService \<Rightarrow> string \<Rightarrow> string \<Rightarrow> 'db \<Rightarrow> 'db \<Rightarrow> Zookie res \<times> 'db" where
  "Auth_DeleteUser sv callerID targetID seen db =
     (if callerID \<noteq> targetID then (Inl (Sentinel ErrUnauthorized), db)
      else case ur_Delete (as_repo sv) targetID seen db of
        (Inl e, db') \<Rightarrow> (Inl (Wrap ''delete user'' e), db')
      | (Inr z, db') \<Rightarrow> (Inr z, db'))"

definition Auth_ListUsers :: "'db AuthService \<Rightarrow> ListFilter \<Rightarrow> Zookie option \<Rightarrow> 'db \<Rightarrow> ListResult res" where
  "Auth_ListUsers sv f0 zookie db =
     (let filter = ListFilter_Normalise f0 in
      case ur_List (as_repo sv) filter zookie db of
        Inl e \<Rightarrow> Inl (Wrap ''list users'' e)
      | Inr l \<Rightarrow> Inr l)"

definition Auth_ActivateContext :: "string \<Rightarrow> ContextActivationInput \<Rightarrow> ContextActivationInput res" where
  "Auth_ActivateContext callerID input =
     (if cai_UserID input \<noteq> callerID then Inl (Sentinel ErrUnauthorized)
      else if \<not> ActorType_IsValid (cai_ActorType input)
      then Inl (Wrap ''activate context'' (Sentinel ErrInvalidInput))
      else if cai_ActorID input = ''''
      then Inl (Wrap ''activate context: actor_id must not be empty'' (Sentinel ErrInvalidInput))
      else Inr input)"

section \<open>Over any user store\<close>

definition unique_users :: "users \<Rightarrow> bool" where
  "unique_users U =
     (\<forall>x y u v. U x = Some u \<longrightarrow> U y = Some v \<longrightarrow>
        usr_Email u = usr_Email v \<or> usr_Nickname u = usr_Nickname v \<longrightarrow> x = y)"

lemma validated_input:
  assumes "CreateUserInput_Validate i = (None, j)"
  shows "cui_Email j = to_lower (trim_space (cui_Email i))" "cui_Email j \<noteq> ''''" "cui_Nickname j \<noteq> ''''"
    "to_lower (cui_Email j) = cui_Email j" "cui_Password j = cui_Password i" "8 \<le> length (cui_Password i)"
    "re_match emailRegex (cui_Email j)" "re_match nicknameRegex (cui_Nickname j)"
proof -
  show e: "cui_Email j = to_lower (trim_space (cui_Email i))" and "cui_Password j = cui_Password i"
      and "8 \<le> length (cui_Password i)" and m: "re_match emailRegex (cui_Email j)" "re_match nicknameRegex (cui_Nickname j)"
    using assms by (auto simp: CreateUserInput_Validate_def Let_def split: if_splits)
  show "to_lower (cui_Email j) = cui_Email j" by (simp add: e)
  show "cui_Email j \<noteq> ''''" using m(1) by (auto simp: emailRegex_matches)
  show "cui_Nickname j \<noteq> ''''" using m(2) by (auto simp: nicknameRegex_matches)
qed

context user_repository
begin

lemma register_cases:
  assumes inv: "inv db" and r: "Auth_Register \<lparr>as_repo = repo, as_bcryptCost = c\<rparr> bc salt now uuid i db = (r, db')"
  obtains (invalid) e where "CreateUserInput_Validate i = (Some e, snd (CreateUserInput_Validate i))"
      "r = Inl (Wrap ''register'' (Sentinel ErrInvalidInput))" "db' = db"
  | (hash) e where "r = Inl (Wrap ''register: hash password'' e)" "db' = db"
      "bc_GenerateFromPassword bc salt (cui_Password i) c = Inl e"
  | (tried) j h y where "CreateUserInput_Validate i = (None, j)" "bc_GenerateFromPassword bc salt (cui_Password i) c = Inr h"
      "ur_Create repo (registered_user now uuid h j) db = (y, db')" "inv db'"
      "r = (case y of Inl e \<Rightarrow> Inl (Wrap ''register'' e) | Inr z \<Rightarrow> Inr (registered_user now uuid h j, z))"
proof (cases "CreateUserInput_Validate i")
  case (Pair v j)
  show ?thesis
  proof (cases v)
    case (Some e)
    then have "e = Sentinel ErrInvalidInput" using Pair Validate_invalid_input(1) by simp
    then show ?thesis using invalid [of e] r Pair Some by (simp add: Auth_Register_def)
  next
    case None
    note j = validated_input [OF Pair [unfolded None]]
    show ?thesis
    proof (cases "bc_GenerateFromPassword bc salt (cui_Password i) c")
      case (Inl e)
      then show ?thesis using hash [of e] r Pair None j by (simp add: Auth_Register_def)
    next
      case (Inr h)
      obtain y d where y: "ur_Create repo (registered_user now uuid h j) db = (y, d)" by fastforce
      then have "d = db'" "r = (case y of Inl e \<Rightarrow> Inl (Wrap ''register'' e) | Inr z \<Rightarrow> Inr (registered_user now uuid h j, z))"
        using r Pair None Inr j by (auto simp: Auth_Register_def Let_def split: sum.splits)
      then show ?thesis using tried [of j h y] Pair None Inr y create_inv [OF inv y] by simp
    qed
  qed
qed

lemma login_stored:
  assumes "inv db" "as_repo sv = repo" "fst (Auth_Login sv bc i db) = Inr u"
  shows "\<exists>x. users db x = Some u \<and> usr_Email u = to_lower (trim_space (li_Email i)) \<and> usr_Active u \<and>
    bc_Compare bc (usr_PasswordHash u) (li_Password i)"
proof -
  obtain m where "ur_GetByEmail repo m StrongRead db = Inr u" "usr_Active u" "to_lower m = to_lower (trim_space (li_Email i))"
      "bc_Compare bc (usr_PasswordHash u) (li_Password i)"
    using assms(2,3) by (auto simp: Auth_Login_def LoginInput_Validate_def Let_def split: prod.splits option.splits sum.splits if_splits)
  then show ?thesis using by_email_ok [OF assms(1)] by (auto simp: StrongRead_def)
qed

lemma register_ok:
  assumes "inv db" "Auth_Register \<lparr>as_repo = repo, as_bcryptCost = c\<rparr> bc salt now uuid i db = (Inr (u, z), db')"
  obtains j h x where "CreateUserInput_Validate i = (None, j)" "bc_GenerateFromPassword bc salt (cui_Password i) c = Inr h"
    "u = registered_user now uuid h j" "\<not> taken (users db) (cui_Email j) (cui_Nickname j)"
    "users db x = None" "users db' = (users db)(x \<mapsto> stored_user u)" "inv db'"
proof (cases rule: register_cases [OF assms])
  case (3 j h y)
  note v = validated_input [OF 3(1)]
  obtain z' where "y = Inr z'" "u = registered_user now uuid h j" using 3(5) by (auto split: sum.splits)
  with 3 create_ok [OF assms(1), of u z' db'] v that [of j h] show ?thesis
    by (auto simp: registered_user_def)
qed auto

end

end
