(* ===== verification/Auth_Theorems.thy ===== *)
theory Auth_Theorems
  imports Auth_Service
begin

text \<open>
  Properties of the user service (\<^verbatim>\<open>internal/service/auth.go\<close>) on top of the Dgraph user repository
  (\<^verbatim>\<open>internal/repository/dgraph/repository.go\<close>).
\<close>

section \<open>Runs on the in-memory store\<close>

definition ex_bcrypt :: bcrypt where
  "ex_bcrypt = \<lparr>bc_GenerateFromPassword = (\<lambda>salt pw cost. Inr (''$2a$'' @ pw)), bc_Compare = (\<lambda>h pw. h = ''$2a$'' @ pw)\<rparr>"

interpretation ex_bc: bcrypt_lib ex_bcrypt
  by unfold_locales (auto simp: ex_bcrypt_def)

definition ex_auth :: "mem AuthService" where
  "ex_auth = \<lparr>as_repo = dgraph_user_repo mem_dgraph, as_bcryptCost = 12\<rparr>"

definition ex_user_in :: "string \<Rightarrow> string \<Rightarrow> CreateUserInput" where
  "ex_user_in nick mail =
     \<lparr>cui_FirstName = ''Ada'', cui_LastName = ''L'', cui_Nickname = nick, cui_Password = ''passw0rd'',
      cui_Email = mail, cui_Country = ''KE''\<rparr>"

definition ex_register :: "string \<Rightarrow> string \<Rightarrow> string \<Rightarrow> mem \<Rightarrow> (User \<times> Zookie) res \<times> mem" where
  "ex_register uuid nick mail db = Auth_Register ex_auth ex_bcrypt ''s'' (1000 * second) uuid (ex_user_in nick mail) db"

definition ex_unode :: "string \<Rightarrow> string \<Rightarrow> string \<Rightarrow> (pred \<times> val list) list" where
  "ex_unode uuid nick mail =
     [(DgraphType, [VStr ''User'']), (U_id, [VStr uuid]), (U_first_name, [VStr ''Ada'']),
      (U_last_name, [VStr ''L'']), (U_nickname, [VStr nick]), (U_password_hash, [VStr ''$2a$passw0rd'']),
      (U_email, [VStr mail]), (U_country, [VStr ''KE'']), (U_active, [VBool True]),
      (U_created_at, [VTime 1000]), (U_updated_at, [VTime 1000])]"

definition ex_udb :: mem where
  "ex_udb = [(''0x1'', ex_unode ''id1'' ''ada_l'' ''ada@x.io'')]"

definition ex_udb2 :: mem where
  "ex_udb2 = [(''0x1'', ex_unode ''id1'' ''ada_l'' ''ada@x.io''), (''0x2'', ex_unode ''id2'' ''bob_k'' ''bob@x.io'')]"

lemma ex_unode_wf:
  "uuid \<noteq> '''' \<Longrightarrow> nick \<noteq> '''' \<Longrightarrow> mail \<noteq> '''' \<Longrightarrow> wf_user_node (node_of (ex_unode uuid nick mail))"
  by (auto simp: wf_user_node_def ex_unode_def node_of_def user_typed_def user_strs_def opt_str_def)

lemma wf_users_Cons: "wf_user_node n \<Longrightarrow> wf_users g \<Longrightarrow> wf_users (g(u := n))"
  by (auto simp: wf_users_def)

lemma ex_uwf0: "wf_users (mem_graph [])"
  by (simp add: wf_users_def wf_user_node_def user_typed_def mem_graph_def)

lemma ex_uwf: "wf_users (mem_graph ex_udb)" "wf_users (mem_graph ex_udb2)"
  unfolding ex_udb_def ex_udb2_def mem_graph_Cons by (intro wf_users_Cons ex_unode_wf ex_uwf0; simp)+

lemma ex_registered: "\<exists>u z. ex_register ''id1'' ''ada_l'' '' Ada@X.io'' [] = (Inr (u, z), ex_udb) \<and> usr_Email u = ''ada@x.io''"
proof -
  have "case ex_register ''id1'' ''ada_l'' '' Ada@X.io'' [] of
      (Inr (u, z), db) \<Rightarrow> usr_Email u = ''ada@x.io'' \<and> db = ex_udb | _ \<Rightarrow> False"
    by code_simp
  then show ?thesis by (auto split: prod.splits sum.splits)
qed

section \<open>Registration and login\<close>

text \<open>C20: A registered user can log in: with the email as typed at registration and the same password, \<open>Login\<close>
  returns exactly the stored user, unless the store cannot be read (a failed read is reported as
  invalid credentials).\<close>

theorem register_then_login:
  assumes "dgraph_client dg graph" "wf_users (graph db)" "bcrypt_lib bc"
    and "Auth_Register \<lparr>as_repo = dgraph_user_repo dg, as_bcryptCost = c\<rparr> bc salt now uuid i db = (Inr (u, z), db')"
  shows "fst (Auth_Login \<lparr>as_repo = dgraph_user_repo dg, as_bcryptCost = c\<rparr> bc
      \<lparr>li_Email = cui_Email i, li_Password = cui_Password i\<rparr> db') =
    (if is_ok (Repository_GetByEmail dg (usr_Email u) StrongRead db') then Inr (stored_user u)
     else Inl (Sentinel ErrInvalidCredentials))"
proof -
  note U = dgraph_client.dgraph_users [OF assms(1)]
  obtain j h x where r: "CreateUserInput_Validate i = (None, j)" "bc_GenerateFromPassword bc salt (cui_Password i) c = Inr h"
      "u = registered_user now uuid h j" "\<not> taken (user_view (graph db)) (cui_Email j) (cui_Nickname j)"
      "user_view (graph db') = (user_view (graph db))(x \<mapsto> stored_user u)" "wf_users (graph db')"
    by (rule user_repository.register_ok [OF U assms(2,4)])
  note v = validated_input [OF r(1)]
  have "cui_Password i \<noteq> ''''" using v(6) by auto
  then have l: "LoginInput_Validate \<lparr>li_Email = cui_Email i, li_Password = cui_Password i\<rparr> =
      (None, \<lparr>li_Email = cui_Email j, li_Password = cui_Password i\<rparr>)"
    using v(1,7) by (simp add: LoginInput_Validate_def Let_def)
  have eu: "usr_Email u = cui_Email j" "usr_PasswordHash (stored_user u) = h" "usr_Active (stored_user u)"
      "usr_Email (stored_user u) = cui_Email j"
    by (simp_all add: r(3) registered_user_def stored_user_def)
  have cmp: "bc_Compare bc h (cui_Password i)"
    using bcrypt_lib.generated_compares [OF assms(3) r(2)] .
  have found: "w = stored_user u" if g: "Repository_GetByEmail dg (cui_Email j) StrongRead db' = Inr w" for w
  proof -
    have "ur_GetByEmail (dgraph_user_repo dg) (cui_Email j) (Some zero_zookie) db' = Inr w"
      using g by (simp add: dgraph_user_repo_def StrongRead_def)
    from user_repository.by_email_ok [OF U r(6) this] v(4) obtain y where
      "usr_Email w = cui_Email j" "user_view (graph db') y = Some w" by auto
    then show ?thesis using r(4,5) by (auto simp: taken_def split: if_splits)
  qed
  show ?thesis
    using found cmp
    by (cases "Repository_GetByEmail dg (cui_Email j) StrongRead db'")
      (auto simp: Auth_Login_def l eu dgraph_user_repo_def)
qed

theorem register_then_login_witness:
  "\<exists>u. fst (Auth_Login ex_auth ex_bcrypt \<lparr>li_Email = '' Ada@X.io'', li_Password = ''passw0rd''\<rparr> ex_udb) = Inr u \<and>
     usr_Email u = ''ada@x.io''"
proof -
  obtain u z where r: "ex_register ''id1'' ''ada_l'' '' Ada@X.io'' [] = (Inr (u, z), ex_udb)" "usr_Email u = ''ada@x.io''"
    using ex_registered by blast
  have "is_ok (Repository_GetByEmail mem_dgraph ''ada@x.io'' StrongRead ex_udb)" by code_simp
  with register_then_login [OF mem.dgraph_client_axioms ex_uwf0 ex_bc.bcrypt_lib_axioms
      r(1) [unfolded ex_register_def ex_auth_def]] r(2)
  show ?thesis by (auto simp: ex_auth_def ex_user_in_def stored_user_def)
qed

text \<open>C21: What \<open>Login\<close> answers. Malformed input is invalid input, and no password is compared. Well-formed
  input gives a user only if it is stored under the normalised email, active, and its hash compares with
  the password; \<open>ErrUnauthorized\<close> only for an inactive user whose password is right; and
  \<open>ErrInvalidCredentials\<close> for everything else: no user has the email, the password does not compare, or the
  store cannot be read. No other error is returned, so the answer does not tell whether the email exists.\<close>

theorem login_outcome:
  assumes "dgraph_client dg graph" "wf_users (graph db)"
  shows "let email = to_lower (trim_space (li_Email i));
      stored = (\<lambda>P. \<exists>x u. user_view (graph db) x = Some u \<and> usr_Email u = email \<and> P u) in
    case Auth_Login \<lparr>as_repo = dgraph_user_repo dg, as_bcryptCost = c\<rparr> bc i db of (r, compared) \<Rightarrow>
      (if fst (LoginInput_Validate i) \<noteq> None then r = Inl (Wrap ''login'' (Sentinel ErrInvalidInput)) \<and> compared = []
       else case r of
         Inr u \<Rightarrow> stored (\<lambda>v. v = u \<and> bc_Compare bc (usr_PasswordHash u) (li_Password i) \<and> usr_Active u)
       | Inl e \<Rightarrow>
           e = Sentinel ErrUnauthorized \<and>
             stored (\<lambda>u. bc_Compare bc (usr_PasswordHash u) (li_Password i) \<and> \<not> usr_Active u) \<or>
           e = Sentinel ErrInvalidCredentials \<and>
             (store_error (Repository_GetByEmail dg email StrongRead db) \<or> \<not> stored (\<lambda>u. True) \<or>
              stored (\<lambda>u. \<not> bc_Compare bc (usr_PasswordHash u) (li_Password i))))"
proof (cases "LoginInput_Validate i")
  case (Pair v j)
  note U = dgraph_client.dgraph_users [OF assms(1)]
  show ?thesis
  proof (cases v)
    case (Some e)
    then have "e = Sentinel ErrInvalidInput" using Pair Validate_invalid_input(2) by simp
    then show ?thesis using Pair Some by (simp add: Auth_Login_def Let_def)
  next
    case None
    have e: "li_Email j = to_lower (trim_space (li_Email i))" "li_Password j = li_Password i" "re_match emailRegex (li_Email j)"
      using Pair None by (auto simp: LoginInput_Validate_def Let_def split: if_splits)
    have j: "li_Email j = to_lower (trim_space (li_Email i))" "li_Password j = li_Password i" "li_Email j \<noteq> ''''"
        "to_lower (li_Email j) = li_Email j"
      using e(3) by (simp_all add: e(1,2)) (auto simp: emailRegex_matches)
    have g: "ur_GetByEmail (dgraph_user_repo dg) (li_Email j) (Some zero_zookie) db = Repository_GetByEmail dg (li_Email j) StrongRead db"
      by (simp add: StrongRead_def dgraph_user_repo_def)
    show ?thesis
    proof (cases "Repository_GetByEmail dg (li_Email j) StrongRead db")
      case (Inl e)
      with user_repository.by_email_err [OF U assms(2), of "li_Email j" zero_zookie e] g j(3,4)
      have "foreign e \<or> (\<forall>x u. user_view (graph db) x = Some u \<longrightarrow> usr_Email u \<noteq> li_Email j)" by auto
      then show ?thesis using Pair None Inl by (auto simp: Auth_Login_def Let_def j(1) dgraph_user_repo_def)
    next
      case (Inr u)
      with user_repository.by_email_ok [OF U assms(2), of "li_Email j" zero_zookie u] g j(4) obtain x where
        "user_view (graph db) x = Some u" "usr_Email u = li_Email j" by auto
      then show ?thesis using Pair None Inr
        by (auto simp: Auth_Login_def Let_def j(1,2) dgraph_user_repo_def)
    qed
  qed
qed

theorem login_outcome_witness:
  "\<exists>x u. user_view (mem_graph ex_udb) x = Some u \<and> usr_Email u = ''ada@x.io'' \<and> usr_Active u"
proof -
  let ?L = "Auth_Login ex_auth ex_bcrypt \<lparr>li_Email = ''ada@x.io'', li_Password = ''passw0rd''\<rparr> ex_udb"
  have "is_ok (fst ?L)" by code_simp
  then obtain u where u: "fst ?L = Inr u" by (auto simp: is_ok_def split: sum.splits)
  have e: "to_lower (trim_space ''ada@x.io'') = ''ada@x.io''" by code_simp
  from login_outcome [OF mem.dgraph_client_axioms ex_uwf(1), where c = 12 and bc = ex_bcrypt and
      i = "\<lparr>li_Email = ''ada@x.io'', li_Password = ''passw0rd''\<rparr>"] u
  show ?thesis by (auto simp: ex_auth_def Let_def e split: prod.splits if_splits)
qed

text \<open>For well-formed input \<open>Login\<close> runs exactly one password comparison, whether or not the email is known;
  but when it is not, the comparison is against a constant of 34 bytes, below the 59 bytes of a
  bcrypt hash, so it returns at once and does not hide the difference in time it is there to hide.\<close>

theorem login_comparisons:
  "snd (Auth_Login sv bc i db) =
    (case LoginInput_Validate i of
       (Some e, _) \<Rightarrow> []
     | (None, j) \<Rightarrow> (case ur_GetByEmail (as_repo sv) (li_Email j) StrongRead db of
         Inl e \<Rightarrow> [dummyHash] | Inr u \<Rightarrow> [usr_PasswordHash u])) \<and> length dummyHash < 59"
proof -
  have "length dummyHash < 59" by (simp add: dummyHash_def)
  then show ?thesis by (auto simp: Auth_Login_def split: prod.splits option.splits sum.splits)
qed

lemma unique_insert:
  assumes "unique_users U" "\<not> taken U (usr_Email u) (usr_Nickname u)"
  shows "unique_users (U(x \<mapsto> u))"
proof -
  have n: "usr_Email v \<noteq> usr_Email u \<and> usr_Nickname v \<noteq> usr_Nickname u" if "U y = Some v" for y v
    using assms(2) that by (auto simp: taken_def)
  show ?thesis
    unfolding unique_users_def
  proof (intro allI impI)
    fix a b v w
    assume v: "(U(x \<mapsto> u)) a = Some v" and w: "(U(x \<mapsto> u)) b = Some w"
      and e: "usr_Email v = usr_Email w \<or> usr_Nickname v = usr_Nickname w"
    show "a = b"
    proof (cases "a = x \<or> b = x")
      case True
      then show ?thesis using v w e n [of a v] n [of b w] by (auto split: if_splits)
    next
      case False
      then show ?thesis using v w e assms(1) unfolding unique_users_def by auto
    qed
  qed
qed

text \<open>C19: Emails and nicknames stay unique under registration, however many requests race: whatever \<open>Register\<close>
  answers, if no two stored users shared an email or nickname before, none do after. The check is
  part of the write (a conditional upsert), not a read before it.\<close>

theorem register_keeps_unique:
  assumes "dgraph_client dg graph" "wf_users (graph db)" "unique_users (user_view (graph db))"
    and "Auth_Register \<lparr>as_repo = dgraph_user_repo dg, as_bcryptCost = c\<rparr> bc salt now uuid i db = (r, db')"
  shows "unique_users (user_view (graph db')) \<and> wf_users (graph db')"
proof (cases rule: user_repository.register_cases [OF dgraph_client.dgraph_users [OF assms(1)] assms(2,4)])
  case (3 j h y)
  note v = validated_input [OF 3(1)]
  have c: "Repository_Create dg (registered_user now uuid h j) db = (y, db')"
    using 3(3) by (simp add: dgraph_user_repo_def)
  have n: "usr_Email (registered_user now uuid h j) \<noteq> ''''" "usr_Nickname (registered_user now uuid h j) \<noteq> ''''"
    using v by (simp_all add: registered_user_def)
  show ?thesis
  proof (cases rule: dgraph_client.create_user_cases [OF assms(1,2) c n])
    case (1 x)
    have "\<not> taken (user_view (graph db)) (usr_Email (stored_user (registered_user now uuid h j)))
        (usr_Nickname (stored_user (registered_user now uuid h j)))"
      using 1(1) v(4) by (simp add: registered_user_def stored_user_def)
    then show ?thesis using unique_insert [OF assms(3)] 1(3,4) by simp
  next
    case 2
    then have "user_view (graph db') = user_view (graph db)" by simp
    then show ?thesis using assms(3) 3(4) by simp
  qed
qed (use assms in auto)

theorem register_keeps_unique_witness:
  "unique_users (user_view (mem_graph ex_udb))"
proof -
  obtain u z where r: "ex_register ''id1'' ''ada_l'' '' Ada@X.io'' [] = (Inr (u, z), ex_udb)"
    using ex_registered by blast
  have "unique_users (user_view (mem_graph []))" by (simp add: unique_users_def user_view_def user_typed_def mem_graph_def)
  from register_keeps_unique [OF mem.dgraph_client_axioms ex_uwf0 this r [unfolded ex_register_def ex_auth_def]]
  show ?thesis by simp
qed

section \<open>Profile management\<close>

text \<open>C34: \<open>UpdateUser\<close> is always refused for anyone but the owner, without touching the store. When it succeeds, exactly
  one stored user changes, the one with the given ID: only name, nickname, country and update time;
  its ID, email, password hash and activity stay. The user returned carries no password hash. A
  field set to the empty string is shown as empty but keeps its old value in the store.\<close>

theorem update_user_effect:
  assumes "dgraph_client dg graph" "wf_users (graph db)"
    and "Auth_UpdateUser \<lparr>as_repo = dgraph_user_repo dg, as_bcryptCost = c\<rparr> now caller target inp db db = (r, db')"
  shows "(caller \<noteq> target \<longrightarrow> r = Inl (Sentinel ErrUnauthorized) \<and> db' = db) \<and>
    (case r of
      Inr (u, z) \<Rightarrow> caller = target \<and> (\<exists>x old. user_view (graph db) x = Some old \<and> usr_ID old = target \<and>
        u = shown_user now inp old \<and> user_view (graph db') = (user_view (graph db))(x \<mapsto> updated_user now inp old) \<and>
        usr_PasswordHash (updated_user now inp old) = usr_PasswordHash old \<and>
        usr_Email (updated_user now inp old) = usr_Email old \<and> usr_Active (updated_user now inp old) = usr_Active old)
    | Inl e \<Rightarrow> foreign e \<or> db' = db \<and>
        (e = Sentinel ErrUnauthorized \<and> caller \<noteq> target \<or>
         errors_is e ErrUserNotFound \<and> (\<forall>x u. user_view (graph db) x = Some u \<longrightarrow> usr_ID u \<noteq> target \<or> target = '''')))"
proof (cases "caller = target")
  case False
  then show ?thesis using assms(3) by (auto simp: Auth_UpdateUser_def)
next
  case True
  note U = dgraph_client.dgraph_users [OF assms(1)]
  obtain y where y: "ur_Update (dgraph_user_repo dg) now target inp db db = (y, db')"
      "r = (case y of Inl e \<Rightarrow> Inl (Wrap ''update user'' e) | Inr uz \<Rightarrow> Inr uz)"
    using assms(3) True by (auto simp: Auth_UpdateUser_def split: prod.splits sum.splits)
  show ?thesis
  proof (cases y)
    case (Inl e)
    with y(1) user_repository.update_err [OF U assms(2), of now target inp e db'] y(2) True show ?thesis
      by auto
  next
    case (Inr uz)
    obtain u z where uz: "uz = (u, z)" by (cases uz)
    from user_repository.update_ok [OF U assms(2), of now target inp u z db'] y(1) Inr uz
    show ?thesis using y(2) Inr uz True by (auto simp: updated_user_def)
  qed
qed

definition ex_update :: "string \<Rightarrow> (User \<times> Zookie) res \<times> mem" where
  "ex_update caller = Auth_UpdateUser ex_auth (1100 * second) caller ''id1''
     \<lparr>uui_FirstName = Some '''', uui_LastName = Some ''K'', uui_Nickname = None, uui_Country = None\<rparr> ex_udb ex_udb"

theorem update_user_effect_witness:
  "\<exists>x u. user_view (mem_graph (snd (ex_update ''id1''))) x = Some u \<and> usr_ID u = ''id1'' \<and> usr_LastName u = ''K''"
proof -
  have "is_ok (fst (ex_update ''id1''))" by code_simp
  then obtain u z where u: "fst (ex_update ''id1'') = Inr (u, z)" by (auto simp: is_ok_def split: sum.splits)
  have "ex_update ''id1'' = (Inr (u, z), snd (ex_update ''id1''))" using u by (metis prod.collapse)
  from update_user_effect [OF mem.dgraph_client_axioms ex_uwf(1) this [unfolded ex_update_def ex_auth_def]]
  obtain x old where x: "usr_ID old = ''id1''" "user_view (mem_graph (snd (ex_update ''id1''))) = (user_view (mem_graph ex_udb))
      (x \<mapsto> updated_user (1100 * second) \<lparr>uui_FirstName = Some '''', uui_LastName = Some ''K'', uui_Nickname = None,
        uui_Country = None\<rparr> old)"
    by (auto simp: ex_update_def ex_auth_def)
  then show ?thesis by (auto simp: updated_user_def set_field_def)
qed

lemma not_unique: "U x = Some u \<Longrightarrow> U y = Some v \<Longrightarrow> usr_Nickname u = usr_Nickname v \<Longrightarrow> x \<noteq> y \<Longrightarrow> \<not> unique_users U"
  by (auto simp: unique_users_def)

text \<open>C35: \<open>UpdateUser\<close> checks neither the form nor the uniqueness of a nickname. Whatever nonempty nickname the
  owner of a stored account asks for, also one that registration refuses as malformed, the update is never
  refused (only the store can fail); when it succeeds the nickname is stored, and if another user has it, nicknames are
  no longer unique.\<close>

theorem update_breaks_unique:
  assumes "dgraph_client dg graph" "wf_users (graph db)"
    and "user_view (graph db) x = Some me" "usr_ID me \<noteq> ''''" "uui_Nickname inp = Some nick" "nick \<noteq> ''''"
    and "Auth_UpdateUser \<lparr>as_repo = dgraph_user_repo dg, as_bcryptCost = c\<rparr> now (usr_ID me) (usr_ID me) inp db db = (r, db')"
  shows "case r of
      Inl e \<Rightarrow> foreign e
    | Inr (u, z) \<Rightarrow> (\<exists>y v. user_view (graph db') y = Some v \<and> usr_ID v = usr_ID me \<and> usr_Nickname v = nick) \<and>
        ((\<exists>y v. user_view (graph db) y = Some v \<and> usr_Nickname v = nick \<and> usr_ID v \<noteq> usr_ID me) \<longrightarrow>
         \<not> unique_users (user_view (graph db')))"
proof -
  note U = dgraph_client.dgraph_users [OF assms(1)]
  obtain y where y: "ur_Update (dgraph_user_repo dg) now (usr_ID me) inp db db = (y, db')"
      "r = (case y of Inl e \<Rightarrow> Inl (Wrap ''update user'' e) | Inr uz \<Rightarrow> Inr uz)"
    using assms(7) by (auto simp: Auth_UpdateUser_def split: prod.splits sum.splits)
  show ?thesis
  proof (cases y)
    case (Inl e)
    then show ?thesis using user_repository.update_err [OF U assms(2) y(1) [unfolded Inl]] assms(3,4) y(2) by auto
  next
    case (Inr uz)
    obtain u z where uz: "uz = (u, z)" by (cases uz)
    obtain w old where w: "user_view (graph db) w = Some old" "usr_ID old = usr_ID me"
        "user_view (graph db') = (user_view (graph db))(w \<mapsto> updated_user now inp old)"
      using user_repository.update_ok [OF U assms(2) y(1) [unfolded Inr uz]] by auto
    let ?new = "updated_user now inp old"
    have new: "usr_ID ?new = usr_ID me" "usr_Nickname ?new = nick"
      using assms(5,6) w(2) by (simp_all add: updated_user_def set_field_def)
    have "\<not> unique_users (user_view (graph db'))"
      if v: "user_view (graph db) v = Some other" "usr_Nickname other = nick" "usr_ID other \<noteq> usr_ID me" for v other
    proof (rule not_unique [of _ w ?new v other])
      show "w \<noteq> v" using v(1,3) w(1,2) by auto
      then show "user_view (graph db') v = Some other" using v(1) w(3) by simp
    qed (use v new w(3) in simp_all)
    then show ?thesis using new w(3) y(2) Inr uz by (auto intro!: exI [of _ w])
  qed
qed

theorem update_breaks_unique_witness:
  "unique_users (user_view (mem_graph ex_udb2)) \<and>
   (\<exists>db'. Auth_UpdateUser ex_auth (1100 * second) ''id1'' ''id1''
      \<lparr>uui_FirstName = None, uui_LastName = None, uui_Nickname = Some ''bob_k'', uui_Country = None\<rparr> ex_udb2 ex_udb2 = db' \<and>
      is_ok (fst db') \<and> \<not> unique_users (user_view (mem_graph (snd db'))))"
proof -
  let ?inp = "\<lparr>uui_FirstName = None, uui_LastName = None, uui_Nickname = Some ''bob_k'', uui_Country = None\<rparr>"
  let ?R = "Auth_UpdateUser ex_auth (1100 * second) ''id1'' ''id1'' ?inp ex_udb2 ex_udb2"
  have ok: "is_ok (fst ?R)" by code_simp
  then obtain u z where "fst ?R = Inr (u, z)" by (auto simp: is_ok_def split: sum.splits)
  then have R: "?R = (Inr (u, z), snd ?R)" by (metis prod.collapse)
  have v: "user_view (mem_graph ex_udb2) x = (if x = ''0x1'' then user_view (mem_graph ex_udb2) ''0x1''
      else if x = ''0x2'' then user_view (mem_graph ex_udb2) ''0x2'' else None)" for x
    by (simp add: user_view_def user_typed_def mem_graph_def ex_udb2_def)
  have n: "map_option (\<lambda>u. (usr_Email u, usr_Nickname u)) (user_view (mem_graph ex_udb2) ''0x1'') = Some (''ada@x.io'', ''ada_l'')"
    "map_option (\<lambda>u. (usr_Email u, usr_Nickname u)) (user_view (mem_graph ex_udb2) ''0x2'') = Some (''bob@x.io'', ''bob_k'')"
    by code_simp+
  have uniq: "unique_users (user_view (mem_graph ex_udb2))"
    unfolding unique_users_def using n by (subst (1 2) v) (auto split: if_splits)
  have "map_option usr_ID (user_view (mem_graph ex_udb2) ''0x1'') = Some ''id1''"
    "map_option usr_ID (user_view (mem_graph ex_udb2) ''0x2'') = Some ''id2''" by code_simp+
  with n obtain me other where me: "user_view (mem_graph ex_udb2) ''0x1'' = Some me" "usr_ID me = ''id1''"
      and other: "user_view (mem_graph ex_udb2) ''0x2'' = Some other" "usr_ID other = ''id2''" "usr_Nickname other = ''bob_k''"
    by auto
  have "usr_ID me \<noteq> ''''" "''bob_k'' \<noteq> ''''" "uui_Nickname ?inp = Some ''bob_k''" by (simp_all add: me)
  from update_breaks_unique [OF mem.dgraph_client_axioms ex_uwf(2) me(1) this(1,3,2) R [unfolded ex_auth_def, folded me(2)]]
  have "\<not> unique_users (user_view (mem_graph (snd ?R)))" using other by (auto simp: me(2) ex_auth_def)
  with uniq ok show ?thesis by blast
qed

text \<open>\<open>DeleteUser\<close> is refused for anyone but the owner; when it succeeds, one node of that ID is gone and every
  other user is unchanged.\<close>

theorem delete_user_effect:
  assumes "dgraph_client dg graph" "wf_users (graph db)"
    and "Auth_DeleteUser \<lparr>as_repo = dgraph_user_repo dg, as_bcryptCost = c\<rparr> caller target db db = (r, db')"
  shows "(is_ok r \<longrightarrow> caller = target \<and> (\<exists>x old. user_view (graph db) x = Some old \<and> usr_ID old = target \<and>
      user_view (graph db') = (user_view (graph db))(x := None))) \<and>
    (caller \<noteq> target \<longrightarrow> r = Inl (Sentinel ErrUnauthorized) \<and> db' = db)"
proof (cases "caller = target")
  case False
  then show ?thesis using assms(3) by (auto simp: Auth_DeleteUser_def)
next
  case True
  note U = dgraph_client.dgraph_users [OF assms(1)]
  obtain y where y: "ur_Delete (dgraph_user_repo dg) target db db = (y, db')" "is_ok r = is_ok y"
    using assms(3) True by (auto simp: Auth_DeleteUser_def split: prod.splits sum.splits)
  then show ?thesis using True user_repository.delete_ok [OF U assms(2)] by (cases y) auto
qed

theorem delete_user_effect_witness:
  "user_view (mem_graph (snd (Auth_DeleteUser ex_auth ''id1'' ''id1'' ex_udb ex_udb))) ''0x1'' = None"
proof -
  let ?R = "Auth_DeleteUser ex_auth ''id1'' ''id1'' ex_udb ex_udb"
  have ok: "is_ok (fst ?R)" by code_simp
  from delete_user_effect [OF mem.dgraph_client_axioms ex_uwf(1), where c = 12 and caller = "''id1''" and
      target = "''id1''" and r = "fst ?R" and db' = "snd ?R"] ok
  obtain x old where x: "user_view (mem_graph ex_udb) x = Some old"
      "user_view (mem_graph (snd ?R)) = (user_view (mem_graph ex_udb))(x := None)"
    by (auto simp: ex_auth_def)
  have "x = ''0x1''" using x(1) by (simp add: user_view_def user_typed_def mem_graph_def ex_udb_def split: if_splits)
  then show ?thesis using x(2) by simp
qed

text \<open>With a zookie, \<open>GetUser\<close> returns exactly an active stored user with the ID asked for; an inactive user and
  an unknown ID give the same answer.\<close>

theorem get_user_outcome:
  assumes "dgraph_client dg graph" "wf_users (graph db)"
  shows "case Auth_GetUser \<lparr>as_repo = dgraph_user_repo dg, as_bcryptCost = c\<rparr> i (Some z) db of
      Inr u \<Rightarrow> usr_Active u \<and> usr_ID u = i \<and> (\<exists>x. user_view (graph db) x = Some u)
    | Inl e \<Rightarrow> foreign e \<or> errors_is e ErrUserNotFound"
proof -
  note U = dgraph_client.dgraph_users [OF assms(1)]
  show ?thesis
  proof (cases "ur_GetByID (dgraph_user_repo dg) i (Some z) db")
    case (Inl e)
    with user_repository.by_id_err [OF U assms(2) Inl] show ?thesis by (auto simp: Auth_GetUser_def)
  next
    case (Inr u)
    then show ?thesis using user_repository.by_id_ok [OF U assms(2) Inr] by (auto simp: Auth_GetUser_def)
  qed
qed

theorem get_user_outcome_witness:
  "\<exists>u x. user_view (mem_graph ex_udb) x = Some u \<and> usr_ID u = ''id1''"
proof -
  have "is_ok (Auth_GetUser ex_auth ''id1'' StrongRead ex_udb)" by code_simp
  then obtain u where "Auth_GetUser ex_auth ''id1'' (Some zero_zookie) ex_udb = Inr u"
    by (auto simp: is_ok_def StrongRead_def split: sum.splits)
  with get_user_outcome [OF mem.dgraph_client_axioms ex_uwf(1), where c = 12 and i = "''id1''" and z = zero_zookie]
  show ?thesis by (auto simp: ex_auth_def)
qed

text \<open>C31: With a zookie, \<open>ListUsers\<close> (page numbers small enough not to overflow) returns a page of the active users
  of the country asked for: there is an order of exactly these users, each once, of which the result is the
  slice for the page number and the clamped page size (1..100), every user as stored but without the
  password hash. The total is their number, the page is as long as the total allows, and the number of pages
  is the rounded-up quotient and at least 1.\<close>

theorem list_users_page:
  assumes "dgraph_client dg graph" "wf_users (graph db)" "lf_Page f * 100 < 2 ^ 63"
    and "Auth_ListUsers \<lparr>as_repo = dgraph_user_repo dg, as_bcryptCost = c\<rparr> f (Some z) db = Inr l"
  shows "let n = ListFilter_Normalise f; U = user_view (graph db); total = int (card (listed f U)) in
    (\<exists>xs. distinct xs \<and> set xs = listed f U \<and>
       lr_Users l = map (\<lambda>x. (the (U x))\<lparr>usr_PasswordHash := ''''\<rparr>)
         (take (nat (lf_PageSize n)) (drop (nat ((max 1 (lf_Page f) - 1) * lf_PageSize n)) xs))) \<and>
    1 \<le> lf_PageSize n \<and> lf_PageSize n \<le> 100 \<and>
    (1 \<le> lf_PageSize f \<and> lf_PageSize f \<le> 100 \<longrightarrow> lf_PageSize n = lf_PageSize f) \<and>
    lr_Page l = max 1 (lf_Page f) \<and> lr_Total l = total \<and>
    int (length (lr_Users l)) = max 0 (min (lf_PageSize n) (total - (lf_Page n - 1) * lf_PageSize n)) \<and>
    total \<le> lr_Pages l * lf_PageSize n \<and>
    (lr_Pages l = 1 \<or> 1 < lr_Pages l \<and> (lr_Pages l - 1) * lf_PageSize n < total) \<and>
    (\<forall>u \<in> set (lr_Users l). usr_Active u \<and> usr_PasswordHash u = '''' \<and>
       (lf_Country f = '''' \<or> usr_Country u = lf_Country f))"
proof -
  let ?n = "ListFilter_Normalise f"
  note U = dgraph_client.dgraph_users [OF assms(1)]
  note rg = Normalise_range [of f]
  have p: "lf_Page ?n = max 1 (lf_Page f)" by (auto simp: ListFilter_Normalise_def Let_def)
  have "lf_PageSize ?n * lf_Page ?n \<le> 100 * lf_Page ?n" using rg by (intro mult_right_mono) auto
  also have "\<dots> < 2 ^ 63" using assms(3) by (simp add: p max_def)
  finally have b: "lf_PageSize ?n * lf_Page ?n < 2 ^ 63" .
  have l: "ur_List (dgraph_user_repo dg) ?n (Some z) db = Inr l"
    using assms(4) by (auto simp: Auth_ListUsers_def split: sum.splits)
  from user_repository.list_ok [OF U assms(2) b rg(1,2,3) l] obtain xs where
    xs: "enumerates xs ?n (user_view (graph db))" "lr_Users l = page_of ?n (user_view (graph db)) xs"
    and r: "lr_Page l = lf_Page ?n" "lr_Total l = int (length xs)" "lr_Total l \<le> lr_Pages l * lf_PageSize ?n"
      "lr_Pages l = 1 \<or> 1 < lr_Pages l \<and> (lr_Pages l - 1) * lf_PageSize ?n < lr_Total l" by blast
  have same: "listed ?n U = listed f U" for U by (simp add: listed_def rg)
  have e: "distinct xs" "set xs = listed f (user_view (graph db))" using xs(1) by (simp_all add: enumerates_def same)
  have "usr_Active u \<and> usr_PasswordHash u = '''' \<and> (lf_Country f = '''' \<or> usr_Country u = lf_Country f)"
    if u: "u \<in> set (lr_Users l)" for u
  proof -
    obtain x where x: "x \<in> set xs" "u = (the (user_view (graph db) x))\<lparr>usr_PasswordHash := ''''\<rparr>"
      using u unfolding xs(2) page_of_def set_map by (blast dest: in_set_dropD in_set_takeD)
    then show ?thesis using x(1) unfolding e(2) by (auto simp: listed_def)
  qed
  then have "\<forall>u \<in> set (lr_Users l). usr_Active u \<and> usr_PasswordHash u = '''' \<and> (lf_Country f = '''' \<or> usr_Country u = lf_Country f)"
    by blast
  moreover have "1 \<le> lf_PageSize f \<and> lf_PageSize f \<le> 100 \<longrightarrow> lf_PageSize ?n = lf_PageSize f"
    by (simp add: ListFilter_Normalise_def Let_def)
  moreover have "\<exists>xs. distinct xs \<and> set xs = listed f (user_view (graph db)) \<and>
      lr_Users l = map (\<lambda>x. (the (user_view (graph db) x))\<lparr>usr_PasswordHash := ''''\<rparr>)
        (take (nat (lf_PageSize ?n)) (drop (nat ((max 1 (lf_Page f) - 1) * lf_PageSize ?n)) xs))"
    using e xs(2) by (intro exI [of _ xs]) (simp add: page_of_def p)
  moreover have t: "lr_Total l = int (card (listed f (user_view (graph db))))"
    using enumerates_card [OF xs(1)] by (simp only: r(2) same)
  moreover have "int (length (lr_Users l)) = max 0 (min (lf_PageSize ?n) (lr_Total l - (lf_Page ?n - 1) * lf_PageSize ?n))"
    unfolding xs(2) r(2) by (rule length_page_of [OF rg(1,2)])
  ultimately show ?thesis
    using r(3,4) rg(2,3) r(1) [unfolded p] unfolding Let_def by (intro conjI) (simp_all only: t)
qed

theorem list_users_page_witness:
  "\<exists>l. Auth_ListUsers ex_auth \<lparr>lf_Country = '''', lf_Page = 0, lf_PageSize = 1\<rparr> StrongRead ex_udb2 = Inr l \<and>
     length (lr_Users l) \<le> 1 \<and> lr_Page l = 1"
proof -
  let ?f = "\<lparr>lf_Country = '''', lf_Page = 0, lf_PageSize = 1\<rparr>"
  have "is_ok (Auth_ListUsers ex_auth ?f StrongRead ex_udb2)" by code_simp
  then obtain l where l: "Auth_ListUsers ex_auth ?f (Some zero_zookie) ex_udb2 = Inr l"
    by (auto simp: is_ok_def StrongRead_def split: sum.splits)
  have n: "ListFilter_Normalise ?f = \<lparr>lf_Country = '''', lf_Page = 1, lf_PageSize = 1\<rparr>" by code_simp
  from list_users_page [OF mem.dgraph_client_axioms ex_uwf(2) _ l [unfolded ex_auth_def]] n
  have "int (length (lr_Users l)) = max 0 (min 1 (int (card (listed ?f (user_view (mem_graph ex_udb2))))))" "lr_Page l = 1"
    by (simp_all add: Let_def)
  then have "int (length (lr_Users l)) \<le> 1" "lr_Page l = 1" by linarith+
  then show ?thesis using l by (auto simp: StrongRead_def)
qed

end
