(* ===== verification/Service_Auth.thy ===== *)
theory Service_Auth
  imports Dgraph_Service_Account_Laws Auth_Theorems
begin

text \<open>
  \<^verbatim>\<open>internal/service/service_auth.go\<close>: machine identities, their credentials and their deactivation, over
  any store of service accounts, with the properties of the service on the Dgraph repository.
  \<open>ServiceAuth_Login\<close> returns the hashes it compared the secret with next to its result.
\<close>

section \<open>Operations\<close>

record 'db ServiceAuthService =
  sas_repo :: "'db service_account_repo"
  sas_bcryptCost :: int

definition NewServiceAuth :: "'db service_account_repo \<Rightarrow> int \<Rightarrow> 'db ServiceAuthService option" where
  "NewServiceAuth repo bcryptCost =
     (if bcryptCost < bcryptFloor then None else Some \<lparr>sas_repo = repo, sas_bcryptCost = bcryptCost\<rparr>)"

definition new_account :: "int \<Rightarrow> string \<Rightarrow> string \<Rightarrow> CreateServiceAccountInput \<Rightarrow> ServiceAccount" where
  "new_account now uuid hash input =
     \<lparr>sa_ID = uuid, sa_ClientID = csi_ClientID input, sa_Name = csi_Name input, sa_SecretHash = hash,
      sa_ActorType = csi_ActorType input, sa_Permissions = csi_Permissions input, sa_Active = True,
      sa_CreatedAt = now, sa_UpdatedAt = now\<rparr>"

definition ServiceAuth_CreateServiceAccount ::
  "'db ServiceAuthService \<Rightarrow> bcrypt \<Rightarrow> string \<Rightarrow> int \<Rightarrow> string \<Rightarrow> CreateServiceAccountInput \<Rightarrow> 'db \<Rightarrow>
   (ServiceAccount \<times> Zookie) res \<times> 'db" where
  "ServiceAuth_CreateServiceAccount sv bc salt now uuid input db =
     (case CreateServiceAccountInput_Validate input of
        Some e \<Rightarrow> (Inl (Wrap ''create service account'' e), db)
      | None \<Rightarrow>
          (case bc_GenerateFromPassword bc salt (csi_ClientSecret input) (sas_bcryptCost sv) of
             Inl e \<Rightarrow> (Inl (Wrap ''create service account: hash secret'' e), db)
           | Inr hash \<Rightarrow>
               (let sa = new_account now uuid hash input in
                case sar_CreateServiceAccount (sas_repo sv) sa db of
                  (Inl e, db') \<Rightarrow> (Inl (Wrap ''create service account'' e), db')
                | (Inr zookie, db') \<Rightarrow> (Inr (sa, zookie), db'))))"

definition ServiceAuth_Login ::
  "'db ServiceAuthService \<Rightarrow> bcrypt \<Rightarrow> ServiceLoginInput \<Rightarrow> 'db \<Rightarrow> ServiceAccount res \<times> string list" where
  "ServiceAuth_Login sv bc input db =
     (case ServiceLoginInput_Validate input of
        Some e \<Rightarrow> (Inl (Wrap ''service login'' e), [])
      | None \<Rightarrow>
          (case sar_GetByClientID (sas_repo sv) (sli_ClientID input) StrongRead db of
             Inl e \<Rightarrow> (Inl (Sentinel ErrInvalidCredentials), [dummyHash])
           | Inr sa \<Rightarrow>
               (if \<not> bc_Compare bc (sa_SecretHash sa) (sli_ClientSecret input)
                then (Inl (Sentinel ErrInvalidCredentials), [sa_SecretHash sa])
                else if \<not> sa_Active sa then (Inl (Sentinel ErrUnauthorized), [sa_SecretHash sa])
                else (Inr sa, [sa_SecretHash sa]))))"

definition ServiceAuth_DeactivateServiceAccount ::
  "'db ServiceAuthService \<Rightarrow> int \<Rightarrow> string \<Rightarrow> 'db \<Rightarrow> 'db \<Rightarrow> Zookie res \<times> 'db" where
  "ServiceAuth_DeactivateServiceAccount sv now clientID seen db =
     (case sar_Deactivate (sas_repo sv) now clientID seen db of
        (Inl e, db') \<Rightarrow> (Inl (Wrap ''deactivate service account'' e), db')
      | (Inr z, db') \<Rightarrow> (Inr z, db'))"

section \<open>Over any store of accounts\<close>

lemma account_input:
  assumes "CreateServiceAccountInput_Validate i = None"
  shows "csi_ClientID i \<noteq> ''''" "csi_ClientSecret i \<noteq> ''''" "32 \<le> length (csi_ClientSecret i)"
    "length (csi_ClientID i) \<le> 64" "ActorType_IsValid (csi_ActorType i)"
  using assms by (auto simp: CreateServiceAccountInput_Validate_def split: if_splits)

context service_account_repository
begin

lemma create_account_ok:
  assumes "inv db"
    and "ServiceAuth_CreateServiceAccount \<lparr>sas_repo = repo, sas_bcryptCost = c\<rparr> bc salt now uuid i db = (Inr (a, z), db')"
  obtains h x b where "CreateServiceAccountInput_Validate i = None" "bc_GenerateFromPassword bc salt (csi_ClientSecret i) c = Inr h"
    "a = new_account now uuid h i" "\<not> client_taken (accounts db) (csi_ClientID i)"
    "same_account b (stored_account a)" "accounts db' = (accounts db)(x \<mapsto> b)" "inv db'"
proof -
  from assms(2) obtain h y where h: "CreateServiceAccountInput_Validate i = None"
      "bc_GenerateFromPassword bc salt (csi_ClientSecret i) c = Inr h" "a = new_account now uuid h i"
      "sar_CreateServiceAccount repo a db = (Inr y, db')"
    by (auto simp: ServiceAuth_CreateServiceAccount_def Let_def split: option.splits sum.splits prod.splits)
  have "sa_ClientID a = csi_ClientID i" by (simp add: h(3) new_account_def)
  with account_input(1) [OF h(1)] create_ok [OF assms(1) h(4)] create_inv [OF assms(1) h(4)] h show ?thesis
    using that by auto
qed

lemma found_account:
  assumes "inv db" "sar_GetByClientID repo c StrongRead db = Inr a"
  shows "sa_ClientID a = c" "\<exists>x. accounts db x = Some a"
  using get_ok [OF assms(1)] assms(2) by (auto simp: StrongRead_def)

end

section \<open>Runs on the in-memory store\<close>

definition ex_accounts :: "mem ServiceAuthService" where
  "ex_accounts = \<lparr>sas_repo = dgraph_service_account_repo bare_bind mem_dgraph, sas_bcryptCost = 12\<rparr>"

definition ex_secret :: string where
  "ex_secret = ''0123456789abcdef0123456789abcdef''"

definition ex_account_in :: CreateServiceAccountInput where
  "ex_account_in = \<lparr>csi_ClientID = ''inv'', csi_Name = ''inventory'', csi_ClientSecret = ex_secret,
     csi_ActorType = ''DISPATCHER'', csi_Permissions = [''a'', ''b'']\<rparr>"

definition ex_sanode :: "bool \<Rightarrow> (pred \<times> val list) list" where
  "ex_sanode act =
     [(DgraphType, [VStr ''ServiceAccount'']), (SA_id, [VStr ''s1'']), (SA_client_id, [VStr ''inv'']),
      (SA_name, [VStr ''inventory'']), (SA_secret_hash, [VStr (''$2a$'' @ ex_secret)]),
      (SA_actor_type, [VStr ''DISPATCHER'']), (SA_permissions, [VStr ''a'', VStr ''b'']),
      (SA_active, [VBool act]), (SA_created_at, [VTime 1000]), (SA_updated_at, [VTime 1000])]"

definition ex_sadb :: mem where
  "ex_sadb = [(''0x1'', ex_sanode True)]"

definition ex_create_account :: "mem \<Rightarrow> (ServiceAccount \<times> Zookie) res \<times> mem" where
  "ex_create_account db = ServiceAuth_CreateServiceAccount ex_accounts ex_bcrypt ''s'' (1000 * second) ''s1'' ex_account_in db"

lemma ex_wf_accounts0: "wf_accounts (mem_graph [])"
  by (simp add: wf_accounts_def wf_sa_node_def sa_typed_def mem_graph_def)

lemma ex_wf_accounts: "wf_accounts (mem_graph ex_sadb)"
  by (auto simp: wf_accounts_def wf_sa_node_def sa_typed_def mem_graph_def ex_sadb_def ex_sanode_def node_of_def
      opt_str_def)

section \<open>Properties\<close>

text \<open>Once an account has been created (which takes a server that lets the variable of the repository pass), \<open>Login\<close>
  with the secret given then returns the account as stored (up to the arrangement of its permissions), unless the
  store cannot be read.\<close>

theorem created_account_logs_in:
  assumes "dgraph_client dg graph" "faithful_vars bind" "wf_accounts (graph db)" "bcrypt_lib bc"
    and "ServiceAuth_CreateServiceAccount \<lparr>sas_repo = dgraph_service_account_repo bind dg, sas_bcryptCost = c\<rparr>
      bc salt now uuid i db = (Inr (a, z), db')"
    and "is_ok (SA_GetByClientID bind dg (csi_ClientID i) StrongRead db')"
  shows "\<exists>b. fst (ServiceAuth_Login \<lparr>sas_repo = dgraph_service_account_repo bind dg, sas_bcryptCost = c\<rparr> bc
      \<lparr>sli_ClientID = csi_ClientID i, sli_ClientSecret = csi_ClientSecret i\<rparr> db') = Inr b \<and>
    same_account b (stored_account a)"
proof -
  note A = dgraph_accounts [OF assms(1,2)]
  obtain h x b where r: "CreateServiceAccountInput_Validate i = None"
      "bc_GenerateFromPassword bc salt (csi_ClientSecret i) c = Inr h" "a = new_account now uuid h i"
      "\<not> client_taken (account_view (graph db)) (csi_ClientID i)" "same_account b (stored_account a)"
      "account_view (graph db') = (account_view (graph db))(x \<mapsto> b)" "wf_accounts (graph db')"
    by (rule service_account_repository.create_account_ok [OF A assms(3,5)])
  obtain w where w: "sar_GetByClientID (dgraph_service_account_repo bind dg) (csi_ClientID i) StrongRead db' = Inr w"
    using assms(6) by (auto simp: dgraph_service_account_repo_def is_ok_def split: sum.splits)
  have "w = b"
    using service_account_repository.found_account [OF A r(7) w] r(4,6)
    by (auto simp: client_taken_def split: if_splits)
  moreover have "sa_SecretHash b = h" "sa_Active b"
    using same_accountD [OF r(5)] by (simp_all add: r(3) stored_account_def new_account_def)
  moreover have "bc_Compare bc h (csi_ClientSecret i)"
    using bcrypt_lib.generated_compares [OF assms(4) r(2)] .
  moreover have "ServiceLoginInput_Validate \<lparr>sli_ClientID = csi_ClientID i, sli_ClientSecret = csi_ClientSecret i\<rparr> = None"
    using account_input [OF r(1)] by (simp add: ServiceLoginInput_Validate_def)
  ultimately show ?thesis using w r(5) by (simp add: ServiceAuth_Login_def)
qed

theorem created_account_logs_in_witness:
  "\<exists>b. fst (ServiceAuth_Login ex_accounts ex_bcrypt \<lparr>sli_ClientID = ''inv'', sli_ClientSecret = ex_secret\<rparr> ex_sadb) = Inr b \<and>
     sa_Name b = ''inventory''"
proof -
  have d: "snd (ex_create_account []) = ex_sadb" by code_simp
  have "is_ok (fst (ex_create_account []))" by code_simp
  then obtain a z where r: "ex_create_account [] = (Inr (a, z), ex_sadb)"
    using d by (cases "ex_create_account []") (auto simp: is_ok_def split: sum.splits)
  have "case fst (ex_create_account []) of Inr (a, z) \<Rightarrow> sa_Name a = ''inventory'' | Inl e \<Rightarrow> False" by code_simp
  then have a: "sa_Name a = ''inventory''" by (simp add: r)
  have "is_ok (SA_GetByClientID bare_bind mem_dgraph (csi_ClientID ex_account_in) StrongRead ex_sadb)" by code_simp
  from created_account_logs_in [OF mem.dgraph_client_axioms bare_bind_faithful ex_wf_accounts0 ex_bc.bcrypt_lib_axioms
      r [unfolded ex_create_account_def ex_accounts_def] this] a
  show ?thesis by (auto simp: ex_accounts_def ex_account_in_def stored_account_def dest: same_accountD)
qed

text \<open>Once \<open>DeactivateServiceAccount\<close> has succeeded, no login with that client ID succeeds, whatever the secret
  (client IDs being unique in the store, which creation guarantees).\<close>

theorem deactivated_account_locked_out:
  assumes "dgraph_client dg graph" "faithful_vars bind" "wf_accounts (graph db)" "unique_clients (account_view (graph db))"
    and "ServiceAuth_DeactivateServiceAccount \<lparr>sas_repo = dgraph_service_account_repo bind dg, sas_bcryptCost = c\<rparr>
      now cid db db = (Inr z, db')"
  shows "\<not> is_ok (fst (ServiceAuth_Login \<lparr>sas_repo = dgraph_service_account_repo bind dg, sas_bcryptCost = c\<rparr> bc
      \<lparr>sli_ClientID = cid, sli_ClientSecret = pw\<rparr> db'))"
proof -
  note A = dgraph_accounts [OF assms(1,2)]
  let ?repo = "dgraph_service_account_repo bind dg"
  obtain z' where d: "sar_Deactivate ?repo now cid db db = (Inr z', db')"
    using assms(5) by (auto simp: ServiceAuth_DeactivateServiceAccount_def split: prod.splits sum.splits)
  obtain x a where x: "account_view (graph db) x = Some a" "sa_ClientID a = cid"
      "account_view (graph db') = (account_view (graph db))(x \<mapsto> deactivated now a)"
    using service_account_repository.deactivate_ok [OF A assms(3) d] by auto
  note w = service_account_repository.deactivate_inv [OF A assms(3) d]
  have "\<not> sa_Active b" if g: "sar_GetByClientID ?repo cid StrongRead db' = Inr b" for b
  proof -
    obtain y where y: "sa_ClientID b = cid" "account_view (graph db') y = Some b"
      using service_account_repository.found_account [OF A w g] by auto
    have "y = x"
      using y x assms(4) by (auto simp: unique_clients_def split: if_splits) 
    then show ?thesis using x(3) y(2) by (auto simp: deactivated_def)
  qed
  then show ?thesis by (auto simp: ServiceAuth_Login_def split: option.splits sum.splits)
qed

theorem deactivated_account_locked_out_witness:
  "\<not> is_ok (fst (ServiceAuth_Login ex_accounts ex_bcrypt \<lparr>sli_ClientID = ''inv'', sli_ClientSecret = ex_secret\<rparr>
     (snd (ServiceAuth_DeactivateServiceAccount ex_accounts (2000 * second) ''inv'' ex_sadb ex_sadb))))"
proof -
  let ?d = "ServiceAuth_DeactivateServiceAccount ex_accounts (2000 * second) ''inv'' ex_sadb ex_sadb"
  have "is_ok (fst ?d)" by code_simp
  then obtain z where "?d = (Inr z, snd ?d)" by (cases ?d) (auto simp: is_ok_def split: sum.splits)
  moreover have "unique_clients (account_view (mem_graph ex_sadb))"
    by (auto simp: unique_clients_def account_view_def sa_typed_def mem_graph_def ex_sadb_def split: if_splits)
  ultimately show ?thesis
    using deactivated_account_locked_out [OF mem.dgraph_client_axioms bare_bind_faithful ex_wf_accounts]
    by (simp add: ex_accounts_def)
qed

text \<open>C36: With a server that treats query variables as documented (a variable that is given must be
  declared) no service account operation works: the repository sends \<open>clientID\<close> where the query says
  \<open>$clientID\<close>. Every well-formed login is refused as invalid credentials, after one comparison with the
  dummy hash; no account can be created or deactivated, and the store is never touched.\<close>

theorem documented_server_rejects_service_accounts:
  assumes "declared_vars bind"
  shows "(ServiceLoginInput_Validate l = None \<longrightarrow>
      ServiceAuth_Login \<lparr>sas_repo = dgraph_service_account_repo bind dg, sas_bcryptCost = c\<rparr> bc l db =
        (Inl (Sentinel ErrInvalidCredentials), [dummyHash])) \<and>
    (case ServiceAuth_CreateServiceAccount \<lparr>sas_repo = dgraph_service_account_repo bind dg, sas_bcryptCost = c\<rparr>
        bc salt now uuid i db of (r, db') \<Rightarrow> \<not> is_ok r \<and> db' = db) \<and>
    (case ServiceAuth_DeactivateServiceAccount \<lparr>sas_repo = dgraph_service_account_repo bind dg, sas_bcryptCost = c\<rparr>
        now cid seen db of (r, db') \<Rightarrow> store_error r \<and> db' = db)"
proof -
  have "\<exists>e. bind [''$clientID''] [(''clientID'', x)] = Inl e \<and> foreign e" for x
    using assms unfolding declared_vars_def by simp
  moreover have "\<exists>e. bind [] [(''clientID'', x)] = Inl e \<and> foreign e" for x
    using assms unfolding declared_vars_def by simp
  ultimately obtain E F where
    b: "\<And>x. bind [''$clientID''] [(''clientID'', x)] = Inl (E x)" "\<And>x. foreign (E x)"
      "\<And>x. bind [] [(''clientID'', x)] = Inl (F x)"
    by metis
  show ?thesis
    by (simp add: ServiceAuth_Login_def ServiceAuth_CreateServiceAccount_def ServiceAuth_DeactivateServiceAccount_def
        dgraph_service_account_repo_def SA_GetByClientID_def SA_CreateServiceAccount_def SA_Deactivate_def
        QueryWithVars_def DoWithVars_def b Let_def split: option.splits sum.splits)
qed

theorem documented_server_rejects_service_accounts_witness:
  "ServiceAuth_Login \<lparr>sas_repo = dgraph_service_account_repo strict_bind mem_dgraph, sas_bcryptCost = 12\<rparr> ex_bcrypt
     \<lparr>sli_ClientID = ''inv'', sli_ClientSecret = ex_secret\<rparr> ex_sadb =
     (Inl (Sentinel ErrInvalidCredentials), [dummyHash])"
proof -
  have "ServiceLoginInput_Validate \<lparr>sli_ClientID = ''inv'', sli_ClientSecret = ex_secret\<rparr> = None" by code_simp
  then show ?thesis by (rule mp [OF conjunct1 [OF documented_server_rejects_service_accounts [OF strict_bind_declared]]])
qed

end
