(* ===== verification/Vault.thy ===== *)
theory Vault
  imports Json Opaque_Token
begin

text \<open>
  \<^verbatim>\<open>internal/vault/transit.go\<close>: the two signers of JWTs. Vault and the JWT library are not part of the
  repository. Vault is an argument \<open>vw\<close> (a write to a path with some data), with the documented behaviour
  of its Transit engine in the locale \<open>transit_engine\<close>; the JWT library is a record \<open>jwtlib\<close> of the
  three functions the signers call, with its documentation in the locale \<open>jwt_library\<close>. JSON and
  base64 belong to Go's standard library and are modelled in \<^verbatim>\<open>Json\<close> and \<^verbatim>\<open>Encoding\<close>.

  The contract of a signer is the locale \<open>signer\<close>; both signers are shown to meet it (\<open>hmac_meets\<close>,
  \<open>transit_meets\<close>), the Transit signer only while the first version of the key is the latest one.
\<close>

section \<open>Padded base64\<close>

definition pad :: "string \<Rightarrow> string" where
  "pad s = replicate ((3 - length s mod 3) mod 3) (CHR ''='')"

definition to_std :: "char \<Rightarrow> char" where
  "to_std c = (if c = CHR ''-'' then CHR ''+'' else if c = CHR ''_'' then CHR ''/'' else c)"

definition from_std :: "char \<Rightarrow> char" where \<comment> \<open>symbols that are not of the standard alphabet become invalid\<close>
  "from_std c =
     (if c = CHR ''+'' then CHR ''-'' else if c = CHR ''/'' then CHR ''_''
      else if c = CHR ''-'' \<or> c = CHR ''_'' then CHR ''='' else c)"

definition std_encode :: "string \<Rightarrow> string" where \<comment> \<open>\<open>base64.StdEncoding.EncodeToString\<close>\<close>
  "std_encode s = map to_std (b64_encode s) @ pad s"

definition url_encode :: "string \<Rightarrow> string" where \<comment> \<open>\<open>base64.URLEncoding.EncodeToString\<close>\<close>
  "url_encode s = b64_encode s @ pad s"

definition strip_pad :: "string \<Rightarrow> string" where
  "strip_pad t =
     (if t \<noteq> [] \<and> last t = CHR ''=''
      then (let u = butlast t in if u \<noteq> [] \<and> last u = CHR ''='' then butlast u else u)
      else t)"

definition std_decode :: "string \<Rightarrow> string option" where
  "std_decode t = (if length t mod 4 \<noteq> 0 then None else b64_decode (map from_std (strip_pad t)))"

lemma b64_chars: "c \<in> set (b64_encode s) \<Longrightarrow> c \<in> set b64_alphabet"
proof (induction s rule: b64_encode.induct)
  case (2 a)
  have "byte a * 16 div 64 < 64" using byte_less [of a] by (simp add: less_mult_imp_div_less)
  with 2 show ?case by (auto simp: Let_def b64_char_def b64_alphabet_facts)
next
  case (3 a b)
  have "(byte a * 256 + byte b) * 4 div 4096 < 64" by (rule octets2, (rule byte_less)+)
  with 3 show ?case by (auto simp: Let_def b64_char_def b64_alphabet_facts)
next
  case (4 a b c rest)
  have "(byte a * 65536 + byte b * 256 + byte c) div 262144 < 64" by (rule octets3, (rule byte_less)+)
  with 4 show ?case by (auto simp: Let_def b64_char_def b64_alphabet_facts)
qed simp

lemma b64_no: "CHR ''='' \<notin> set (b64_encode s)" "CHR ''.'' \<notin> set (b64_encode s)" "CHR '':'' \<notin> set (b64_encode s)"
  by (rule notI, drule b64_chars, simp add: b64_alphabet_def)+

lemma length_b64_mod: "length (b64_encode s) mod 4 = (if length s mod 3 = 0 then 0 else Suc (length s mod 3))"
  by (induction s rule: b64_encode.induct) (auto simp: Let_def mod_Suc)

lemma from_to_std: "c \<in> set b64_alphabet \<Longrightarrow> from_std (to_std c) = c"
  by (auto simp: b64_alphabet_def from_std_def to_std_def)

lemma std_round_trip: "std_decode (std_encode s) = Some s"
proof -
  let ?e = "map to_std (b64_encode s)"
  have m: "map from_std ?e = b64_encode s"
    using b64_chars [of _ s] by (auto simp: from_to_std intro: map_idI)
  have no: "CHR ''='' \<notin> set ?e"
    using b64_chars [of _ s] by (auto simp: b64_alphabet_def to_std_def)
  have "length s mod 3 = 0 \<or> length s mod 3 = 1 \<or> length s mod 3 = 2" by linarith
  then have "strip_pad (?e @ pad s) = ?e \<and> length (?e @ pad s) mod 4 = 0"
  proof (elim disjE)
    assume z: "length s mod 3 = 0"
    then have "length (b64_encode s) mod 4 = 0" by (simp add: length_b64_mod)
    moreover have "?e \<noteq> [] \<longrightarrow> last ?e \<noteq> CHR ''=''" using no last_in_set by metis
    ultimately show ?thesis using z by (auto simp: pad_def strip_pad_def)
  next
    assume z: "length s mod 3 = 1"
    then have "pad s = [CHR ''='', CHR ''='']" by (simp add: pad_def numeral_2_eq_2)
    moreover have "(length (b64_encode s) + 2) mod 4 = 0" using z length_b64_mod [of s] by presburger
    ultimately show ?thesis by (simp add: strip_pad_def Let_def butlast_append)
  next
    assume z: "length s mod 3 = 2"
    then have "pad s = [CHR ''='']" by (simp add: pad_def)
    moreover have "(length (b64_encode s) + 1) mod 4 = 0" using z length_b64_mod [of s] by presburger
    moreover have "?e \<noteq> [] \<longrightarrow> last ?e \<noteq> CHR ''=''" using no last_in_set by metis
    ultimately show ?thesis by (auto simp: strip_pad_def Let_def butlast_append)
  qed
  then show ?thesis using m by (simp add: std_decode_def std_encode_def b64_round_trip)
qed

lemma std_no_colon: "CHR '':'' \<notin> set (std_encode s)"
  using b64_chars [of _ s] by (auto simp: std_encode_def pad_def b64_alphabet_def to_std_def)

section \<open>The JWT library\<close>

datatype signing_method = HMAC string | OtherMethod string

datatype token_claims = MapClaims "(string \<times> json) list" | OtherClaims

record jwt_token =
  tk_Raw :: string
  tk_Claims :: token_claims
  tk_Valid :: bool

record jwtlib =
  jwt_SignedString :: "string \<Rightarrow> json \<Rightarrow> string res" \<comment> \<open>key, claims; HS256\<close>
  jwt_Parse :: "(signing_method \<Rightarrow> string res) \<Rightarrow> string list \<Rightarrow> string \<Rightarrow> int \<Rightarrow> string \<Rightarrow> jwt_token res"
    \<comment> \<open>key function, \<open>WithValidMethods\<close>, \<open>WithIssuer\<close>, time, token; \<open>WithIssuedAt\<close> is on\<close>
  jwt_Validate :: "string \<Rightarrow> int \<Rightarrow> (string \<times> json) list \<Rightarrow> goerr option"
    \<comment> \<open>\<open>NewValidator(WithIssuedAt(), WithIssuer(iss)).Validate(claims)\<close>\<close>

text \<open>\<^verbatim>\<open>m[key]\<close> of the map a JSON object is decoded to: the last member of that name.\<close>

definition claim :: "(string \<times> json) list \<Rightarrow> string \<Rightarrow> json option" where
  "claim ms k = map_of (rev ms) k"

text \<open>\<^verbatim>\<open>err.Error()\<close>: a wrapped error shows its message before the text of what it wraps.\<close>

definition em_dash :: string where
  "em_dash = [CHR 0xE2, CHR 0x80, CHR 0x94]"

fun sentinel_text :: "sentinel \<Rightarrow> string" where
  "sentinel_text ErrUserNotFound = ''user not found''"
| "sentinel_text ErrUserAlreadyExists = ''user already exists''"
| "sentinel_text ErrInvalidCredentials = ''invalid credentials''"
| "sentinel_text ErrInvalidInput = ''invalid input''"
| "sentinel_text ErrTokenExpired = ''token expired''"
| "sentinel_text ErrTokenInvalid = ''token invalid''"
| "sentinel_text ErrUnauthorized = ''unauthorized''"
| "sentinel_text ErrRateLimited = ''rate limit exceeded''"
| "sentinel_text ErrSessionNotFound = ''session not found''"
| "sentinel_text ErrSessionRevoked = ''session has been revoked''"
| "sentinel_text ErrSessionExpired = ''session access window has expired''"
| "sentinel_text ErrRefreshReplayed =
     ''refresh token has already been used '' @ em_dash @ '' potential compromise detected''"
| "sentinel_text ErrRefreshExpired = ''refresh token family has expired; re-authentication required''"
| "sentinel_text ErrSessionNotOwned = ''session does not belong to the requesting user''"
| "sentinel_text ErrRefreshTokenReplayed = ''refresh token has already been rotated or revoked''"

fun err_text :: "goerr \<Rightarrow> string" where
  "err_text (Sentinel s) = sentinel_text s"
| "err_text (Wrap m e) = m @ '': '' @ err_text e"
| "err_text (Foreign m) = m"

text \<open>
  What the library documents: a token signed with a key parses back to its claims under the same key
  if the method is allowed and the validator has no objection; when the validator objects, \<^verbatim>\<open>Parse\<close>
  returns an error that contains the objection. The validator accepts claims whose issuer is the
  expected one, whose expiry lies in the future and which were not issued in the future; it reports
  an expiry that has passed with a text containing "expired".
\<close>

definition live_claims :: "string \<Rightarrow> int \<Rightarrow> (string \<times> json) list \<Rightarrow> bool" where
  "live_claims iss now ms =
     (claim ms ''iss'' = Some (JStr iss) \<and> claim ms ''nbf'' = None \<and>
      (\<exists>x. claim ms ''exp'' = Some (JInt x) \<and> now < x * second) \<and>
      (\<exists>x. claim ms ''iat'' = Some (JInt x) \<and> x * second \<le> now))"

definition expired_claims :: "string \<Rightarrow> int \<Rightarrow> (string \<times> json) list \<Rightarrow> bool" where
  "expired_claims iss now ms =
     (claim ms ''iss'' = Some (JStr iss) \<and> (\<exists>x. claim ms ''exp'' = Some (JInt x) \<and> x * second < now))"

locale jwt_library =
  fixes lib :: jwtlib
  assumes sign_parse: "jwt_SignedString lib key (JObj ms) = Inr t \<Longrightarrow> kf (HMAC ''HS256'') = Inr key \<Longrightarrow>
      ''HS256'' \<in> set methods \<Longrightarrow> jwt_Validate lib iss now ms = None \<Longrightarrow>
      jwt_Parse lib kf methods iss now t = Inr \<lparr>tk_Raw = t, tk_Claims = MapClaims ms, tk_Valid = True\<rparr>"
    and parse_invalid: "jwt_SignedString lib key (JObj ms) = Inr t \<Longrightarrow> kf (HMAC ''HS256'') = Inr key \<Longrightarrow>
      ''HS256'' \<in> set methods \<Longrightarrow> jwt_Validate lib iss now ms = Some e \<Longrightarrow>
      \<exists>e'. jwt_Parse lib kf methods iss now t = Inl e' \<and> (str_contains (err_text e) w \<longrightarrow> str_contains (err_text e') w)"
    and validate_live: "live_claims iss now ms \<Longrightarrow> jwt_Validate lib iss now ms = None"
    and validate_expired: "expired_claims iss now ms \<Longrightarrow>
      \<exists>e. jwt_Validate lib iss now ms = Some e \<and> str_contains (err_text e) ''expired''"

section \<open>The contract of a signer\<close>

locale signer =
  fixes sign :: "json \<Rightarrow> string res"
    and verify :: "int \<Rightarrow> string \<Rightarrow> jwt_token res"
    and issuer :: string
  assumes sign_verify: "sign (JObj ms) = Inr t \<Longrightarrow> live_claims issuer now ms \<Longrightarrow>
      verify now t = Inr \<lparr>tk_Raw = t, tk_Claims = MapClaims ms, tk_Valid = True\<rparr>"
    and sign_expired: "sign (JObj ms) = Inr t \<Longrightarrow> expired_claims issuer now ms \<Longrightarrow>
      \<exists>e. verify now t = Inl e \<and> str_contains (err_text e) ''expired''"

section \<open>HMACSigner\<close>

record HMACSigner =
  hs_key :: string
  hs_issuer :: string

definition NewHMACSigner :: "string \<Rightarrow> string \<Rightarrow> HMACSigner res" where
  "NewHMACSigner key iss =
     (if length key < 32
      then Inl (Foreign (''hmac signer: key must be at least 32 bytes, got '' @ show_nat (length key)))
      else Inr \<lparr>hs_key = key, hs_issuer = iss\<rparr>)"

definition HMACSigner_Sign :: "jwtlib \<Rightarrow> HMACSigner \<Rightarrow> json \<Rightarrow> string res" where
  "HMACSigner_Sign lib h claims =
     (case jwt_SignedString lib (hs_key h) claims of
        Inl e \<Rightarrow> Inl (Wrap ''hmac signer: sign'' e) | Inr tok \<Rightarrow> Inr tok)"

definition hmac_keyfunc :: "string \<Rightarrow> signing_method \<Rightarrow> string res" where
  "hmac_keyfunc key m =
     (case m of HMAC _ \<Rightarrow> Inr key
      | OtherMethod t \<Rightarrow> Inl (Foreign (''hmac signer: unexpected signing method '' @ t)))"

definition HMACSigner_Verify :: "jwtlib \<Rightarrow> HMACSigner \<Rightarrow> int \<Rightarrow> string \<Rightarrow> jwt_token res" where
  "HMACSigner_Verify lib h now tokenStr =
     (case jwt_Parse lib (hmac_keyfunc (hs_key h)) [''HS256''] (hs_issuer h) now tokenStr of
        Inl e \<Rightarrow> Inl (Wrap ''hmac signer: verify'' e)
      | Inr token \<Rightarrow>
          (case tk_Claims token of
             OtherClaims \<Rightarrow> Inl (Foreign ''hmac signer: unexpected claims type'')
           | MapClaims ms \<Rightarrow>
               (let iss = (case claim ms ''iss'' of Some (JStr s) \<Rightarrow> s | _ \<Rightarrow> '''') in
                if hs_issuer h \<noteq> iss then Inl (Foreign ''hmac signer: issuer mismatch'')
                else Inr token)))"

lemma hmac_meets:
  assumes "jwt_library lib"
  shows "signer (HMACSigner_Sign lib h) (HMACSigner_Verify lib h) (hs_issuer h)"
proof
  fix ms t now
  let ?kf = "hmac_keyfunc (hs_key h)"
  assume "HMACSigner_Sign lib h (JObj ms) = Inr t"
  then have s: "jwt_SignedString lib (hs_key h) (JObj ms) = Inr t"
    by (auto simp: HMACSigner_Sign_def split: sum.splits)
  have k: "?kf (HMAC ''HS256'') = Inr (hs_key h)" "''HS256'' \<in> set [''HS256'']" by (simp_all add: hmac_keyfunc_def)
  note parse = jwt_library.sign_parse [OF assms s, of ?kf "[''HS256'']", OF k]
    and fails = jwt_library.parse_invalid [OF assms s, of ?kf "[''HS256'']", OF k]
  {
    assume l: "live_claims (hs_issuer h) now ms"
    show "HMACSigner_Verify lib h now t = Inr \<lparr>tk_Raw = t, tk_Claims = MapClaims ms, tk_Valid = True\<rparr>"
      using parse [OF jwt_library.validate_live [OF assms l]] l
      by (simp add: HMACSigner_Verify_def live_claims_def)
  next
    assume "expired_claims (hs_issuer h) now ms"
    then obtain e where e: "jwt_Validate lib (hs_issuer h) now ms = Some e" "str_contains (err_text e) ''expired''"
      using jwt_library.validate_expired [OF assms] by blast
    obtain e' where "jwt_Parse lib ?kf [''HS256''] (hs_issuer h) now t = Inl e'" "str_contains (err_text e') ''expired''"
      using fails [OF e(1)] e(2) by blast
    then show "\<exists>e. HMACSigner_Verify lib h now t = Inl e \<and> str_contains (err_text e) ''expired''"
      using str_contains_prepend [of "err_text e'" "''expired''" "''hmac signer: verify: ''"]
      by (simp add: HMACSigner_Verify_def)
  }
qed

section \<open>TransitSigner\<close>

record vsecret = vs_Data :: "(string \<times> json) list option"

type_synonym vault_write = "string \<Rightarrow> (string \<times> string) list \<Rightarrow> vsecret option res"

record TransitSigner =
  ts_mount :: string
  ts_keyName :: string
  ts_issuer :: string

definition vault_data :: "string \<Rightarrow> vsecret option res \<Rightarrow> (string \<times> json) list res" where
  "vault_data what r =
     (case r of
        Inl e \<Rightarrow> Inl (Wrap what e)
      | Inr None \<Rightarrow> Inl (Foreign (what @ '': empty response''))
      | Inr (Some s) \<Rightarrow> (case vs_Data s of None \<Rightarrow> Inl (Foreign (what @ '': empty response'')) | Some d \<Rightarrow> Inr d))"

definition vaultHMAC :: "vault_write \<Rightarrow> TransitSigner \<Rightarrow> string \<Rightarrow> string res" where
  "vaultHMAC vw ts d =
     (let path = ts_mount ts @ ''/hmac/'' @ ts_keyName ts in
      case vault_data ''vault transit hmac'' (vw path [(''input'', std_encode d), (''algorithm'', ''sha2-256'')]) of
        Inl e \<Rightarrow> Inl e
      | Inr resp \<Rightarrow>
          (case claim resp ''hmac'' of
             Some (JStr raw) \<Rightarrow>
               (case split_n 3 (CHR '':'') raw of
                  [a, b, c] \<Rightarrow>
                    (case std_decode c of
                       None \<Rightarrow> Inl (Wrap ''vault transit hmac: base64 decode'' (Foreign ''illegal base64 data''))
                     | Some sig \<Rightarrow> Inr sig)
                | _ \<Rightarrow> Inl (Foreign (''vault transit hmac: unexpected format '' @ raw)))
           | _ \<Rightarrow> Inl (Foreign ''vault transit hmac: unexpected response shape'')))"

definition vaultVerify :: "vault_write \<Rightarrow> TransitSigner \<Rightarrow> string \<Rightarrow> string \<Rightarrow> goerr option" where
  "vaultVerify vw ts d sig =
     (let path = ts_mount ts @ ''/verify/'' @ ts_keyName ts in
      case vault_data ''vault transit verify''
        (vw path [(''input'', std_encode d), (''hmac'', ''vault:v1:'' @ std_encode sig), (''algorithm'', ''sha2-256'')]) of
        Inl e \<Rightarrow> Some e
      | Inr resp \<Rightarrow>
          (let valid = (case claim resp ''valid'' of Some (JBool b) \<Rightarrow> b | _ \<Rightarrow> False) in
           if \<not> valid then Some (Foreign ''vault transit verify: signature invalid'') else None))"

definition jwt_header :: string where
  "jwt_header = Marshal (JObj [(''alg'', JStr ''HS256''), (''typ'', JStr ''JWT'')])"

definition TransitSigner_Sign :: "vault_write \<Rightarrow> TransitSigner \<Rightarrow> json \<Rightarrow> string res" where
  "TransitSigner_Sign vw ts claims =
     (let header = b64_encode jwt_header; payload = b64_encode (Marshal claims);
          signingInput = header @ ''.'' @ payload in
      case vaultHMAC vw ts signingInput of
        Inl e \<Rightarrow> Inl e
      | Inr sig \<Rightarrow> Inr (signingInput @ ''.'' @ b64_encode sig))"

definition TransitSigner_Verify :: "vault_write \<Rightarrow> jwtlib \<Rightarrow> TransitSigner \<Rightarrow> int \<Rightarrow> string \<Rightarrow> jwt_token res" where
  "TransitSigner_Verify vw lib ts now tokenStr =
     (case split_char (CHR ''.'') tokenStr of
        [p0, p1, p2] \<Rightarrow>
          (case b64_decode p2 of
             None \<Rightarrow> Inl (Wrap ''transit verify: decode signature'' (Foreign ''illegal base64 data''))
           | Some sig \<Rightarrow>
               (case vaultVerify vw ts (p0 @ ''.'' @ p1) sig of
                  Some e \<Rightarrow> Inl e
                | None \<Rightarrow>
                    (case b64_decode p1 of
                       None \<Rightarrow> Inl (Wrap ''transit verify: decode payload'' (Foreign ''illegal base64 data''))
                     | Some payloadJSON \<Rightarrow>
                         (case (case Unmarshal payloadJSON of Some (JObj ms) \<Rightarrow> Some ms | Some JNull \<Rightarrow> Some [] | _ \<Rightarrow> None) of
                            None \<Rightarrow> Inl (Wrap ''transit verify: unmarshal claims'' (Foreign ''json''))
                          | Some claims \<Rightarrow>
                              (case jwt_Validate lib (ts_issuer ts) now claims of
                                 Some e \<Rightarrow> Inl (Wrap ''transit verify: claims invalid'' e)
                               | None \<Rightarrow> Inr \<lparr>tk_Raw = tokenStr, tk_Claims = MapClaims claims, tk_Valid = True\<rparr>)))))
      | _ \<Rightarrow> Inl (Foreign ''transit verify: malformed token''))"

text \<open>
  The Transit engine as documented: the HMAC endpoint answers with the version of the latest key and
  the MAC under it, the verify endpoint recomputes the MAC under the version it is given.
\<close>

locale transit_engine =
  fixes vw :: vault_write and mount key :: string and latest :: nat and mac :: "nat \<Rightarrow> string \<Rightarrow> string"
  assumes hmac: "vw (mount @ ''/hmac/'' @ key) [(''input'', std_encode d), (''algorithm'', ''sha2-256'')] =
      Inr (Some \<lparr>vs_Data = Some [(''hmac'', JStr (''vault:v'' @ show_nat latest @ '':'' @ std_encode (mac latest d)))]\<rparr>)"
    and verify: "1 \<le> n \<Longrightarrow> n \<le> latest \<Longrightarrow>
      vw (mount @ ''/verify/'' @ key)
        [(''input'', std_encode d), (''hmac'', ''vault:v'' @ show_nat n @ '':'' @ std_encode sig), (''algorithm'', ''sha2-256'')] =
      Inr (Some \<lparr>vs_Data = Some [(''valid'', JBool (sig = mac n d))]\<rparr>)"
    and latest: "1 \<le> latest"
begin

lemma vaultHMAC_mac:
  assumes "ts_mount ts = mount" "ts_keyName ts = key"
  shows "vaultHMAC vw ts d = Inr (mac latest d)"
proof -
  let ?m = "std_encode (mac latest d)"
  have v: "CHR '':'' \<notin> set (CHR ''v'' # show_nat latest)"
    using show_nat_ok(2) [of latest] by (auto simp: is_dec_def byte_def)
  have "split_n 3 (CHR '':'') (''vault'' @ CHR '':'' # (CHR ''v'' # show_nat latest) @ CHR '':'' # ?m) =
      [''vault'', CHR ''v'' # show_nat latest, ?m]"
    unfolding numeral_3_eq_3 by (subst split_n_app, simp, subst split_n_app [OF v]) simp
  then show ?thesis
    using hmac [of d] assms by (simp add: vaultHMAC_def vault_data_def claim_def std_round_trip)
qed

lemma show_one: "''vault:v1:'' = ''vault:v'' @ show_nat 1 @ '':''"
  by code_simp

lemma vaultVerify_mac:
  assumes "ts_mount ts = mount" "ts_keyName ts = key"
  shows "vaultVerify vw ts d sig = (if sig = mac 1 d then None else Some (Foreign ''vault transit verify: signature invalid''))"
  using verify [of 1 d sig] latest assms
  by (simp add: vaultVerify_def vault_data_def claim_def show_one)

lemma signed_token:
  assumes "ts_mount ts = mount" "ts_keyName ts = key"
  shows "TransitSigner_Sign vw ts j = Inr (b64_encode jwt_header @ ''.'' @ b64_encode (Marshal j) @ ''.'' @
    b64_encode (mac latest (b64_encode jwt_header @ ''.'' @ b64_encode (Marshal j))))"
  by (simp add: TransitSigner_Sign_def vaultHMAC_mac [OF assms] Let_def)

lemma verify_token:
  assumes "ts_mount ts = mount" "ts_keyName ts = key" "TransitSigner_Sign vw ts (JObj ms) = Inr t"
  shows "TransitSigner_Verify vw lib ts now t =
    (let d = b64_encode jwt_header @ ''.'' @ b64_encode (Marshal (JObj ms)) in
     if mac latest d \<noteq> mac 1 d then Inl (Foreign ''vault transit verify: signature invalid'')
     else case jwt_Validate lib (ts_issuer ts) now ms of
       Some e \<Rightarrow> Inl (Wrap ''transit verify: claims invalid'' e)
     | None \<Rightarrow> Inr \<lparr>tk_Raw = t, tk_Claims = MapClaims ms, tk_Valid = True\<rparr>)"
proof -
  let ?h = "b64_encode jwt_header" and ?p = "b64_encode (Marshal (JObj ms))"
  let ?s = "mac latest (?h @ ''.'' @ ?p)"
  have t: "t = ?h @ CHR ''.'' # ?p @ CHR ''.'' # b64_encode ?s"
    using assms(3) by (simp add: signed_token [OF assms(1,2)] del: Marshal.simps)
  have "split_char (CHR ''.'') t = [?h, ?p, b64_encode ?s]"
    unfolding t by (simp add: split_char_app split_char_none b64_no del: Marshal.simps)
  then show ?thesis
    by (simp add: TransitSigner_Verify_def b64_round_trip vaultVerify_mac [OF assms(1,2)] Let_def
        del: Marshal.simps split: option.split)
qed

end

lemma transit_meets:
  assumes "transit_engine vw (ts_mount ts) (ts_keyName ts) 1 mac" "jwt_library lib"
  shows "signer (TransitSigner_Sign vw ts) (TransitSigner_Verify vw lib ts) (ts_issuer ts)"
proof
  fix ms t now
  assume s: "TransitSigner_Sign vw ts (JObj ms) = Inr t"
  note v = transit_engine.verify_token [OF assms(1) refl refl s, of lib now]
  {
    assume l: "live_claims (ts_issuer ts) now ms"
    show "TransitSigner_Verify vw lib ts now t = Inr \<lparr>tk_Raw = t, tk_Claims = MapClaims ms, tk_Valid = True\<rparr>"
      using jwt_library.validate_live [OF assms(2) l] by (simp add: v Let_def)
  next
    assume "expired_claims (ts_issuer ts) now ms"
    then obtain e where "jwt_Validate lib (ts_issuer ts) now ms = Some e" "str_contains (err_text e) ''expired''"
      using jwt_library.validate_expired [OF assms(2)] by blast
    then show "\<exists>e. TransitSigner_Verify vw lib ts now t = Inl e \<and> str_contains (err_text e) ''expired''"
      using str_contains_prepend [of "err_text e" "''expired''" "''transit verify: claims invalid: ''"]
      by (simp add: v Let_def)
  }
qed

end
