(* ===== verification/Jwt.thy ===== *)
theory Jwt
  imports Vault
begin

text \<open>
  \<^verbatim>\<open>internal/token/jwt.go\<close>: the token manager, over any signer (the record \<open>signer_ops\<close>, the Go interface
  \<^verbatim>\<open>Signer\<close>). Reads of \<^verbatim>\<open>crypto/rand\<close> and of the clock are arguments; a panic is \<open>None\<close>. The lemmas inside
  \<open>signer\<close> hold for every signer that meets the contract; the properties at the end are about the two
  signers of \<^verbatim>\<open>Vault\<close>.
\<close>

section \<open>Claims\<close>

record jwtClaims =
  jc_Issuer :: string
  jc_Subject :: string
  jc_ExpiresAt :: int \<comment> \<open>seconds\<close>
  jc_IssuedAt :: int
  jc_Kind :: string
  jc_ActorType :: string
  jc_UserID :: string
  jc_ActorID :: string
  jc_Nickname :: string
  jc_Email :: string
  jc_Permissions :: "string list"
  jc_DelegatedPermissions :: "string list"
  jc_PolicyGroups :: "string list"
  jc_ClientID :: string
  jc_ServiceName :: string

definition opt_member :: "string \<Rightarrow> string \<Rightarrow> (string \<times> json) list" where
  "opt_member k v = (if v = '''' then [] else [(k, JStr v)])"

definition opt_members :: "string \<Rightarrow> string list \<Rightarrow> (string \<times> json) list" where
  "opt_members k vs = (if vs = [] then [] else [(k, JArr (map JStr vs))])"

definition claims_members :: "jwtClaims \<Rightarrow> (string \<times> json) list" where
  "claims_members c =
     opt_member ''iss'' (jc_Issuer c) @ opt_member ''sub'' (jc_Subject c) @
     [(''exp'', JInt (jc_ExpiresAt c)), (''iat'', JInt (jc_IssuedAt c)), (''kind'', JStr (jc_Kind c))] @
     opt_member ''actor_type'' (jc_ActorType c) @ opt_member ''user_id'' (jc_UserID c) @
     opt_member ''actor_id'' (jc_ActorID c) @ opt_member ''nickname'' (jc_Nickname c) @
     opt_member ''email'' (jc_Email c) @ opt_members ''perms'' (jc_Permissions c) @
     opt_members ''dperms'' (jc_DelegatedPermissions c) @ opt_members ''pgroups'' (jc_PolicyGroups c) @
     opt_member ''client_id'' (jc_ClientID c) @ opt_member ''svc_name'' (jc_ServiceName c)"

definition numeric_date :: "int \<Rightarrow> int" where \<comment> \<open>\<open>jwt.NewNumericDate\<close>: whole seconds\<close>
  "numeric_date t = t div second"

definition empty_claims :: jwtClaims where
  "empty_claims =
     \<lparr>jc_Issuer = '''', jc_Subject = '''', jc_ExpiresAt = 0, jc_IssuedAt = 0, jc_Kind = '''', jc_ActorType = '''',
      jc_UserID = '''', jc_ActorID = '''', jc_Nickname = '''', jc_Email = '''', jc_Permissions = [],
      jc_DelegatedPermissions = [], jc_PolicyGroups = [], jc_ClientID = '''', jc_ServiceName = ''''\<rparr>"

section \<open>The manager\<close>

record signer_ops =
  sg_Sign :: "json \<Rightarrow> string res"
  sg_Verify :: "int \<Rightarrow> string \<Rightarrow> jwt_token res"

definition transit_ops :: "vault_write \<Rightarrow> jwtlib \<Rightarrow> TransitSigner \<Rightarrow> signer_ops" where
  "transit_ops vw lib ts = \<lparr>sg_Sign = TransitSigner_Sign vw ts, sg_Verify = TransitSigner_Verify vw lib ts\<rparr>"

definition hmac_ops :: "jwtlib \<Rightarrow> HMACSigner \<Rightarrow> signer_ops" where
  "hmac_ops lib h = \<lparr>sg_Sign = HMACSigner_Sign lib h, sg_Verify = HMACSigner_Verify lib h\<rparr>"

record Manager =
  mg_signer :: signer_ops
  mg_issuer :: string
  mg_accessDuration :: int

definition Manager_New :: "signer_ops option \<Rightarrow> string \<Rightarrow> int \<Rightarrow> Manager option" where
  "Manager_New sg issuer d =
     (case sg of
        None \<Rightarrow> None
      | Some s \<Rightarrow> if issuer = '''' then None else Some \<lparr>mg_signer = s, mg_issuer = issuer, mg_accessDuration = d\<rparr>)"

definition duration_seconds :: "int \<Rightarrow> int" where \<comment> \<open>\<open>int64(d.Seconds())\<close> truncates towards zero\<close>
  "duration_seconds d = (if d < 0 then - ((- d) div second) else d div second)"

definition secureRandomString :: "string res \<Rightarrow> string res" where
  "secureRandomString rd = (case rd of Inl e \<Rightarrow> Inl e | Inr b \<Rightarrow> Inr (url_encode b))"

definition signPair :: "Manager \<Rightarrow> string res \<Rightarrow> jwtClaims \<Rightarrow> TokenPair res" where
  "signPair m rd claims =
     (case sg_Sign (mg_signer m) (JObj (claims_members claims)) of
        Inl e \<Rightarrow> Inl (Wrap ''token: sign'' e)
      | Inr tok \<Rightarrow>
          (case secureRandomString rd of
             Inl e \<Rightarrow> Inl (Wrap ''token: generate refresh token'' e)
           | Inr refresh \<Rightarrow>
               Inr \<lparr>tp_AccessToken = tok, tp_RefreshToken = refresh,
                    tp_ExpiresIn = duration_seconds (mg_accessDuration m)\<rparr>))"

definition registered :: "Manager \<Rightarrow> int \<Rightarrow> string \<Rightarrow> jwtClaims" where
  "registered m now sub =
     empty_claims\<lparr>jc_IssuedAt := numeric_date now, jc_ExpiresAt := numeric_date (now + mg_accessDuration m),
       jc_Issuer := mg_issuer m, jc_Subject := sub\<rparr>"

definition Manager_Issue :: "Manager \<Rightarrow> int \<Rightarrow> string res \<Rightarrow> string \<Rightarrow> string \<Rightarrow> string \<Rightarrow> TokenPair res" where
  "Manager_Issue m now rd userID nickname email =
     signPair m rd ((registered m now userID)\<lparr>jc_Kind := PrincipalKindUser, jc_UserID := userID,
       jc_Nickname := nickname, jc_Email := email\<rparr>)"

definition context_claims :: "Manager \<Rightarrow> int \<Rightarrow> ContextActivationInput \<Rightarrow> jwtClaims" where
  "context_claims m now input =
     (registered m now (cai_UserID input))\<lparr>jc_Kind := PrincipalKindUser, jc_ActorType := cai_ActorType input,
       jc_UserID := cai_UserID input, jc_ActorID := cai_ActorID input, jc_Nickname := cai_Nickname input,
       jc_Email := cai_Email input, jc_Permissions := cai_Permissions input,
       jc_DelegatedPermissions := cai_DelegatedPermissions input, jc_PolicyGroups := cai_PolicyGroups input\<rparr>"

definition IssueContextToken :: "Manager \<Rightarrow> int \<Rightarrow> string res \<Rightarrow> ContextActivationInput \<Rightarrow> TokenPair res" where
  "IssueContextToken m now rd input =
     (if \<not> ActorType_IsValid (cai_ActorType input)
      then Inl (Wrap (''actor_type '' @ cai_ActorType input @ '' is not a valid ActorType'') (Sentinel ErrInvalidInput))
      else if cai_ActorID input = ''''
      then Inl (Wrap ''actor_id must not be empty'' (Sentinel ErrInvalidInput))
      else signPair m rd (context_claims m now input))"

definition IssueServiceToken :: "Manager \<Rightarrow> int \<Rightarrow> string res \<Rightarrow> string \<Rightarrow> string \<Rightarrow> ActorType \<Rightarrow> TokenPair res" where
  "IssueServiceToken m now rd clientID name actorType =
     signPair m rd ((registered m now clientID)\<lparr>jc_Kind := PrincipalKindService, jc_ActorType := actorType,
       jc_ClientID := clientID, jc_ServiceName := name\<rparr>)"

definition strClaim :: "(string \<times> json) list \<Rightarrow> string \<Rightarrow> string" where
  "strClaim m key = (case claim m key of Some (JStr s) \<Rightarrow> s | _ \<Rightarrow> '''')"

fun only_strings :: "json list \<Rightarrow> string list" where
  "only_strings [] = []"
| "only_strings (item # v) = (case item of JStr s \<Rightarrow> s # only_strings v | _ \<Rightarrow> only_strings v)"

definition stringSliceClaim :: "(string \<times> json) list \<Rightarrow> string \<Rightarrow> string list" where
  "stringSliceClaim m key = (case claim m key of Some (JArr v) \<Rightarrow> only_strings v | _ \<Rightarrow> [])"

definition zero_principal :: Principal where
  "zero_principal =
     \<lparr>prin_Kind = '''', prin_ActorType = '''', prin_UserID = '''', prin_ActorID = '''', prin_Nickname = '''',
      prin_Email = '''', prin_Permissions = [], prin_DelegatedPermissions = [], prin_PolicyGroups = [],
      prin_ClientID = '''', prin_Name = ''''\<rparr>"

definition Manager_Verify :: "Manager \<Rightarrow> int \<Rightarrow> string \<Rightarrow> Principal res" where
  "Manager_Verify m now tokenString =
     (case sg_Verify (mg_signer m) now tokenString of
        Inl e \<Rightarrow> if str_contains (err_text e) ''expired'' then Inl (Sentinel ErrTokenExpired)
                  else Inl (Sentinel ErrTokenInvalid)
      | Inr tok \<Rightarrow>
          (case tk_Claims tok of
             OtherClaims \<Rightarrow> Inl (Sentinel ErrTokenInvalid)
           | MapClaims mc \<Rightarrow>
               (if \<not> tk_Valid tok then Inl (Sentinel ErrTokenInvalid)
                else
                  (let kind = strClaim mc ''kind'' in
                   if kind = PrincipalKindUser then
                     (let userID = strClaim mc ''user_id'' in
                      if userID = '''' then Inl (Sentinel ErrTokenInvalid)
                      else Inr (zero_principal\<lparr>prin_Kind := PrincipalKindUser,
                        prin_ActorType := strClaim mc ''actor_type'', prin_UserID := userID,
                        prin_ActorID := strClaim mc ''actor_id'', prin_Nickname := strClaim mc ''nickname'',
                        prin_Email := strClaim mc ''email'', prin_Permissions := stringSliceClaim mc ''perms'',
                        prin_DelegatedPermissions := stringSliceClaim mc ''dperms'',
                        prin_PolicyGroups := stringSliceClaim mc ''pgroups''\<rparr>))
                   else if kind = PrincipalKindService then
                     (let clientID = strClaim mc ''client_id'' in
                      if clientID = '''' then Inl (Sentinel ErrTokenInvalid)
                      else Inr (zero_principal\<lparr>prin_Kind := PrincipalKindService,
                        prin_ActorType := strClaim mc ''actor_type'', prin_ClientID := clientID,
                        prin_Name := strClaim mc ''svc_name''\<rparr>))
                   else Inl (Sentinel ErrTokenInvalid)))))"

section \<open>Claims read back\<close>

lemma claim_append: "claim (xs @ ys) k = (case claim ys k of Some v \<Rightarrow> Some v | None \<Rightarrow> claim xs k)"
  by (simp add: claim_def map_add_def split: option.split)

lemma claim_simps:
  "claim [] k = None"
  "claim ((q, v) # ms) k = (case claim ms k of Some w \<Rightarrow> Some w | None \<Rightarrow> if k = q then Some v else None)"
  by (simp_all add: claim_def map_add_def split: option.splits)

lemma claim_opt:
  "claim (opt_member q v) k = (if k = q \<and> v \<noteq> '''' then Some (JStr v) else None)"
  "claim (opt_members q vs) k = (if k = q \<and> vs \<noteq> [] then Some (JArr (map JStr vs)) else None)"
  by (simp_all add: opt_member_def opt_members_def claim_def)

lemma only_strings_JStr [simp]: "only_strings (map JStr vs) = vs"
  by (induction vs) auto

lemmas claim_reads = claims_members_def claim_append claim_simps claim_opt

lemma claims_read:
  "strClaim (claims_members c) ''kind'' = jc_Kind c"
  "strClaim (claims_members c) ''actor_type'' = jc_ActorType c"
  "strClaim (claims_members c) ''user_id'' = jc_UserID c"
  "strClaim (claims_members c) ''actor_id'' = jc_ActorID c"
  "strClaim (claims_members c) ''nickname'' = jc_Nickname c"
  "strClaim (claims_members c) ''email'' = jc_Email c"
  "strClaim (claims_members c) ''client_id'' = jc_ClientID c"
  "strClaim (claims_members c) ''svc_name'' = jc_ServiceName c"
  "stringSliceClaim (claims_members c) ''perms'' = jc_Permissions c"
  "stringSliceClaim (claims_members c) ''dperms'' = jc_DelegatedPermissions c"
  "stringSliceClaim (claims_members c) ''pgroups'' = jc_PolicyGroups c"
  by (simp_all add: strClaim_def stringSliceClaim_def claim_reads)

lemma claims_registered:
  "jc_Issuer c \<noteq> '''' \<Longrightarrow> claim (claims_members c) ''iss'' = Some (JStr (jc_Issuer c))"
  "claim (claims_members c) ''exp'' = Some (JInt (jc_ExpiresAt c))"
  "claim (claims_members c) ''iat'' = Some (JInt (jc_IssuedAt c))"
  "claim (claims_members c) ''nbf'' = None"
  by (simp_all add: claim_reads)

section \<open>Over any signer\<close>

context signer
begin

lemma pair_signed:
  assumes "signPair m rd c = Inr tp" "mg_signer m = \<lparr>sg_Sign = sign, sg_Verify = verify\<rparr>"
  shows "sign (JObj (claims_members c)) = Inr (tp_AccessToken tp)"
  using assms by (auto simp: signPair_def split: sum.splits)

lemma verify_issued:
  assumes "signPair m rd c = Inr tp" "mg_signer m = \<lparr>sg_Sign = sign, sg_Verify = verify\<rparr>"
    and "jc_Issuer c = issuer" "issuer \<noteq> ''''" "jc_IssuedAt c * second \<le> now" "now < jc_ExpiresAt c * second"
    and "jc_Kind c = PrincipalKindUser" "jc_UserID c \<noteq> ''''"
  shows "Manager_Verify m now (tp_AccessToken tp) =
    Inr (zero_principal\<lparr>prin_Kind := PrincipalKindUser, prin_ActorType := jc_ActorType c, prin_UserID := jc_UserID c,
      prin_ActorID := jc_ActorID c, prin_Nickname := jc_Nickname c, prin_Email := jc_Email c,
      prin_Permissions := jc_Permissions c, prin_DelegatedPermissions := jc_DelegatedPermissions c,
      prin_PolicyGroups := jc_PolicyGroups c\<rparr>)"
proof -
  have "live_claims issuer now (claims_members c)"
    using assms(3-6) claims_registered [of c] by (simp add: live_claims_def)
  from sign_verify [OF pair_signed [OF assms(1,2)] this] show ?thesis
    using assms(2,7,8) by (simp add: Manager_Verify_def claims_read Let_def)
qed

lemma verify_expired:
  assumes "signPair m rd c = Inr tp" "mg_signer m = \<lparr>sg_Sign = sign, sg_Verify = verify\<rparr>"
    and "jc_Issuer c = issuer" "issuer \<noteq> ''''" "jc_ExpiresAt c * second < now"
  shows "Manager_Verify m now (tp_AccessToken tp) = Inl (Sentinel ErrTokenExpired)"
proof -
  have "expired_claims issuer now (claims_members c)"
    using assms(3-5) claims_registered [of c] by (simp add: expired_claims_def)
  from sign_expired [OF pair_signed [OF assms(1,2)] this] show ?thesis
    using assms(2) by (auto simp: Manager_Verify_def)
qed

end

section \<open>The signers of the program\<close>

sublocale jwt_library \<subseteq> hs: signer "HMACSigner_Sign lib h" "HMACSigner_Verify lib h" "hs_issuer h" for h
  by (rule hmac_meets [OF jwt_library_axioms])

locale transit_signing =
  transit_engine vw "ts_mount ts" "ts_keyName ts" 1 mac + jwt_library lib
  for vw and ts :: TransitSigner and mac lib

sublocale transit_signing \<subseteq> tr: signer "TransitSigner_Sign vw ts" "TransitSigner_Verify vw lib ts" "ts_issuer ts"
  by (rule transit_meets [OF transit_engine_axioms jwt_library_axioms])

text \<open>A JWT library and a Transit engine that behave as documented.\<close>

definition ex_validate :: "string \<Rightarrow> int \<Rightarrow> (string \<times> json) list \<Rightarrow> goerr option" where
  "ex_validate iss now ms =
     (if (case claim ms ''exp'' of Some (JInt x) \<Rightarrow> x * second \<le> now | _ \<Rightarrow> False)
      then Some (Foreign ''token is expired'')
      else if (case claim ms ''iat'' of Some (JInt x) \<Rightarrow> now < x * second | _ \<Rightarrow> False)
      then Some (Foreign ''token used before issued'')
      else if (case claim ms ''nbf'' of Some (JInt x) \<Rightarrow> now < x * second | _ \<Rightarrow> False)
      then Some (Foreign ''token is not valid yet'')
      else if claim ms ''iss'' \<noteq> Some (JStr iss) then Some (Foreign ''token has invalid issuer'')
      else None)"

definition ex_signed :: "string \<Rightarrow> json \<Rightarrow> string res" where
  "ex_signed key c = Inr (b64_encode key @ ''.'' @ Marshal c)"

definition ex_parse :: "(signing_method \<Rightarrow> string res) \<Rightarrow> string list \<Rightarrow> string \<Rightarrow> int \<Rightarrow> string \<Rightarrow> jwt_token res" where
  "ex_parse kf methods iss now t =
     (case kf (HMAC ''HS256'') of
        Inl e \<Rightarrow> Inl (Wrap ''token is unverifiable'' e)
      | Inr key \<Rightarrow>
          (if \<not> (List.member methods ''HS256'' \<and> has_prefix t (b64_encode key @ ''.''))
           then Inl (Foreign ''token signature is invalid'')
           else (case Unmarshal (drop (Suc (length (b64_encode key))) t) of
                   Some (JObj ms) \<Rightarrow>
                     (case ex_validate iss now ms of
                        Some e \<Rightarrow> Inl (Wrap ''token has invalid claims'' e)
                      | None \<Rightarrow> Inr \<lparr>tk_Raw = t, tk_Claims = MapClaims ms, tk_Valid = True\<rparr>)
                 | _ \<Rightarrow> Inl (Foreign ''token is malformed''))))"

definition ex_lib :: jwtlib where
  "ex_lib = \<lparr>jwt_SignedString = ex_signed, jwt_Parse = ex_parse, jwt_Validate = ex_validate\<rparr>"

definition ex_mac :: "nat \<Rightarrow> string \<Rightarrow> string" where
  "ex_mac n d = show_nat n @ d"

definition ex_vault :: "nat \<Rightarrow> vault_write" where
  "ex_vault latest path dat =
     (case dat of
        [(_, i), _] \<Rightarrow>
          Inr (Some \<lparr>vs_Data = Some [(''hmac'', JStr (''vault:v'' @ show_nat latest @ '':'' @
            std_encode (ex_mac latest (the (std_decode i)))))]\<rparr>)
      | [(_, i), (_, h), _] \<Rightarrow>
          (case split_n 3 (CHR '':'') h of
             [_, v, b] \<Rightarrow> Inr (Some \<lparr>vs_Data = Some [(''valid'',
               JBool (1 \<le> read_nat (tl v) \<and> read_nat (tl v) \<le> latest \<and>
                 std_decode b = Some (ex_mac (read_nat (tl v)) (the (std_decode i)))))]\<rparr>)
           | _ \<Rightarrow> Inl (Foreign ''invalid HMAC''))
      | _ \<Rightarrow> Inl (Foreign ''unsupported path''))"

interpretation ex_jwt: jwt_library ex_lib
proof (unfold_locales, unfold ex_lib_def jwtlib.simps, goal_cases)
  case (1 key ms t kf methods iss now)
  then show ?case
    by (auto simp: ex_signed_def ex_parse_def has_prefix_def simp del: Marshal.simps)
next
  case (2 key ms t kf methods iss now e w)
  then show ?case
    using str_contains_prepend [of "err_text e" w "''token has invalid claims: ''"]
    by (auto simp: ex_signed_def ex_parse_def has_prefix_def simp del: Marshal.simps)
next
  case (3 iss now ms)
  then show ?case by (auto simp: live_claims_def ex_validate_def)
next
  case (4 iss now ms)
  have "str_contains ''token is expired'' ''expired''" by code_simp
  with 4 show ?case by (auto simp: expired_claims_def ex_validate_def)
qed

lemma ex_transit_engine:
  assumes "1 \<le> v"
  shows "transit_engine (ex_vault v) mount key v ex_mac"
proof
  fix d sig :: string and n :: nat
  assume n: "1 \<le> n" "n \<le> v"
  have "CHR '':'' \<notin> set (CHR ''v'' # show_nat n)"
    using show_nat_ok(2) [of n] by (auto simp: is_dec_def byte_def)
  then have "split_n 3 (CHR '':'') (''vault'' @ CHR '':'' # (CHR ''v'' # show_nat n) @ CHR '':'' # std_encode sig) =
      [''vault'', CHR ''v'' # show_nat n, std_encode sig]"
    unfolding numeral_3_eq_3 by (subst split_n_app, simp, subst split_n_app) simp_all
  then show "ex_vault v (mount @ ''/verify/'' @ key)
      [(''input'', std_encode d), (''hmac'', ''vault:v'' @ show_nat n @ '':'' @ std_encode sig), (''algorithm'', ''sha2-256'')] =
    Inr (Some \<lparr>vs_Data = Some [(''valid'', JBool (sig = ex_mac n d))]\<rparr>)"
    using n by (simp add: ex_vault_def std_round_trip show_nat_ok)
qed (use assms in \<open>simp_all add: ex_vault_def std_round_trip\<close>)

definition ex_transit :: TransitSigner where
  "ex_transit = \<lparr>ts_mount = ''transit'', ts_keyName = ''auth-service-jwt'', ts_issuer = ''auth-service''\<rparr>"

definition ex_manager :: "nat \<Rightarrow> Manager" where
  "ex_manager v = \<lparr>mg_signer = transit_ops (ex_vault v) ex_lib ex_transit, mg_issuer = ''auth-service'',
     mg_accessDuration = 15 * minute\<rparr>"

definition ex_context :: ContextActivationInput where
  "ex_context = \<lparr>cai_UserID = ''id1'', cai_Nickname = ''ada_l'', cai_Email = ''ada@x.io'', cai_ActorID = ''0x9'',
     cai_ActorType = ''DRIVER'', cai_Permissions = [''trip.start'', ''booking.view''],
     cai_DelegatedPermissions = [], cai_PolicyGroups = [''drivers'']\<rparr>"

interpretation ex_signing: transit_signing "ex_vault 1" ex_transit ex_mac ex_lib
  by (intro transit_signing.intro ex_transit_engine ex_jwt.jwt_library_axioms) simp

lemma ex_issue: "1 \<le> v \<Longrightarrow> \<exists>tp. IssueContextToken (ex_manager v) 0 (Inr ''r'') ex_context = Inr tp"
proof -
  assume v: "1 \<le> v"
  have "ActorType_IsValid (cai_ActorType ex_context)" "cai_ActorID ex_context \<noteq> ''''" by code_simp+
  then show ?thesis
    by (simp add: IssueContextToken_def signPair_def ex_manager_def transit_ops_def secureRandomString_def
        transit_engine.signed_token [OF ex_transit_engine [OF v] refl refl])
qed

section \<open>Properties\<close>

text \<open>C28: A context token that the manager issues through Vault Transit verifies, from its issue until its
  expiry (in whole seconds), as exactly the user, actor and permission lists it was issued for, as long
  as the first version of the Transit key is the latest.\<close>

theorem context_token_round_trip:
  fixes ts d vw lib
  defines "m \<equiv> \<lparr>mg_signer = transit_ops vw lib ts, mg_issuer = ts_issuer ts, mg_accessDuration = d\<rparr>"
  assumes "transit_engine vw (ts_mount ts) (ts_keyName ts) 1 mac" "jwt_library lib" "ts_issuer ts \<noteq> ''''"
    and "IssueContextToken m t0 rd input = Inr tp" "cai_UserID input \<noteq> ''''"
    and "t0 \<le> now" "now < trunc_sec (t0 + d)"
  shows "Manager_Verify m now (tp_AccessToken tp) =
    Inr (zero_principal\<lparr>prin_Kind := PrincipalKindUser, prin_ActorType := cai_ActorType input,
      prin_UserID := cai_UserID input, prin_ActorID := cai_ActorID input, prin_Nickname := cai_Nickname input,
      prin_Email := cai_Email input, prin_Permissions := cai_Permissions input,
      prin_DelegatedPermissions := cai_DelegatedPermissions input, prin_PolicyGroups := cai_PolicyGroups input\<rparr>)"
proof -
  have s: "signPair m rd (context_claims m t0 input) = Inr tp"
    using assms(5) by (auto simp: IssueContextToken_def split: if_splits)
  have c: "numeric_date t * second = trunc_sec t" for t
    by (simp add: numeric_date_def trunc_sec_def fmt_rfc3339_def parse_rfc3339_def)
  have "trunc_sec t0 \<le> now" using trunc_sec_le [of t0] assms(7) by linarith
  then show ?thesis
    using signer.verify_issued [OF transit_meets [OF assms(2,3)] s, of now] assms(4,6,8)
    by (simp add: m_def transit_ops_def context_claims_def registered_def c)
qed

theorem context_token_round_trip_witness:
  "\<exists>tp p. IssueContextToken (ex_manager 1) 0 (Inr ''r'') ex_context = Inr tp \<and>
     Manager_Verify (ex_manager 1) (60 * second) (tp_AccessToken tp) = Inr p \<and>
     prin_Permissions p = [''trip.start'', ''booking.view'']"
proof -
  obtain tp where tp: "IssueContextToken (ex_manager 1) 0 (Inr ''r'') ex_context = Inr tp"
    using ex_issue by blast
  have n: "ts_issuer ex_transit \<noteq> ''''" "ts_issuer ex_transit = ''auth-service''" "cai_UserID ex_context \<noteq> ''''"
      "(0 :: int) \<le> 60 * second" "60 * second < trunc_sec (0 + 15 * minute)"
      "cai_Permissions ex_context = [''trip.start'', ''booking.view'']"
    by code_simp+
  from context_token_round_trip [OF ex_signing.transit_engine_axioms ex_jwt.jwt_library_axioms n(1) _ n(3,4,5),
      where rd = "Inr ''r''" and tp = tp] tp show ?thesis
    by (auto simp: ex_manager_def n)
qed

text \<open>A basic token that the manager issues through the HMAC signer is reported as expired, not as
  invalid, once the second of its expiry has passed.\<close>

theorem expired_token_reported:
  fixes h d lib
  defines "m \<equiv> \<lparr>mg_signer = hmac_ops lib h, mg_issuer = hs_issuer h, mg_accessDuration = d\<rparr>"
  assumes "jwt_library lib" "hs_issuer h \<noteq> ''''"
    and "Manager_Issue m t0 rd userID nick mail = Inr tp" "trunc_sec (t0 + d) < now"
  shows "Manager_Verify m now (tp_AccessToken tp) = Inl (Sentinel ErrTokenExpired)"
proof -
  have c: "numeric_date t * second = trunc_sec t" for t
    by (simp add: numeric_date_def trunc_sec_def fmt_rfc3339_def parse_rfc3339_def)
  show ?thesis
    using signer.verify_expired [OF hmac_meets [OF assms(2), of h] assms(4) [unfolded Manager_Issue_def], where now = now] assms(3,5)
    by (simp add: m_def hmac_ops_def registered_def c)
qed

theorem expired_token_reported_witness:
  "\<exists>tp. Manager_Issue \<lparr>mg_signer = hmac_ops ex_lib \<lparr>hs_key = ''k'', hs_issuer = ''a''\<rparr>, mg_issuer = ''a'',
       mg_accessDuration = minute\<rparr> 0 (Inr ''r'') ''id1'' ''n'' ''e'' = Inr tp \<and>
     Manager_Verify \<lparr>mg_signer = hmac_ops ex_lib \<lparr>hs_key = ''k'', hs_issuer = ''a''\<rparr>, mg_issuer = ''a'',
       mg_accessDuration = minute\<rparr> (2 * minute) (tp_AccessToken tp) = Inl (Sentinel ErrTokenExpired)"
proof -
  let ?h = "\<lparr>hs_key = ''k'', hs_issuer = ''a''\<rparr>"
  let ?m = "\<lparr>mg_signer = hmac_ops ex_lib ?h, mg_issuer = hs_issuer ?h, mg_accessDuration = minute\<rparr>"
  obtain tp where tp: "Manager_Issue ?m 0 (Inr ''r'') ''id1'' ''n'' ''e'' = Inr tp"
    by (simp add: Manager_Issue_def signPair_def hmac_ops_def HMACSigner_Sign_def ex_lib_def ex_signed_def
        secureRandomString_def)
  have "trunc_sec (0 + minute) < 2 * minute" by code_simp
  from expired_token_reported [OF ex_jwt.jwt_library_axioms _ tp this] tp show ?thesis by auto
qed

text \<open>C39: Key rotation breaks the Transit signer. Vault signs with the latest version of the key, but the
  verification request always names version 1: once the key has been rotated (and the versions give
  different MACs), every token the manager issues - basic, context or service - is refused as invalid, at
  every time.\<close>

theorem rotated_key_breaks_verification:
  fixes ts d vw lib
  defines "m \<equiv> \<lparr>mg_signer = transit_ops vw lib ts, mg_issuer = ts_issuer ts, mg_accessDuration = d\<rparr>"
  assumes "transit_engine vw (ts_mount ts) (ts_keyName ts) v mac" "\<And>x. mac v x \<noteq> mac 1 x"
    and "Manager_Issue m t0 rd userID nick mail = Inr tp \<or> IssueContextToken m t0 rd input = Inr tp \<or>
      IssueServiceToken m t0 rd cid name at = Inr tp"
  shows "Manager_Verify m now (tp_AccessToken tp) = Inl (Sentinel ErrTokenInvalid)"
proof -
  obtain c where s: "signPair m rd c = Inr tp"
    using assms(4) unfolding Manager_Issue_def IssueContextToken_def IssueServiceToken_def by (auto split: if_splits)
  then have "TransitSigner_Sign vw ts (JObj (claims_members c)) = Inr (tp_AccessToken tp)"
    by (auto simp: signPair_def m_def transit_ops_def split: sum.splits)
  from transit_engine.verify_token [OF assms(2) refl refl this, of lib now] assms(3)
  have v: "sg_Verify (mg_signer m) now (tp_AccessToken tp) = Inl (Foreign ''vault transit verify: signature invalid'')"
    by (simp add: m_def transit_ops_def Let_def)
  have "\<not> str_contains ''vault transit verify: signature invalid'' ''expired''" by code_simp
  then show ?thesis by (simp add: Manager_Verify_def v)
qed

theorem rotated_key_breaks_verification_witness:
  "\<exists>tp. IssueContextToken (ex_manager 2) 0 (Inr ''r'') ex_context = Inr tp \<and>
     Manager_Verify (ex_manager 2) 0 (tp_AccessToken tp) = Inl (Sentinel ErrTokenInvalid)"
proof -
  obtain tp where tp: "IssueContextToken (ex_manager 2) 0 (Inr ''r'') ex_context = Inr tp"
    using ex_issue [of 2] by auto
  have "show_nat 2 \<noteq> show_nat 1" by code_simp
  then have m: "ex_mac 2 x \<noteq> ex_mac 1 x" for x by (simp add: ex_mac_def)
  have i: "ts_issuer ex_transit = ''auth-service''" by (simp add: ex_transit_def)
  from rotated_key_breaks_verification [OF ex_transit_engine [of 2] m, where rd = "Inr ''r''" and tp = tp and
      ts = ex_transit and lib = ex_lib and d = "15 * minute" and input = ex_context and ?t0.0 = 0] tp show ?thesis
    by (auto simp: ex_manager_def i)
qed

end
