(* ===== verification/Middleware.thy ===== *)
theory Middleware
  imports Session_Service Jwt "HOL-Library.AList"
begin

text \<open>
  \<^verbatim>\<open>internal/middleware/middleware.go\<close>, and what it uses of \<^verbatim>\<open>net/http\<close>: a handler is a function of the
  request that takes the response writer and a state to the next ones. Requests carry what the program
  reads (headers by canonical name, decoded query, cookies, body, and the principal that
  \<^verbatim>\<open>Authenticate\<close> stores in the context); writers hold the headers, the status once it is written, the
  cookies, the body as the value given to the JSON encoder, and whether the handler panicked.

  The rate limiter library (\<^verbatim>\<open>golang.org/x/time/rate\<close>) is the record \<open>limiter_lib\<close>.
\<close>

section \<open>Requests and responses\<close>

record request =
  rq_Method :: string
  rq_Path :: string
  rq_Header :: "(string \<times> string) list"
  rq_Query :: "(string \<times> string) list"
  rq_PathValue :: "(string \<times> string) list"
  rq_Cookies :: "(string \<times> string) list"
  rq_RemoteAddr :: string
  rq_Body :: string
  rq_Principal :: "Principal option"

datatype out =
    OStr string | OInt int | OBool bool | OTime int | OArr "out list" | OObj "(string \<times> out) list" | ONull

record cookie =
  ck_Name :: string
  ck_Value :: string
  ck_Path :: string
  ck_Expires :: "int option"
  ck_MaxAge :: int
  ck_HttpOnly :: bool
  ck_Secure :: bool
  ck_SameSiteStrict :: bool

record writer =
  wr_Header :: "(string \<times> string) list"
  wr_Status :: "int option"
  wr_Cookies :: "cookie list"
  wr_Body :: "out list"
  wr_Panic :: bool

definition new_writer :: writer where
  "new_writer = \<lparr>wr_Header = [], wr_Status = None, wr_Cookies = [], wr_Body = [], wr_Panic = False\<rparr>"

definition get_value :: "(string \<times> string) list \<Rightarrow> string \<Rightarrow> string" where \<comment> \<open>\<open>Get\<close>: the first value, or \<open>""\<close>\<close>
  "get_value kvs k = (case map_of kvs k of None \<Rightarrow> '''' | Some v \<Rightarrow> v)"

definition Header_Set :: "string \<Rightarrow> string \<Rightarrow> writer \<Rightarrow> writer" where \<comment> \<open>no effect once the status is sent\<close>
  "Header_Set k v w =
     (if wr_Status w \<noteq> None then w
      else w\<lparr>wr_Header := (k, v) # filter (\<lambda>(q, _). q \<noteq> k) (wr_Header w)\<rparr>)"

definition WriteHeader :: "int \<Rightarrow> writer \<Rightarrow> writer" where
  "WriteHeader code w = (if wr_Status w \<noteq> None then w else w\<lparr>wr_Status := Some code\<rparr>)"

definition Encode :: "out \<Rightarrow> writer \<Rightarrow> writer" where
  "Encode v w = (let u = WriteHeader 200 w in u\<lparr>wr_Body := wr_Body u @ [v]\<rparr>)"

definition SetCookie :: "cookie \<Rightarrow> writer \<Rightarrow> writer" where
  "SetCookie c w = (if wr_Status w \<noteq> None then w else w\<lparr>wr_Cookies := wr_Cookies w @ [c]\<rparr>)"

type_synonym 's handler = "request \<Rightarrow> writer \<Rightarrow> 's \<Rightarrow> writer \<times> 's"

definition mw_writeError :: "int \<Rightarrow> string \<Rightarrow> writer \<Rightarrow> writer" where
  "mw_writeError code msg w =
     Encode (OObj [(''error'', OStr msg)]) (WriteHeader code (Header_Set ''Content-Type'' ''application/json'' w))"

section \<open>Authentication\<close>

definition Authenticate :: "(string \<Rightarrow> 's \<Rightarrow> Principal res \<times> 's) \<Rightarrow> 's handler \<Rightarrow> 's handler" where
  "Authenticate verifier nxt r w s =
     (let auth = get_value (rq_Header r) ''Authorization'' in
      if \<not> has_prefix auth ''Bearer '' then (mw_writeError 401 ''missing or malformed authorization header'' w, s)
      else case verifier (trim_prefix auth ''Bearer '') s of
        (Inl err, s') \<Rightarrow>
          (if errors_is err ErrTokenExpired then (mw_writeError 401 ''token expired'' w, s')
           else (mw_writeError 401 ''invalid token'' w, s'))
      | (Inr claims, s') \<Rightarrow> nxt (r\<lparr>rq_Principal := Some claims\<rparr>) w s')"

definition PrincipalFromContext :: "request \<Rightarrow> Principal option" where
  "PrincipalFromContext r = rq_Principal r"

section \<open>The client address\<close>

text \<open>\<^verbatim>\<open>net.ParseIP\<close> accepts dotted quads without leading zeros and RFC 4291 text without a zone.\<close>

definition ipv4_field :: "string \<Rightarrow> bool" where
  "ipv4_field f =
     (f \<noteq> [] \<and> length f \<le> 3 \<and> list_all is_dec f \<and> (length f = 1 \<or> hd f \<noteq> CHR ''0'') \<and> read_nat f \<le> 255)"

definition is_ipv4 :: "string \<Rightarrow> bool" where
  "is_ipv4 s = (let fs = split_char (CHR ''.'') s in length fs = 4 \<and> list_all ipv4_field fs)"

definition ipv6_group :: "string \<Rightarrow> bool" where
  "ipv6_group g = (g \<noteq> [] \<and> length g \<le> 4 \<and> list_all hex_char g)"

fun ipv6_groups :: "bool \<Rightarrow> string list \<Rightarrow> nat option" where
  \<comment> \<open>number of 16-bit fields; the last group may be an IPv4 address where the address ends\<close>
  "ipv6_groups final [] = Some 0"
| "ipv6_groups final [g] =
     (if ipv6_group g then Some 1 else if final \<and> is_ipv4 g then Some 2 else None)"
| "ipv6_groups final (g # h # gs) = (if ipv6_group g then map_option Suc (ipv6_groups final (h # gs)) else None)"

fun split_ellipsis :: "string \<Rightarrow> (string \<times> string) option" where \<comment> \<open>at the first \<open>::\<close>\<close>
  "split_ellipsis [] = None"
| "split_ellipsis [c] = None"
| "split_ellipsis (c # d # s) =
     (if c = CHR '':'' \<and> d = CHR '':'' then Some ([], s)
      else map_option (\<lambda>(a, b). (c # a, b)) (split_ellipsis (d # s)))"

definition fields_of :: "string \<Rightarrow> string list" where
  "fields_of s = (if s = [] then [] else split_char (CHR '':'') s)"

definition is_ipv6 :: "string \<Rightarrow> bool" where
  "is_ipv6 s =
     (case split_ellipsis s of
        None \<Rightarrow> ipv6_groups True (split_char (CHR '':'') s) = Some 8
      | Some (a, b) \<Rightarrow>
          (case (ipv6_groups False (fields_of a), ipv6_groups True (fields_of b)) of
             (Some m, Some n) \<Rightarrow> m + n \<le> 7
           | _ \<Rightarrow> False))"

definition ParseIP :: "string \<Rightarrow> bool" where \<comment> \<open>not nil\<close>
  "ParseIP s = (if List.member s (CHR '':'') then is_ipv6 s else is_ipv4 s)"

definition last_index :: "char \<Rightarrow> string \<Rightarrow> nat option" where
  "last_index c s =
     (if List.member s c then Some (length s - Suc (length (takeWhile (\<lambda>x. x \<noteq> c) (rev s)))) else None)"

definition SplitHostPort :: "string \<Rightarrow> string option" where \<comment> \<open>the host, or an error\<close>
  "SplitHostPort hp =
     (case last_index (CHR '':'') hp of
        None \<Rightarrow> None
      | Some i \<Rightarrow>
          (if hd hp = CHR ''['' then
             (if \<not> List.member hp (CHR '']'') then None
              else let e = length (takeWhile (\<lambda>c. c \<noteq> CHR '']'') hp) in
                if Suc e \<noteq> i then None
                else if List.member (drop 1 hp) (CHR ''['') \<or> List.member (drop (Suc e) hp) (CHR '']'') then None
                else Some (take (e - 1) (drop 1 hp)))
           else
             (let host = take i hp in
              if List.member host (CHR '':'') then None
              else if List.member hp (CHR ''['') \<or> List.member hp (CHR '']'') then None
              else Some host)))"

definition mw_clientIP :: "request \<Rightarrow> string" where
  "mw_clientIP r =
     (let xff = get_value (rq_Header r) ''X-Forwarded-For'';
          ip = trim_space (hd (split_n 2 (CHR '','') xff)) in
      if xff \<noteq> '''' \<and> ParseIP ip then ip
      else case SplitHostPort (rq_RemoteAddr r) of None \<Rightarrow> rq_RemoteAddr r | Some h \<Rightarrow> h)"

section \<open>Rate limiting\<close>

record ('f, 'l) limiter_lib =
  lim_New :: "'f \<Rightarrow> int \<Rightarrow> 'l"
  lim_Allow :: "int \<Rightarrow> 'l \<Rightarrow> bool \<times> 'l"

record 'l entry =
  en_limiter :: 'l
  en_lastSeen :: int

type_synonym 'l clients = "(string \<times> 'l entry) list"

definition getLimiter :: "('f, 'l) limiter_lib \<Rightarrow> 'f \<Rightarrow> int \<Rightarrow> int \<Rightarrow> string \<Rightarrow> 'l clients \<Rightarrow> 'l entry \<times> 'l clients" where
  "getLimiter lib rps burst now ip cl =
     (let e0 = (case map_of cl ip of Some e \<Rightarrow> e | None \<Rightarrow> \<lparr>en_limiter = lim_New lib rps burst, en_lastSeen = zero_time\<rparr>);
          e = e0\<lparr>en_lastSeen := now\<rparr>
      in (e, AList.update ip e cl))"

definition cleanup :: "int \<Rightarrow> 'l clients \<Rightarrow> 'l clients" where \<comment> \<open>one round of the background goroutine\<close>
  "cleanup now cl = filter (\<lambda>(ip, e). \<not> now - en_lastSeen e > 5 * minute) cl"

text \<open>The state of the whole chain: the limiter's map, the request log, and the state of the handlers inside.\<close>

record log_entry =
  le_method :: string
  le_path :: string
  le_status :: int
  le_ip :: string

record ('l, 's) site =
  si_clients :: "'l clients"
  si_log :: "log_entry list"
  si_inner :: 's

definition RateLimiter ::
  "('f, 'l) limiter_lib \<Rightarrow> 'f \<Rightarrow> int \<Rightarrow> int \<Rightarrow> ('l, 's) site handler \<Rightarrow> ('l, 's) site handler" where
  "RateLimiter lib rps burst now nxt r w st =
     (case getLimiter lib rps burst now (mw_clientIP r) (si_clients st) of (e, cl) \<Rightarrow>
      (case lim_Allow lib now (en_limiter e) of (ok, l) \<Rightarrow>
        (let st' = st\<lparr>si_clients := AList.update (mw_clientIP r) (e\<lparr>en_limiter := l\<rparr>) cl\<rparr> in
         if \<not> ok then (mw_writeError 429 ''rate limit exceeded'' (Header_Set ''Retry-After'' ''1'' w), st')
         else nxt r w st')))"

section \<open>Logging, headers, composition\<close>

text \<open>The wrapper \<^verbatim>\<open>responseWriter\<close> remembers the first status written; 200 if there is none.\<close>

record responseWriter =
  rw_inner :: writer
  rw_status :: int
  rw_written :: bool

definition responseWriter_WriteHeader :: "int \<Rightarrow> responseWriter \<Rightarrow> responseWriter" where
  "responseWriter_WriteHeader code rw =
     (let rw1 = (if \<not> rw_written rw then rw\<lparr>rw_status := code, rw_written := True\<rparr> else rw)
      in rw1\<lparr>rw_inner := WriteHeader code (rw_inner rw)\<rparr>)"

definition logged_status :: "writer \<Rightarrow> int" where
  "logged_status w = (case wr_Status w of None \<Rightarrow> 200 | Some c \<Rightarrow> c)"

definition RequestLogger :: "('l, 's) site handler \<Rightarrow> ('l, 's) site handler" where
  "RequestLogger nxt r w st =
     (case nxt r w st of (w', st') \<Rightarrow>
        if wr_Panic w' then (w', st')
        else (w', st'\<lparr>si_log := si_log st' @ [\<lparr>le_method = rq_Method r, le_path = rq_Path r,
                         le_status = logged_status w', le_ip = mw_clientIP r\<rparr>]\<rparr>))"

definition SecurityHeaders :: "'s handler \<Rightarrow> 's handler" where
  "SecurityHeaders nxt r w s =
     nxt r (Header_Set ''Content-Security-Policy'' (''default-src '' @ [CHR 0x27] @ ''none'' @ [CHR 0x27])
       (Header_Set ''Referrer-Policy'' ''strict-origin-when-cross-origin''
         (Header_Set ''X-Frame-Options'' ''DENY'' (Header_Set ''X-Content-Type-Options'' ''nosniff'' w)))) s"

fun chain_loop :: "('h \<Rightarrow> 'h) list \<Rightarrow> nat \<Rightarrow> 'h \<Rightarrow> 'h" where \<comment> \<open>\<open>i\<close> runs from the last index down to 0\<close>
  "chain_loop ms 0 final = final"
| "chain_loop ms (Suc i) final = chain_loop ms i ((ms ! i) final)"

definition Chain :: "('h \<Rightarrow> 'h) list \<Rightarrow> 'h \<Rightarrow> 'h" where
  "Chain ms final = chain_loop ms (length ms) final"

lemma Chain_foldr: "Chain ms h = foldr (\<lambda>m f. m f) ms h"
proof -
  have "i \<le> length ms \<Longrightarrow> chain_loop ms i h = foldr (\<lambda>m f. m f) (take i ms) h" for i h
    by (induction i arbitrary: h) (simp_all add: take_Suc_conv_app_nth)
  from this [of "length ms" h] show ?thesis by (simp add: Chain_def)
qed

section \<open>The sharded lock\<close>

text \<open>The hash runs over the bytes of an ASCII key, in 64-bit arithmetic; Go's remainder truncates.\<close>

fun shard_hash :: "string \<Rightarrow> int \<Rightarrow> int" where
  "shard_hash [] h = h"
| "shard_hash (c # key) h = shard_hash key (wrap64 (wrap64 (h * 31) + int (byte c)))"

definition go_rem :: "int \<Rightarrow> int \<Rightarrow> int" where
  "go_rem a n = (if a < 0 then - ((- a) mod n) else a mod n)"

definition shard :: "int \<Rightarrow> string \<Rightarrow> int" where
  "shard n key = (let idx = go_rem (shard_hash key 0) n in if idx < 0 then wrap64 (- idx) else idx)"

text \<open>
  \<open>held\<close> are the shards whose token is out, with the goroutine that took it. \<open>Request i k\<close> is the \<open>i\<close>th request,
  from the address \<open>k\<close>, and takes the token of its address's shard; the cleaner takes all tokens in ascending
  order and puts them back in that order.
\<close>

datatype who = Request nat string | Cleaner

record lock_state =
  held :: "int \<Rightarrow> who option"
  inside :: "who list" \<comment> \<open>between the last receive of the lock and the first send of the unlock\<close>
  releasing :: bool \<comment> \<open>the cleaner is inside \<^verbatim>\<open>unlockAll\<close>\<close>

definition unlocked :: lock_state where
  "unlocked = \<lparr>held = (\<lambda>_. None), inside = [], releasing = False\<rparr>"

inductive lock_step :: "int \<Rightarrow> lock_state \<Rightarrow> lock_state \<Rightarrow> bool" for n where
  lock: "held st (shard n k) = None \<Longrightarrow>
    lock_step n st (st\<lparr>held := (held st)(shard n k \<mapsto> Request i k), inside := Request i k # inside st\<rparr>)"
| unlock: "Request i k \<in> set (inside st) \<Longrightarrow>
    lock_step n st (st\<lparr>held := (held st)(shard n k := None), inside := removeAll (Request i k) (inside st)\<rparr>)"
| lock_next: "0 \<le> i \<Longrightarrow> i < n \<Longrightarrow> \<forall>j. 0 \<le> j \<and> j < i \<longrightarrow> held st j = Some Cleaner \<Longrightarrow> held st i = None \<Longrightarrow>
    Cleaner \<notin> set (inside st) \<Longrightarrow> \<not> releasing st \<Longrightarrow>
    lock_step n st (st\<lparr>held := (held st)(i \<mapsto> Cleaner), inside := (if i = n - 1 then Cleaner # inside st else inside st)\<rparr>)"
| unlock_next: "0 \<le> i \<Longrightarrow> i < n \<Longrightarrow> \<forall>j. 0 \<le> j \<and> j < i \<longrightarrow> held st j \<noteq> Some Cleaner \<Longrightarrow> held st i = Some Cleaner \<Longrightarrow>
    Cleaner \<in> set (inside st) \<or> releasing st \<Longrightarrow>
    lock_step n st (st\<lparr>held := (held st)(i := None), inside := removeAll Cleaner (inside st), releasing := (i < n - 1)\<rparr>)"

inductive lock_reach :: "int \<Rightarrow> lock_state \<Rightarrow> bool" for n where
  start: "lock_reach n unlocked"
| step: "lock_reach n st \<Longrightarrow> lock_step n st st' \<Longrightarrow> lock_reach n st'"

lemma wrap64_range: "- (2 ^ 63) \<le> wrap64 x \<and> wrap64 x < 2 ^ 63"
  by (simp add: wrap64_def)

lemma go_rem_bounds: "0 < n \<Longrightarrow> - n < go_rem a n \<and> go_rem a n < n"
proof -
  assume n: "0 < n"
  have "0 \<le> - a mod n" "- a mod n < n" "0 \<le> a mod n" "a mod n < n"
    using n by simp_all
  then have "- n < - (- a mod n)" "- (- a mod n) < n" "- n < a mod n" using n by linarith+
  then show ?thesis using \<open>a mod n < n\<close> unfolding go_rem_def by (cases "a < 0") auto
qed

lemma shard_bounds: "0 < n \<Longrightarrow> n < 2 ^ 63 \<Longrightarrow> 0 \<le> shard n key \<and> shard n key < n"
  using go_rem_bounds [of n "shard_hash key 0"] by (auto simp: shard_def Let_def wrap64_id)

text \<open>A request is inside only while its shard's token is its own; the cleaner only while it has all.\<close>

definition lock_inv :: "int \<Rightarrow> lock_state \<Rightarrow> bool" where
  "lock_inv n st \<longleftrightarrow>
     (\<forall>i k. Request i k \<in> set (inside st) \<longrightarrow> held st (shard n k) = Some (Request i k)) \<and>
     (Cleaner \<in> set (inside st) \<longrightarrow> (\<forall>i. 0 \<le> i \<and> i < n \<longrightarrow> held st i = Some Cleaner))"

lemma lock_inv_reach:
  assumes "0 < n" "n < 2 ^ 63"
  shows "lock_reach n st \<Longrightarrow> lock_inv n st"
proof (induction rule: lock_reach.induct)
  case start
  show ?case by (simp add: lock_inv_def unlocked_def)
next
  case (step st st')
  have b: "0 \<le> shard n k \<and> shard n k < n" for k using assms by (rule shard_bounds)
  from step.hyps(2) step.IH show ?case
  proof (cases rule: lock_step.cases)
    case (lock k i)
    then show ?thesis using step.IH b [of k] by (fastforce simp: lock_inv_def)
  next
    case (unlock i k)
    have "held st' (shard n l) = Some (Request j l)" if "Request j l \<in> set (inside st')" for j l
    proof -
      from that unlock step.IH have "held st (shard n l) = Some (Request j l)" "Request j l \<noteq> Request i k"
        by (auto simp: lock_inv_def)
      moreover have "held st (shard n k) = Some (Request i k)"
        using unlock step.IH by (simp add: lock_inv_def)
      ultimately have "shard n l \<noteq> shard n k" by auto
      then show ?thesis using unlock \<open>held st (shard n l) = _\<close> by simp
    qed
    moreover have "Cleaner \<notin> set (inside st')"
      using unlock step.IH b [of k] by (auto simp: lock_inv_def)
    ultimately show ?thesis by (simp add: lock_inv_def)
  next
    case (lock_next i)
    have "held st j = Some Cleaner" if "0 \<le> j" "j < n" "i = n - 1" "j \<noteq> i" for j
      using lock_next(4) that by auto
    then show ?thesis using lock_next step.IH by (fastforce simp: lock_inv_def)
  next
    case (unlock_next i)
    then show ?thesis using step.IH by (fastforce simp: lock_inv_def)
  qed
qed

lemma two_locks:
  assumes "shard n k \<noteq> shard n l"
  shows "\<exists>st. lock_reach n st \<and> Request i k \<in> set (inside st) \<and> Request j l \<in> set (inside st)"
proof -
  let ?a = "unlocked\<lparr>held := (held unlocked)(shard n k \<mapsto> Request i k), inside := Request i k # inside unlocked\<rparr>"
  let ?b = "?a\<lparr>held := (held ?a)(shard n l \<mapsto> Request j l), inside := Request j l # inside ?a\<rparr>"
  have "lock_step n unlocked ?a" by (rule lock_step.lock) (simp_all add: unlocked_def)
  then have a: "lock_reach n ?a" by (rule lock_reach.step [OF lock_reach.start])
  have "lock_step n ?a ?b" using assms by (intro lock_step.lock) (auto simp: unlocked_def)
  with a have "lock_reach n ?b" by (rule lock_reach.step)
  then show ?thesis by (intro exI [of _ ?b]) simp
qed

text \<open>the shard index that the rate limiter's lock computes from a client address is always a
  valid index of its channel slice, for every address and every wrap-around of the hash.\<close>

theorem shard_index_in_range:
  assumes "0 < n" "n < 2 ^ 63"
  shows "0 \<le> shard n key \<and> shard n key < n"
  using assms by (rule shard_bounds)

theorem shard_index_in_range_witness: "0 \<le> shard 32 ''192.0.2.1'' \<and> shard 32 ''192.0.2.1'' < 32"
  by (rule shard_index_in_range) simp_all

text \<open>C40: the lock of the rate limiter excludes the requests of one shard (and so of one address) from each other and
  every request from the cleaner, but two requests whose addresses fall in different shards can be inside
  together - inside the section that reads and writes the one map shared by all shards.\<close>

theorem limiter_lock_is_per_shard:
  assumes "0 < n" "n < 2 ^ 63" "(i, k) \<noteq> (j, l)"
  shows "((\<exists>st. lock_reach n st \<and> Request i k \<in> set (inside st) \<and> Request j l \<in> set (inside st))
            \<longleftrightarrow> shard n k \<noteq> shard n l) \<and>
         (\<forall>st. lock_reach n st \<and> Cleaner \<in> set (inside st) \<longrightarrow> Request i k \<notin> set (inside st))"
proof (intro conjI allI impI iffI)
  assume "\<exists>st. lock_reach n st \<and> Request i k \<in> set (inside st) \<and> Request j l \<in> set (inside st)"
  then obtain st where st: "lock_reach n st" "Request i k \<in> set (inside st)" "Request j l \<in> set (inside st)"
    by blast
  from lock_inv_reach [OF assms(1,2) st(1)] have "lock_inv n st" .
  then have "held st (shard n k) = Some (Request i k)" "held st (shard n l) = Some (Request j l)"
    using st by (simp_all add: lock_inv_def)
  then show "shard n k \<noteq> shard n l" using assms(3) by auto
next
  assume "shard n k \<noteq> shard n l"
  then show "\<exists>st. lock_reach n st \<and> Request i k \<in> set (inside st) \<and> Request j l \<in> set (inside st)"
    by (rule two_locks)
next
  fix st assume st: "lock_reach n st \<and> Cleaner \<in> set (inside st)"
  from lock_inv_reach [OF assms(1,2) conjunct1 [OF st]] have "lock_inv n st" .
  then show "Request i k \<notin> set (inside st)"
    using st shard_bounds [OF assms(1,2), of k] by (auto simp: lock_inv_def)
qed

theorem limiter_lock_is_per_shard_witness:
  "\<exists>st. lock_reach 32 st \<and> Request 1 ''192.0.2.1'' \<in> set (inside st) \<and> Request 2 ''192.0.2.2'' \<in> set (inside st)"
proof -
  have "shard 32 ''192.0.2.1'' \<noteq> shard 32 ''192.0.2.2''" by code_simp
  with limiter_lock_is_per_shard [of 32 1 "''192.0.2.1''" 2 "''192.0.2.2''"] show ?thesis by simp
qed

end
