(* ===== verification/Http.thy ===== *)
theory Http
  imports Service_Auth Middleware
begin

text \<open>
  \<^verbatim>\<open>internal/handler/http/handler.go\<close>: one definition per handler, its decoding, cookies and error
  mapping, and the route table of \<^verbatim>\<open>RegisterRoutes\<close> on Go's pattern multiplexer.

  A handler runs on the state \<open>hstate\<close>: the database and the session ids whose \<^verbatim>\<open>Touch\<close> goroutine has
  been started. The clock readings, random bytes, UUID and salt of one request are its \<open>ambient\<close>. Requests
  are run one after another here, so the database that an operation has read is the one it writes; the
  services' theories treat interleaved operations. A dereferenced nil session is a panic, \<open>wr_Panic\<close>.
  Paths are as \<^verbatim>\<open>net/http\<close> leaves them after cleaning and unescaping; the text bodies of its own 404 and
  405 answers, and log lines, are left out.
\<close>

section \<open>The handler's parts\<close>

record 'db Handler =
  hd_svc :: "'db AuthService"
  hd_svcAuth :: "'db ServiceAuthService"
  hd_cfg :: SessionConfig
  hd_sessions :: "'db session_repo"
  hd_store :: "'db \<Rightarrow> unit res"
  hd_bc :: bcrypt
  hd_sha256 :: "string \<Rightarrow> string"

record ambient =
  am_clk :: "nat \<Rightarrow> int"
  am_ent :: entropy
  am_uuid :: string
  am_salt :: string

record 'db hstate =
  hs_db :: 'db
  hs_touch :: "string list"

definition Handler_New ::
  "'db AuthService \<Rightarrow> 'db ServiceAuthService \<Rightarrow> SessionConfig \<Rightarrow> 'db session_repo \<Rightarrow> ('db \<Rightarrow> unit res) \<Rightarrow>
     bcrypt \<Rightarrow> (string \<Rightarrow> string) \<Rightarrow> 'db Handler" where
  "Handler_New svc svcAuth cfg sessions store bc sha256 =
     \<lparr>hd_svc = svc, hd_svcAuth = svcAuth, hd_cfg = cfg, hd_sessions = sessions, hd_store = store,
      hd_bc = bc, hd_sha256 = sha256\<rparr>"

section \<open>Responses\<close>

definition respond :: "int \<Rightarrow> out \<Rightarrow> writer \<Rightarrow> writer" where
  "respond status v w = Encode v (WriteHeader status (Header_Set ''Content-Type'' ''application/json'' w))"

definition writeError :: "int \<Rightarrow> string \<Rightarrow> writer \<Rightarrow> writer" where
  "writeError status msg w = respond status (OObj [(''error'', OStr msg)]) w"

definition handleServiceError :: "goerr \<Rightarrow> writer \<Rightarrow> writer" where
  "handleServiceError err w =
     (if errors_is err ErrUserNotFound then writeError 404 ''user not found'' w
      else if errors_is err ErrUserAlreadyExists then writeError 409 ''user already exists'' w
      else if errors_is err ErrInvalidCredentials then writeError 401 ''invalid credentials'' w
      else if errors_is err ErrInvalidInput then writeError 400 ''invalid input'' w
      else if errors_is err ErrUnauthorized then writeError 403 ''forbidden'' w
      else if errors_is err ErrTokenExpired then writeError 401 ''token expired'' w
      else if errors_is err ErrTokenInvalid then writeError 401 ''invalid token'' w
      else if errors_is err ErrRateLimited then writeError 429 ''rate limit exceeded'' w
      else writeError 500 ''internal server error'' w)"

definition user_out :: "User \<Rightarrow> out" where \<comment> \<open>the struct tags of \<open>User\<close>\<close>
  "user_out u =
     OObj [(''id'', OStr (usr_ID u)), (''first_name'', OStr (usr_FirstName u)), (''last_name'', OStr (usr_LastName u)),
       (''nickname'', OStr (usr_Nickname u)), (''email'', OStr (usr_Email u)), (''country'', OStr (usr_Country u)),
       (''active'', OBool (usr_Active u)), (''created_at'', OTime (usr_CreatedAt u)),
       (''updated_at'', OTime (usr_UpdatedAt u))]"

definition list_out :: "ListResult \<Rightarrow> out" where \<comment> \<open>\<open>ListResult\<close> has no tags\<close>
  "list_out l =
     OObj [(''Users'', OArr (map user_out (lr_Users l))), (''Total'', OInt (lr_Total l)), (''Page'', OInt (lr_Page l)),
       (''Pages'', OInt (lr_Pages l))]"

definition strs_out :: "string list \<Rightarrow> out" where \<comment> \<open>a nil slice is \<open>null\<close>\<close>
  "strs_out ss = (if ss = [] then ONull else OArr (map OStr ss))"

definition account_out :: "ServiceAccount \<Rightarrow> out" where \<comment> \<open>\<open>ServiceAccount\<close> has no tags\<close>
  "account_out a =
     OObj [(''ID'', OStr (sa_ID a)), (''ClientID'', OStr (sa_ClientID a)), (''Name'', OStr (sa_Name a)),
       (''SecretHash'', OStr (sa_SecretHash a)), (''ActorType'', OStr (sa_ActorType a)),
       (''Permissions'', strs_out (sa_Permissions a)), (''Active'', OBool (sa_Active a)),
       (''CreatedAt'', OTime (sa_CreatedAt a)), (''UpdatedAt'', OTime (sa_UpdatedAt a))]"

section \<open>Zookies, cookies, addresses\<close>

definition zookieHeader :: string where
  "zookieHeader = ''X-Zookie''"

definition readZookie :: "request \<Rightarrow> Zookie option" where
  "readZookie r =
     (let v = get_value (rq_Header r) zookieHeader in
      if v = '''' then None else Some \<lparr>zk_Token = v\<rparr>)"

definition setZookieHeader :: "Zookie \<Rightarrow> writer \<Rightarrow> writer" where
  "setZookieHeader z w = (if HasToken z then Header_Set zookieHeader (zk_Token z) w else w)"

definition refreshCookieName :: string where
  "refreshCookieName = ''rtk''"

definition refreshCookiePath :: string where
  "refreshCookiePath = ''/auth/refresh''"

definition setRefreshCookie :: "int \<Rightarrow> string \<Rightarrow> int \<Rightarrow> writer \<Rightarrow> writer" where
  "setRefreshCookie now rawToken expiresAt w =
     SetCookie \<lparr>ck_Name = refreshCookieName, ck_Value = rawToken, ck_Path = refreshCookiePath,
       ck_Expires = Some expiresAt, ck_MaxAge = duration_seconds (expiresAt - now), ck_HttpOnly = True,
       ck_Secure = True, ck_SameSiteStrict = True\<rparr> w"

definition clearRefreshCookie :: "writer \<Rightarrow> writer" where
  "clearRefreshCookie w =
     SetCookie \<lparr>ck_Name = refreshCookieName, ck_Value = '''', ck_Path = refreshCookiePath,
       ck_Expires = None, ck_MaxAge = -1, ck_HttpOnly = True, ck_Secure = True, ck_SameSiteStrict = True\<rparr> w"

definition UserAgent :: "request \<Rightarrow> string" where
  "UserAgent r = get_value (rq_Header r) ''User-Agent''"

definition clientIP :: "request \<Rightarrow> string" where
  "clientIP r =
     (let xff = get_value (rq_Header r) ''X-Forwarded-For'';
          ip = trim_space (hd (split_n 2 (CHR '','') xff)) in
      if xff \<noteq> '''' \<and> ip \<noteq> '''' then ip else rq_RemoteAddr r)"

section \<open>Request bodies\<close>

definition max_body :: nat where
  "max_body = 1048576"

definition decode_body ::
  "(string \<Rightarrow> json \<Rightarrow> 'a \<Rightarrow> 'a option) \<Rightarrow> 'a \<Rightarrow> request \<Rightarrow> writer \<Rightarrow> 'a option \<times> writer" where
  "decode_body f zero r w =
     (case Decode (take max_body (rq_Body r)) of
        None \<Rightarrow> (None, writeError 400 ''malformed request body'' w)
      | Some j \<Rightarrow>
          (case into_struct f zero j of
             None \<Rightarrow> (None, writeError 400 ''malformed request body'' w)
           | Some x \<Rightarrow> (Some x, w)))"

definition create_user_field :: "string \<Rightarrow> json \<Rightarrow> CreateUserInput \<Rightarrow> CreateUserInput option" where
  "create_user_field k j x =
     (if fold_eq k ''first_name'' then to_str j (\<lambda>s. x\<lparr>cui_FirstName := s\<rparr>) x
      else if fold_eq k ''last_name'' then to_str j (\<lambda>s. x\<lparr>cui_LastName := s\<rparr>) x
      else if fold_eq k ''nickname'' then to_str j (\<lambda>s. x\<lparr>cui_Nickname := s\<rparr>) x
      else if fold_eq k ''password'' then to_str j (\<lambda>s. x\<lparr>cui_Password := s\<rparr>) x
      else if fold_eq k ''email'' then to_str j (\<lambda>s. x\<lparr>cui_Email := s\<rparr>) x
      else if fold_eq k ''country'' then to_str j (\<lambda>s. x\<lparr>cui_Country := s\<rparr>) x
      else None)"

definition zero_create_user :: CreateUserInput where
  "zero_create_user =
     \<lparr>cui_FirstName = '''', cui_LastName = '''', cui_Nickname = '''', cui_Password = '''', cui_Email = '''', cui_Country = ''''\<rparr>"

definition update_user_field :: "string \<Rightarrow> json \<Rightarrow> UpdateUserInput \<Rightarrow> UpdateUserInput option" where
  "update_user_field k j x =
     (if fold_eq k ''first_name'' then to_strptr j (\<lambda>p. x\<lparr>uui_FirstName := p\<rparr>)
      else if fold_eq k ''last_name'' then to_strptr j (\<lambda>p. x\<lparr>uui_LastName := p\<rparr>)
      else if fold_eq k ''nickname'' then to_strptr j (\<lambda>p. x\<lparr>uui_Nickname := p\<rparr>)
      else if fold_eq k ''country'' then to_strptr j (\<lambda>p. x\<lparr>uui_Country := p\<rparr>)
      else None)"

definition zero_update_user :: UpdateUserInput where
  "zero_update_user = \<lparr>uui_FirstName = None, uui_LastName = None, uui_Nickname = None, uui_Country = None\<rparr>"

definition login_field :: "string \<Rightarrow> json \<Rightarrow> LoginInput \<Rightarrow> LoginInput option" where
  "login_field k j x =
     (if fold_eq k ''email'' then to_str j (\<lambda>s. x\<lparr>li_Email := s\<rparr>) x
      else if fold_eq k ''password'' then to_str j (\<lambda>s. x\<lparr>li_Password := s\<rparr>) x
      else None)"

definition zero_login :: LoginInput where
  "zero_login = \<lparr>li_Email = '''', li_Password = ''''\<rparr>"

text \<open>The next three structs have no tags: their members are the Go field names.\<close>

definition activation_field :: "string \<Rightarrow> json \<Rightarrow> ContextActivationInput \<Rightarrow> ContextActivationInput option" where
  "activation_field k j x =
     (if fold_eq k ''UserID'' then to_str j (\<lambda>s. x\<lparr>cai_UserID := s\<rparr>) x
      else if fold_eq k ''Nickname'' then to_str j (\<lambda>s. x\<lparr>cai_Nickname := s\<rparr>) x
      else if fold_eq k ''Email'' then to_str j (\<lambda>s. x\<lparr>cai_Email := s\<rparr>) x
      else if fold_eq k ''ActorID'' then to_str j (\<lambda>s. x\<lparr>cai_ActorID := s\<rparr>) x
      else if fold_eq k ''ActorType'' then to_str j (\<lambda>s. x\<lparr>cai_ActorType := s\<rparr>) x
      else if fold_eq k ''Permissions'' then to_strs j (\<lambda>ss. x\<lparr>cai_Permissions := ss\<rparr>)
      else if fold_eq k ''DelegatedPermissions'' then to_strs j (\<lambda>ss. x\<lparr>cai_DelegatedPermissions := ss\<rparr>)
      else if fold_eq k ''PolicyGroups'' then to_strs j (\<lambda>ss. x\<lparr>cai_PolicyGroups := ss\<rparr>)
      else None)"

definition zero_activation :: ContextActivationInput where
  "zero_activation =
     \<lparr>cai_UserID = '''', cai_Nickname = '''', cai_Email = '''', cai_ActorID = '''', cai_ActorType = '''',
      cai_Permissions = [], cai_DelegatedPermissions = [], cai_PolicyGroups = []\<rparr>"

definition create_account_field :: "string \<Rightarrow> json \<Rightarrow> CreateServiceAccountInput \<Rightarrow> CreateServiceAccountInput option" where
  "create_account_field k j x =
     (if fold_eq k ''ClientID'' then to_str j (\<lambda>s. x\<lparr>csi_ClientID := s\<rparr>) x
      else if fold_eq k ''Name'' then to_str j (\<lambda>s. x\<lparr>csi_Name := s\<rparr>) x
      else if fold_eq k ''ClientSecret'' then to_str j (\<lambda>s. x\<lparr>csi_ClientSecret := s\<rparr>) x
      else if fold_eq k ''ActorType'' then to_str j (\<lambda>s. x\<lparr>csi_ActorType := s\<rparr>) x
      else if fold_eq k ''Permissions'' then to_strs j (\<lambda>ss. x\<lparr>csi_Permissions := ss\<rparr>)
      else None)"

definition zero_create_account :: CreateServiceAccountInput where
  "zero_create_account =
     \<lparr>csi_ClientID = '''', csi_Name = '''', csi_ClientSecret = '''', csi_ActorType = '''', csi_Permissions = []\<rparr>"

definition service_login_field :: "string \<Rightarrow> json \<Rightarrow> ServiceLoginInput \<Rightarrow> ServiceLoginInput option" where
  "service_login_field k j x =
     (if fold_eq k ''ClientID'' then to_str j (\<lambda>s. x\<lparr>sli_ClientID := s\<rparr>) x
      else if fold_eq k ''ClientSecret'' then to_str j (\<lambda>s. x\<lparr>sli_ClientSecret := s\<rparr>) x
      else None)"

definition zero_service_login :: ServiceLoginInput where
  "zero_service_login = \<lparr>sli_ClientID = '''', sli_ClientSecret = ''''\<rparr>"

section \<open>Public endpoints\<close>

type_synonym 'db http = "request \<Rightarrow> writer \<Rightarrow> 'db hstate \<Rightarrow> writer \<times> 'db hstate"

definition after :: "nat \<Rightarrow> ambient \<Rightarrow> nat \<Rightarrow> int" where \<comment> \<open>the clock readings from the \<open>n\<close>th on\<close>
  "after n a i = am_clk a (n + i)"

definition panic :: "writer \<Rightarrow> writer" where
  "panic w = w\<lparr>wr_Panic := True\<rparr>"

definition expires_in :: "'db Handler \<Rightarrow> out" where
  "expires_in h = OInt (duration_seconds (accessTTL (hd_cfg h)))"

definition Handler_register :: "'db Handler \<Rightarrow> ambient \<Rightarrow> 'db http" where
  "Handler_register h a r w s =
     (case decode_body create_user_field zero_create_user r w of
        (None, w') \<Rightarrow> (w', s)
      | (Some input, w') \<Rightarrow>
          (case Auth_Register (hd_svc h) (hd_bc h) (am_salt a) (am_clk a 1) (am_uuid a) input (hs_db s) of
             (Inl err, db) \<Rightarrow> (handleServiceError err w', s\<lparr>hs_db := db\<rparr>)
           | (Inr (user, zookie), db) \<Rightarrow>
               (respond 201 (OObj [(''user'', user_out user), (''zookie'', OStr (zk_Token zookie))])
                  (setZookieHeader zookie w'), s\<lparr>hs_db := db\<rparr>)))"

definition Handler_login :: "'db Handler \<Rightarrow> ambient \<Rightarrow> 'db http" where
  "Handler_login h a r w s =
     (case decode_body login_field zero_login r w of
        (None, w') \<Rightarrow> (w', s)
      | (Some input, w') \<Rightarrow>
          (case fst (Auth_Login (hd_svc h) (hd_bc h) input (hs_db s)) of
             Inl err \<Rightarrow> (handleServiceError err w', s)
           | Inr user \<Rightarrow>
               (case Session_Create (hd_sha256 h) (hd_cfg h) (hd_sessions h) (after 1 a) (am_ent a)
                       \<lparr>csn_Kind = PrincipalKindUser, csn_UserID = usr_ID user, csn_ClientID = '''', csn_ActorID = '''',
                        csn_ActorType = '''', csn_Permissions = [], csn_DelegatedPermissions = [],
                        csn_PolicyGroups = [], csn_PermissionVersion = 0, csn_UserAgent = UserAgent r,
                        csn_IPAddress = clientIP r\<rparr> (hs_db s) of
                  (Inl err, db) \<Rightarrow> (writeError 500 ''could not create session'' w', s\<lparr>hs_db := db\<rparr>)
                | (Inr out, db) \<Rightarrow>
                    (case cso_Session out of
                       None \<Rightarrow> (panic w', s\<lparr>hs_db := db\<rparr>)
                     | Some sess \<Rightarrow>
                         (respond 200 (OObj [(''access_token'', OStr (cso_AccessToken out)), (''expires_in'', expires_in h)])
                            (setRefreshCookie (am_clk a 9) (cso_RefreshToken out) (ses_RefreshExpiresAt sess) w'),
                          s\<lparr>hs_db := db\<rparr>)))))"

definition Handler_serviceLogin :: "'db Handler \<Rightarrow> ambient \<Rightarrow> 'db http" where
  "Handler_serviceLogin h a r w s =
     (case decode_body service_login_field zero_service_login r w of
        (None, w') \<Rightarrow> (w', s)
      | (Some input, w') \<Rightarrow>
          (case fst (ServiceAuth_Login (hd_svcAuth h) (hd_bc h) input (hs_db s)) of
             Inl err \<Rightarrow> (handleServiceError err w', s)
           | Inr acct \<Rightarrow>
               (case Session_Create (hd_sha256 h) (hd_cfg h) (hd_sessions h) (after 1 a) (am_ent a)
                       \<lparr>csn_Kind = PrincipalKindService, csn_UserID = '''', csn_ClientID = sa_ClientID acct,
                        csn_ActorID = '''', csn_ActorType = sa_ActorType acct, csn_Permissions = sa_Permissions acct,
                        csn_DelegatedPermissions = [], csn_PolicyGroups = [], csn_PermissionVersion = 0,
                        csn_UserAgent = UserAgent r, csn_IPAddress = clientIP r\<rparr> (hs_db s) of
                  (Inl err, db) \<Rightarrow> (writeError 500 ''could not create session'' w', s\<lparr>hs_db := db\<rparr>)
                | (Inr out, db) \<Rightarrow>
                    (case cso_Session out of
                       None \<Rightarrow> (panic w', s\<lparr>hs_db := db\<rparr>)
                     | Some sess \<Rightarrow>
                         (respond 200 (OObj [(''access_token'', OStr (cso_AccessToken out)), (''expires_in'', expires_in h)])
                            (setRefreshCookie (am_clk a 9) (cso_RefreshToken out) (ses_RefreshExpiresAt sess) w'),
                          s\<lparr>hs_db := db\<rparr>)))))"

definition Handler_refresh :: "'db Handler \<Rightarrow> ambient \<Rightarrow> 'db http" where
  "Handler_refresh h a r w s =
     (case map_of (rq_Cookies r) refreshCookieName of
        None \<Rightarrow> (writeError 401 ''no refresh token'' w, s)
      | Some cookie \<Rightarrow>
          (case Refresh (hd_sha256 h) (hd_cfg h) (hd_sessions h) (after 1 a) (am_ent a)
                  \<lparr>rin_RawRefreshToken = cookie, rin_UserAgent = UserAgent r, rin_IPAddress = clientIP r\<rparr>
                  (hs_db s) (hs_db s) (hs_db s) of
             (Inl err, db) \<Rightarrow>
               ((if errors_is err ErrRefreshReplayed
                 then writeError 401 ''session compromised; please log in again'' (clearRefreshCookie w)
                 else if errors_is err ErrRefreshExpired
                 then writeError 401 ''session expired; please log in again'' (clearRefreshCookie w)
                 else writeError 401 ''invalid refresh token'' w), s\<lparr>hs_db := db\<rparr>)
           | (Inr out, db) \<Rightarrow>
               (case rout_Session out of
                  None \<Rightarrow> (panic w, s\<lparr>hs_db := db\<rparr>)
                | Some sess \<Rightarrow>
                    (respond 200 (OObj [(''access_token'', OStr (rout_AccessToken out)), (''expires_in'', expires_in h)])
                       (setRefreshCookie (am_clk a 9) (rout_RefreshToken out) (ses_RefreshExpiresAt sess) w),
                     s\<lparr>hs_db := db\<rparr>))))"

text \<open>\<^verbatim>\<open>/auth/verify\<close> answers the gateway with identity headers.\<close>

definition set_strs :: "string \<Rightarrow> string list \<Rightarrow> writer \<Rightarrow> writer" where
  "set_strs k ss w = (if length ss > 0 then Header_Set k (str_join '','' ss) w else w)"

definition identity_headers :: "Principal \<Rightarrow> writer \<Rightarrow> writer" where
  "identity_headers p w =
     (let w1 = Header_Set ''X-Principal-Kind'' (prin_Kind p) w;
          w2 = (if prin_Kind p = PrincipalKindUser
                then Header_Set ''X-Actor-Type'' (prin_ActorType p)
                       (Header_Set ''X-Actor-Id'' (prin_ActorID p) (Header_Set ''X-User-Id'' (prin_UserID p) w1))
                else if prin_Kind p = PrincipalKindService
                then Header_Set ''X-Service-Name'' (prin_Name p) (Header_Set ''X-Client-Id'' (prin_ClientID p) w1)
                else w1)
      in set_strs ''X-Policy-Groups'' (prin_PolicyGroups p)
           (set_strs ''X-Delegated-Permissions'' (prin_DelegatedPermissions p)
             (set_strs ''X-Permissions'' (prin_Permissions p) w2)))"

definition session_verifier :: "'db Handler \<Rightarrow> ambient \<Rightarrow> string \<Rightarrow> 'db hstate \<Rightarrow> Principal res \<times> 'db hstate" where
  "session_verifier h a tok s =
     (case VerifyToken (hd_sha256 h) (hd_sessions h) (am_clk a 0) tok (hs_db s) of
        (res, ts) \<Rightarrow> (res, s\<lparr>hs_touch := hs_touch s @ ts\<rparr>))"

definition Handler_verify :: "'db Handler \<Rightarrow> ambient \<Rightarrow> 'db http" where
  "Handler_verify h a r w s =
     (let auth = get_value (rq_Header r) ''Authorization'' in
      if \<not> has_prefix auth ''Bearer '' then (WriteHeader 401 w, s)
      else case session_verifier h a (trim_prefix auth ''Bearer '') s of
        (Inl err, s') \<Rightarrow> (WriteHeader 401 w, s')
      | (Inr prin, s') \<Rightarrow> (WriteHeader 200 (identity_headers prin w), s'))"

definition Handler_health :: "'db Handler \<Rightarrow> ambient \<Rightarrow> 'db http" where
  "Handler_health h a r w s =
     (respond 200 (OObj [(''status'', OStr ''ok''), (''time'', OTime (trunc_sec (am_clk a 1)))]) w, s)"

definition Handler_ready :: "'db Handler \<Rightarrow> 'db http" where
  "Handler_ready h r w s =
     (case hd_store h (hs_db s) of
        Inl err \<Rightarrow> (respond 503 (OObj [(''status'', OStr ''not ready'')]) w, s)
      | Inr _ \<Rightarrow> (respond 200 (OObj [(''status'', OStr ''ready'')]) w, s))"

section \<open>Protected endpoints\<close>

definition Handler_getUser :: "'db Handler \<Rightarrow> 'db http" where
  "Handler_getUser h r w s =
     (case Auth_GetUser (hd_svc h) (get_value (rq_PathValue r) ''id'') (readZookie r) (hs_db s) of
        Inl err \<Rightarrow> (handleServiceError err w, s)
      | Inr user \<Rightarrow> (respond 200 (user_out user) w, s))"

definition Handler_updateUser :: "'db Handler \<Rightarrow> ambient \<Rightarrow> 'db http" where
  "Handler_updateUser h a r w s =
     (case PrincipalFromContext r of
        None \<Rightarrow> (writeError 401 ''unauthorized'' w, s)
      | Some claims \<Rightarrow>
          (case decode_body update_user_field zero_update_user r w of
             (None, w') \<Rightarrow> (w', s)
           | (Some input, w') \<Rightarrow>
               (case Auth_UpdateUser (hd_svc h) (am_clk a 1) (prin_UserID claims) (get_value (rq_PathValue r) ''id'')
                       input (hs_db s) (hs_db s) of
                  (Inl err, db) \<Rightarrow> (handleServiceError err w', s\<lparr>hs_db := db\<rparr>)
                | (Inr (user, zookie), db) \<Rightarrow>
                    (respond 200 (OObj [(''user'', user_out user), (''zookie'', OStr (zk_Token zookie))])
                       (setZookieHeader zookie w'), s\<lparr>hs_db := db\<rparr>))))"

definition Handler_deleteUser :: "'db Handler \<Rightarrow> 'db http" where
  "Handler_deleteUser h r w s =
     (case PrincipalFromContext r of
        None \<Rightarrow> (writeError 401 ''unauthorized'' w, s)
      | Some claims \<Rightarrow>
          (case Auth_DeleteUser (hd_svc h) (prin_UserID claims) (get_value (rq_PathValue r) ''id'') (hs_db s) (hs_db s) of
             (Inl err, db) \<Rightarrow> (handleServiceError err w, s\<lparr>hs_db := db\<rparr>)
           | (Inr zookie, db) \<Rightarrow>
               (respond 200 (OObj [(''message'', OStr ''user deleted''), (''zookie'', OStr (zk_Token zookie))])
                  (setZookieHeader zookie w), s\<lparr>hs_db := db\<rparr>)))"

definition atoi_value :: "string \<Rightarrow> int" where \<comment> \<open>the value of \<open>strconv.Atoi\<close> with its error dropped\<close>
  "atoi_value s =
     (let t = (if s \<noteq> [] \<and> (hd s = CHR ''-'' \<or> hd s = CHR ''+'') then tl s else s) in
      if t = [] \<or> \<not> list_all is_dec t then 0
      else if hd s = CHR ''-'' then max (- (2 ^ 63)) (- int (read_nat t))
      else min (2 ^ 63 - 1) (int (read_nat t)))"

definition Handler_listUsers :: "'db Handler \<Rightarrow> 'db http" where
  "Handler_listUsers h r w s =
     (case Auth_ListUsers (hd_svc h)
             \<lparr>lf_Country = trim_space (get_value (rq_Query r) ''country''),
              lf_Page = atoi_value (get_value (rq_Query r) ''page''),
              lf_PageSize = atoi_value (get_value (rq_Query r) ''page_size'')\<rparr> (readZookie r) (hs_db s) of
        Inl err \<Rightarrow> (handleServiceError err w, s)
      | Inr result \<Rightarrow> (respond 200 (list_out result) w, s))"

definition bearer :: "request \<Rightarrow> string" where
  "bearer r = trim_prefix (get_value (rq_Header r) ''Authorization'') ''Bearer ''"

definition not_user :: "Principal option \<Rightarrow> bool" where \<comment> \<open>\<open>principal == nil || principal.Kind != user\<close>\<close>
  "not_user p = (case p of None \<Rightarrow> True | Some q \<Rightarrow> prin_Kind q \<noteq> PrincipalKindUser)"

definition Handler_activateContext :: "'db Handler \<Rightarrow> ambient \<Rightarrow> 'db http" where
  "Handler_activateContext h a r w s =
     (let prin = PrincipalFromContext r in
      if not_user prin then (writeError 401 ''unauthorized'' w, s)
      else case decode_body activation_field zero_activation r w of
        (None, w') \<Rightarrow> (w', s)
      | (Some input, w') \<Rightarrow>
          (case Auth_ActivateContext (prin_UserID (the prin)) input of
             Inl err \<Rightarrow> (handleServiceError err w', s)
           | Inr v \<Rightarrow>
               (case Session_ActivateContext (hd_sha256 h) (hd_cfg h) (hd_sessions h) (after 1 a) (am_ent a) (bearer r)
                       \<lparr>act_ActorID = cai_ActorID v, act_ActorType = cai_ActorType v, act_Perms = cai_Permissions v,
                        act_DelegPerms = cai_DelegatedPermissions v, act_PGroups = cai_PolicyGroups v,
                        act_PermVersion = 0\<rparr> (hs_db s) of
                  (Inl err, db) \<Rightarrow> (writeError 500 ''context activation failed'' w', s\<lparr>hs_db := db\<rparr>)
                | (Inr out, db) \<Rightarrow>
                    (case cso_Session out of
                       None \<Rightarrow> (panic w', s\<lparr>hs_db := db\<rparr>)
                     | Some sess \<Rightarrow>
                         (respond 200 (OObj [(''access_token'', OStr (cso_AccessToken out)), (''expires_in'', expires_in h),
                                          (''actor_type'', OStr (ses_ActorType sess))])
                            (setRefreshCookie (am_clk a 9) (cso_RefreshToken out) (ses_RefreshExpiresAt sess) w'),
                          s\<lparr>hs_db := db\<rparr>)))))"

definition Handler_createServiceAccount :: "'db Handler \<Rightarrow> ambient \<Rightarrow> 'db http" where
  "Handler_createServiceAccount h a r w s =
     (case decode_body create_account_field zero_create_account r w of
        (None, w') \<Rightarrow> (w', s)
      | (Some input, w') \<Rightarrow>
          (case ServiceAuth_CreateServiceAccount (hd_svcAuth h) (hd_bc h) (am_salt a) (am_clk a 1) (am_uuid a) input
                  (hs_db s) of
             (Inl err, db) \<Rightarrow> (handleServiceError err w', s\<lparr>hs_db := db\<rparr>)
           | (Inr (sa, zookie), db) \<Rightarrow>
               (respond 201 (OObj [(''service_account'', account_out (sa\<lparr>sa_SecretHash := ''''\<rparr>)),
                                   (''zookie'', OStr (zk_Token zookie))])
                  (setZookieHeader zookie w'), s\<lparr>hs_db := db\<rparr>)))"

definition Handler_deactivateServiceAccount :: "'db Handler \<Rightarrow> ambient \<Rightarrow> 'db http" where
  "Handler_deactivateServiceAccount h a r w s =
     (case ServiceAuth_DeactivateServiceAccount (hd_svcAuth h) (am_clk a 1) (get_value (rq_PathValue r) ''client_id'')
             (hs_db s) (hs_db s) of
        (Inl err, db) \<Rightarrow> (handleServiceError err w, s\<lparr>hs_db := db\<rparr>)
      | (Inr zookie, db) \<Rightarrow>
          (respond 200 (OObj [(''message'', OStr ''service account deactivated''), (''zookie'', OStr (zk_Token zookie))])
             (setZookieHeader zookie w), s\<lparr>hs_db := db\<rparr>))"

definition Handler_logout :: "'db Handler \<Rightarrow> ambient \<Rightarrow> 'db http" where
  "Handler_logout h a r w s =
     (case Logout (hd_sha256 h) (hd_sessions h) (am_clk a 1) (bearer r) (hs_db s) of
        (Inl err, db) \<Rightarrow> (writeError 500 ''logout failed'' w, s\<lparr>hs_db := db\<rparr>)
      | (Inr _, db) \<Rightarrow> (respond 200 (OObj [(''status'', OStr ''logged out'')]) (clearRefreshCookie w), s\<lparr>hs_db := db\<rparr>))"

definition Handler_logoutAll :: "'db Handler \<Rightarrow> ambient \<Rightarrow> 'db http" where
  "Handler_logoutAll h a r w s =
     (let prin = PrincipalFromContext r in
      if not_user prin then (writeError 403 ''not available for service accounts'' w, s)
      else case LogoutAll (hd_sessions h) (am_clk a 1) (prin_UserID (the prin)) (hs_db s) of
        (Inl err, db) \<Rightarrow> (writeError 500 ''logout failed'' w, s\<lparr>hs_db := db\<rparr>)
      | (Inr _, db) \<Rightarrow>
          (respond 200 (OObj [(''status'', OStr ''all sessions revoked'')]) (clearRefreshCookie w), s\<lparr>hs_db := db\<rparr>))"

definition opt_out :: "string \<Rightarrow> string \<Rightarrow> (string \<times> out) list" where \<comment> \<open>\<open>omitempty\<close>\<close>
  "opt_out k v = (if v = '''' then [] else [(k, OStr v)])"

definition sessionView :: "Session \<Rightarrow> out" where
  "sessionView s =
     OObj ((''id'', OStr (ses_ID s)) # opt_out ''actor_type'' (ses_ActorType s) @
       [(''created_at'', OTime (ses_CreatedAt s)), (''last_seen_at'', OTime (ses_LastSeenAt s)),
        (''expires_at'', OTime (ses_ExpiresAt s))] @ opt_out ''user_agent'' (ses_UserAgent s))"

definition Handler_listSessions :: "'db Handler \<Rightarrow> 'db http" where
  "Handler_listSessions h r w s =
     (let prin = PrincipalFromContext r in
      if not_user prin then (writeError 403 ''not available for service accounts'' w, s)
      else case ListSessions (hd_sessions h) (prin_UserID (the prin)) (hs_db s) of
        Inl err \<Rightarrow> (writeError 500 ''could not list sessions'' w, s)
      | Inr ss \<Rightarrow> (respond 200 (OObj [(''sessions'', OArr (map sessionView ss))]) w, s))"

definition Handler_revokeSession :: "'db Handler \<Rightarrow> ambient \<Rightarrow> 'db http" where
  "Handler_revokeSession h a r w s =
     (case PrincipalFromContext r of
        None \<Rightarrow> (writeError 401 ''unauthorized'' w, s)
      | Some prin \<Rightarrow>
          (let targetID = get_value (rq_PathValue r) ''id'' in
           if targetID = '''' then (writeError 400 ''session id required'' w, s)
           else case RevokeSession (hd_sessions h) (am_clk a 1) targetID (prin_UserID prin) (hs_db s) of
             (Inl err, db) \<Rightarrow>
               ((if errors_is err ErrSessionNotFound then writeError 404 ''session not found'' w
                 else if errors_is err ErrSessionNotOwned then writeError 403 ''not your session'' w
                 else writeError 500 ''could not revoke session'' w), s\<lparr>hs_db := db\<rparr>)
           | (Inr _, db) \<Rightarrow> (WriteHeader 204 w, s\<lparr>hs_db := db\<rparr>)))"

definition Handler_me :: "'db Handler \<Rightarrow> 'db http" where
  "Handler_me h r w s =
     (case PrincipalFromContext r of
        None \<Rightarrow> (writeError 401 ''unauthorized'' w, s)
      | Some p \<Rightarrow>
          (respond 200 (OObj ((''kind'', OStr (prin_Kind p)) #
             (if prin_Kind p = PrincipalKindUser then
                [(''user_id'', OStr (prin_UserID p)), (''actor_id'', OStr (prin_ActorID p)),
                 (''actor_type'', OStr (prin_ActorType p)), (''nickname'', OStr (prin_Nickname p)),
                 (''email'', OStr (prin_Email p)), (''permissions'', strs_out (prin_Permissions p)),
                 (''delegated_permissions'', strs_out (prin_DelegatedPermissions p)),
                 (''policy_groups'', strs_out (prin_PolicyGroups p))]
              else if prin_Kind p = PrincipalKindService then
                [(''client_id'', OStr (prin_ClientID p)), (''service_name'', OStr (prin_Name p)),
                 (''actor_type'', OStr (prin_ActorType p))]
              else []))) w, s))"

section \<open>Routes\<close>

datatype segment = Exact string | Var string

record 's route =
  rt_Method :: string
  rt_Path :: "segment list"
  rt_Handler :: "'s handler"

fun match_path :: "segment list \<Rightarrow> string list \<Rightarrow> (string \<times> string) list option" where
  "match_path [] [] = Some []"
| "match_path (Exact e # ps) (s # ss) = (if s = e then match_path ps ss else None)"
| "match_path (Var v # ps) (s # ss) = (if s = '''' then None else map_option ((#) (v, s)) (match_path ps ss))"
| "match_path _ _ = None"

definition method_matches :: "string \<Rightarrow> string \<Rightarrow> bool" where \<comment> \<open>a GET pattern also takes HEAD\<close>
  "method_matches pat m = (pat = m \<or> (pat = ''GET'' \<and> m = ''HEAD''))"

definition segments :: "string \<Rightarrow> string list" where
  "segments path = tl (split_char (CHR ''/'') path)"

fun find_route :: "string \<Rightarrow> string list \<Rightarrow> 's route list \<Rightarrow> ('s handler \<times> (string \<times> string) list) option" where
  "find_route m p [] = None"
| "find_route m p (rt # rts) =
     (case match_path (rt_Path rt) p of
        Some vs \<Rightarrow> if method_matches (rt_Method rt) m then Some (rt_Handler rt, vs) else find_route m p rts
      | None \<Rightarrow> find_route m p rts)"

definition ServeMux :: "'s route list \<Rightarrow> 's handler" where
  "ServeMux rts r w s =
     (let p = segments (rq_Path r) in
      case find_route (rq_Method r) p rts of
        Some (f, vs) \<Rightarrow> f (r\<lparr>rq_PathValue := vs\<rparr>) w s
      | None \<Rightarrow>
          (if list_ex (\<lambda>rt. match_path (rt_Path rt) p \<noteq> None) rts then (WriteHeader 405 w, s)
           else (WriteHeader 404 w, s)))"

definition RegisterRoutes :: "'db Handler \<Rightarrow> ambient \<Rightarrow> ('db http \<Rightarrow> 'db http) \<Rightarrow> 'db hstate route list" where
  "RegisterRoutes h a authMW =
     (let route = (\<lambda>m p f. \<lparr>rt_Method = m, rt_Path = p, rt_Handler = f\<rparr>) in
      [route ''POST'' [Exact ''auth'', Exact ''register''] (Handler_register h a),
       route ''POST'' [Exact ''auth'', Exact ''login''] (Handler_login h a),
       route ''POST'' [Exact ''auth'', Exact ''service'', Exact ''token''] (Handler_serviceLogin h a),
       route ''GET'' [Exact ''health''] (Handler_health h a),
       route ''GET'' [Exact ''ready''] (Handler_ready h),
       route ''POST'' [Exact ''auth'', Exact ''context'', Exact ''activate''] (authMW (Handler_activateContext h a)),
       route ''GET'' [Exact ''users''] (authMW (Handler_listUsers h)),
       route ''GET'' [Exact ''users'', Var ''id''] (authMW (Handler_getUser h)),
       route ''PUT'' [Exact ''users'', Var ''id''] (authMW (Handler_updateUser h a)),
       route ''DELETE'' [Exact ''users'', Var ''id''] (authMW (Handler_deleteUser h)),
       route ''POST'' [Exact ''service-accounts''] (authMW (Handler_createServiceAccount h a)),
       route ''DELETE'' [Exact ''service-accounts'', Var ''client_id''] (authMW (Handler_deactivateServiceAccount h a)),
       route ''POST'' [Exact ''auth'', Exact ''refresh''] (Handler_refresh h a),
       route ''POST'' [Exact ''auth'', Exact ''logout''] (authMW (Handler_logout h a)),
       route ''POST'' [Exact ''auth'', Exact ''logout-all''] (authMW (Handler_logoutAll h a)),
       route ''GET'' [Exact ''auth'', Exact ''sessions''] (authMW (Handler_listSessions h)),
       route ''DELETE'' [Exact ''auth'', Exact ''sessions'', Var ''id''] (authMW (Handler_revokeSession h a)),
       route ''GET'' [Exact ''auth'', Exact ''verify''] (Handler_verify h a),
       route ''GET'' [Exact ''auth'', Exact ''me''] (authMW (Handler_me h))])"

definition http_mux :: "'db Handler \<Rightarrow> ambient \<Rightarrow> 'db http" where \<comment> \<open>as \<open>main.go\<close> registers them\<close>
  "http_mux h a = ServeMux (RegisterRoutes h a (Authenticate (session_verifier h a)))"

end
