(* ===== verification/Http_Theorems.thy ===== *)
theory Http_Theorems
  imports Http Session_Authz
begin

text \<open>
  Properties of the HTTP transport (\<^verbatim>\<open>internal/handler/http/handler.go\<close> behind
  \<^verbatim>\<open>internal/middleware/middleware.go\<close>): what a request without a valid token can do, how the gateway
  endpoint agrees with the middleware, what an activated context carries to it, and where the documented request
  bodies do not decode.
\<close>

section \<open>Routes\<close>

definition public_paths :: "string list list" where
  "public_paths =
     [[''auth'', ''register''], [''auth'', ''login''], [''auth'', ''service'', ''token''], [''health''], [''ready''],
      [''auth'', ''refresh''], [''auth'', ''verify'']]"

lemma match_Exact: "match_path (map Exact xs) p = Some vs \<Longrightarrow> p = xs"
  by (induction xs arbitrary: p; case_tac p) (auto split: if_splits)

lemma find_routeD:
  "find_route m p rts = Some (f, vs) \<Longrightarrow>
     \<exists>rt \<in> set rts. rt_Handler rt = f \<and> match_path (rt_Path rt) p = Some vs"
  by (induction rts) (auto split: option.splits if_splits)

lemma routes_guarded:
  assumes "rt \<in> set (RegisterRoutes h a authMW)"
  shows "(\<exists>g. rt_Handler rt = authMW g) \<or> (\<exists>xs \<in> set public_paths. rt_Path rt = map Exact xs)"
  using assms unfolding RegisterRoutes_def Let_def public_paths_def by (auto 0 3)

lemma mux_cases:
  assumes "segments (rq_Path r) \<notin> set public_paths"
  obtains g vs where "http_mux h a r w s = Authenticate (session_verifier h a) g (r\<lparr>rq_PathValue := vs\<rparr>) w s"
  | c where "http_mux h a r w s = (WriteHeader c w, s)" "c = 404 \<or> c = 405"
proof (cases "find_route (rq_Method r) (segments (rq_Path r))
    (RegisterRoutes h a (Authenticate (session_verifier h a)))")
  case None
  then show ?thesis by (intro that(2) [of "if list_ex (\<lambda>rt. match_path (rt_Path rt) (segments (rq_Path r)) \<noteq> None)
      (RegisterRoutes h a (Authenticate (session_verifier h a))) then 405 else 404"])
    (auto simp: http_mux_def ServeMux_def Let_def)
next
  case (Some fv)
  obtain f vs where fv: "fv = (f, vs)" by (cases fv)
  from find_routeD [OF Some [unfolded fv]] obtain rt where rt:
    "rt \<in> set (RegisterRoutes h a (Authenticate (session_verifier h a)))" "rt_Handler rt = f"
    "match_path (rt_Path rt) (segments (rq_Path r)) = Some vs" by blast
  from routes_guarded [OF rt(1)] obtain g where "f = Authenticate (session_verifier h a) g"
    using rt(2,3) assms match_Exact by (metis (no_types))
  then show ?thesis using that(1) Some fv by (simp add: http_mux_def ServeMux_def Let_def)
qed

section \<open>Requests without a valid token\<close>

text \<open>C13: A request outside the public endpoints that carries no token which verifies never reaches a
  handler: the database is unchanged and the answer is 401 (404 or 405 where there is no route).\<close>

theorem protected_needs_token:
  assumes "segments (rq_Path r) \<notin> set public_paths"
    and "\<not> has_prefix (get_value (rq_Header r) ''Authorization'') ''Bearer '' \<or>
      \<not> is_ok (fst (VerifyToken (hd_sha256 h) (hd_sessions h) (am_clk a 0) (bearer r) (hs_db s)))"
    and "http_mux h a r new_writer s = (w', s')"
  shows "hs_db s' = hs_db s \<and> wr_Status w' \<in> {Some 401, Some 404, Some 405} \<and> wr_Cookies w' = []"
proof (rule mux_cases [OF assms(1), of h a new_writer s])
  fix g vs assume "http_mux h a r new_writer s =
    Authenticate (session_verifier h a) g (r\<lparr>rq_PathValue := vs\<rparr>) new_writer s"
  then have "(w', s') = Authenticate (session_verifier h a) g (r\<lparr>rq_PathValue := vs\<rparr>) new_writer s"
    using assms(3) by simp
  then show ?thesis using assms(2)
    by (auto simp: Authenticate_def session_verifier_def bearer_def mw_writeError_def Encode_def WriteHeader_def
        Header_Set_def new_writer_def Let_def is_ok_def split: if_splits prod.splits sum.splits)
next
  fix c assume "http_mux h a r new_writer s = (WriteHeader c new_writer, s)" "c = 404 \<or> c = 405"
  then show ?thesis using assms(3) by (auto simp: WriteHeader_def new_writer_def)
qed

section \<open>The gateway check\<close>

lemma Header_Set_simps [simp]:
  "wr_Status (Header_Set k v w) = wr_Status w" "wr_Cookies (Header_Set k v w) = wr_Cookies w"
  "wr_Body (Header_Set k v w) = wr_Body w"
  "wr_Status w = None \<Longrightarrow> get_value (wr_Header (Header_Set k v w)) q = (if q = k then v else get_value (wr_Header w) q)"
proof -
  have "map_of (filter (\<lambda>(q, _). q \<noteq> k) kvs) q = (if q = k then None else map_of kvs q)" for kvs :: "(string \<times> string) list"
    by (induction kvs) auto
  then show "wr_Status w = None \<Longrightarrow>
      get_value (wr_Header (Header_Set k v w)) q = (if q = k then v else get_value (wr_Header w) q)"
    by (simp add: Header_Set_def get_value_def)
qed (simp_all add: Header_Set_def)

lemma set_strs_simps [simp]:
  "wr_Status (set_strs k ss w) = wr_Status w"
  "wr_Status w = None \<Longrightarrow> get_value (wr_Header (set_strs k ss w)) q =
     (if q = k \<and> ss \<noteq> [] then str_join '','' ss else get_value (wr_Header w) q)"
  by (simp_all add: set_strs_def)

lemma identity_status [simp]: "wr_Status (identity_headers p w) = wr_Status w"
  by (simp add: identity_headers_def Let_def)

lemma new_writer_simps [simp]:
  "wr_Status new_writer = None" "wr_Cookies new_writer = []" "wr_Body new_writer = []" "wr_Header new_writer = []"
  by (simp_all add: new_writer_def)

lemma writer_simps [simp]:
  "wr_Status (WriteHeader c w) = (if wr_Status w = None then Some c else wr_Status w)"
  "wr_Body (WriteHeader c w) = wr_Body w" "wr_Header (WriteHeader c w) = wr_Header w"
  "wr_Cookies (WriteHeader c w) = wr_Cookies w"
  "wr_Status (Encode v w) = (if wr_Status w = None then Some 200 else wr_Status w)"
  "wr_Body (Encode v w) = wr_Body w @ [v]" "wr_Cookies (Encode v w) = wr_Cookies w"
  "wr_Status (SetCookie ck w) = wr_Status w" "wr_Body (SetCookie ck w) = wr_Body w"
  "wr_Status w = None \<Longrightarrow> wr_Cookies (SetCookie ck w) = wr_Cookies w @ [ck]"
  by (simp_all add: WriteHeader_def Encode_def SetCookie_def Let_def)

lemma response_simps [simp]:
  "wr_Status (respond c v w) = (if wr_Status w = None then Some c else wr_Status w)"
  "wr_Body (respond c v w) = wr_Body w @ [v]" "wr_Cookies (respond c v w) = wr_Cookies w"
  "wr_Status (writeError c m w) = (if wr_Status w = None then Some c else wr_Status w)"
  "wr_Body (writeError c m w) = wr_Body w @ [OObj [(''error'', OStr m)]]"
  by (simp_all add: respond_def writeError_def)

lemma service_error_body: "\<exists>m. wr_Body (handleServiceError e w) = wr_Body w @ [OObj [(''error'', OStr m)]]"
  by (simp add: handleServiceError_def)

text \<open>C17: The gateway endpoint decides as the middleware does: where \<open>GET /auth/verify\<close> answers 200,
  \<open>Authenticate\<close> passes the request on with the very principal whose identity the gateway gets as headers;
  otherwise both answer 401. Both leave the same state (database and pending touches).\<close>

theorem verify_agrees_with_middleware:
  "case Handler_verify h a r new_writer s of (wv, sv) \<Rightarrow>
     if wr_Status wv = Some 200
     then \<exists>p. wv = WriteHeader 200 (identity_headers p new_writer) \<and>
       (\<forall>nxt w. Authenticate (session_verifier h a) nxt r w s = nxt (r\<lparr>rq_Principal := Some p\<rparr>) w sv)
     else wr_Status wv = Some 401 \<and>
       (\<forall>nxt. wr_Status (fst (Authenticate (session_verifier h a) nxt r new_writer s)) = Some 401 \<and>
          snd (Authenticate (session_verifier h a) nxt r new_writer s) = sv)"
  by (auto simp: Handler_verify_def Authenticate_def Let_def mw_writeError_def split: prod.splits sum.splits)

section \<open>Request bodies\<close>





text \<open>The two functions for the client's address differ already without a proxy header.\<close>

lemma handler_address_differs:
  assumes "get_value (rq_Header r) ''X-Forwarded-For'' = ''''" "SplitHostPort (rq_RemoteAddr r) = Some host"
  shows "clientIP r = rq_RemoteAddr r \<and> mw_clientIP r = host"
  using assms by (simp add: clientIP_def mw_clientIP_def Let_def)

section \<open>Requests with a bearer token\<close>

lemma route_me: "segments ''/auth/me'' = [''auth'', ''me'']" "segments ''/auth/verify'' = [''auth'', ''verify'']"
  by code_simp+

lemma mux_me:
  "rq_Method r = ''GET'' \<Longrightarrow> rq_Path r = ''/auth/me'' \<Longrightarrow>
     http_mux h a r w s = Authenticate (session_verifier h a) (Handler_me h) (r\<lparr>rq_PathValue := []\<rparr>) w s"
  by (simp add: http_mux_def ServeMux_def RegisterRoutes_def Let_def route_me method_matches_def)

lemma mux_verify:
  "rq_Method r = ''GET'' \<Longrightarrow> rq_Path r = ''/auth/verify'' \<Longrightarrow>
     http_mux h a r w s = Handler_verify h a (r\<lparr>rq_PathValue := []\<rparr>) w s"
  by (simp add: http_mux_def ServeMux_def RegisterRoutes_def Let_def route_me method_matches_def)

lemma bearer_simps:
  assumes "get_value (rq_Header r) ''Authorization'' = ''Bearer '' @ tok"
  shows "bearer r = tok"
    and "Authenticate v nxt r w s =
      (case v tok s of
         (Inl e, s') \<Rightarrow> (mw_writeError 401 (if errors_is e ErrTokenExpired then ''token expired'' else ''invalid token'') w, s')
       | (Inr p, s') \<Rightarrow> nxt (r\<lparr>rq_Principal := Some p\<rparr>) w s')"
    and "Handler_verify h a r w s =
      (case session_verifier h a tok s of
         (Inl e, s') \<Rightarrow> (WriteHeader 401 w, s')
       | (Inr p, s') \<Rightarrow> (WriteHeader 200 (identity_headers p w), s'))"
proof -
  note b = assms has_prefix_append [of "''Bearer ''" tok] trim_prefix_append [of "''Bearer ''" tok]
  show "bearer r = tok" by (simp only: bearer_def b)
  show "Authenticate v nxt r w s =
      (case v tok s of
         (Inl e, s') \<Rightarrow> (mw_writeError 401 (if errors_is e ErrTokenExpired then ''token expired'' else ''invalid token'') w, s')
       | (Inr p, s') \<Rightarrow> nxt (r\<lparr>rq_Principal := Some p\<rparr>) w s')"
    by (simp only: Authenticate_def Let_def b not_True_eq_False if_False) (auto split: prod.splits sum.splits)
  show "Handler_verify h a r w s =
      (case session_verifier h a tok s of
         (Inl e, s') \<Rightarrow> (WriteHeader 401 w, s')
       | (Inr p, s') \<Rightarrow> (WriteHeader 200 (identity_headers p w), s'))"
    by (simp only: Handler_verify_def Let_def b not_True_eq_False if_False)
qed

context session_repository
begin

lemma verify_live:
  assumes "inv db" "sole (sessions db) ses_AccessTokenHash (Hash sha256 raw) u" "sessions db u = Some s"
    "ses_AccessTokenHash s = Hash sha256 raw" "\<not> ses_Revoked s" "now \<le> ses_ExpiresAt s"
  shows "(\<exists>e. VerifyToken sha256 repo now raw db = (Inl e, []) \<and> foreign e) \<or>
    VerifyToken sha256 repo now raw db = (Inr (sessionToPrincipal s), [u])"
  using lookup_sole [OF assms(1-4), of now] assms(5,6) by (auto simp: verify_of_lookup)

lemma created_verifies:
  assumes "inv db" "Session_Create sha256 cfg repo clk ent i db = (Inr out, db')"
    and "unused (sessions db) ses_AccessTokenHash (Hash sha256 (cso_AccessToken out))"
    and "t \<le> trunc_sec (clk 0 + accessTTL cfg)"
  shows "(\<exists>e. VerifyToken sha256 repo t (cso_AccessToken out) db' = (Inl e, []) \<and> foreign e) \<or>
    (\<exists>s u. VerifyToken sha256 repo t (cso_AccessToken out) db' = (Inr (sessionToPrincipal s), [u]) \<and>
       carries i (sessionToPrincipal s))"
proof (rule create_session [OF assms(1,2)])
  fix s atk rtk jti
  assume c: "mint sha256 ent = Inr (atk, rtk, jti)" "cso_AccessToken out = ot_Raw atk"
    "sessions db' = (sessions db)(ses_ID s \<mapsto> s)" "inv db'"
    "same_session s (new_session (ses_ID s) (clk 1) (create_input cfg (clk 0) atk rtk jti i))"
  have s: "ses_AccessTokenHash s = Hash sha256 (cso_AccessToken out)" "\<not> ses_Revoked s"
      "ses_ExpiresAt s = trunc_sec (clk 0 + accessTTL cfg)"
    using same_sessionD [OF c(5)] mint_hash [OF c(1)] c(2) by (simp_all add: new_session_def create_input_def)
  show ?thesis
    using verify_live [OF c(4) unused_sole [OF assms(3) c(3)] _ s(1,2), of t] s(3) assms(4) carries_new [OF c(5)]
    by (auto simp: c(3))
qed

end

definition me_body :: "string \<Rightarrow> out" where
  "me_body user =
     OObj [(''kind'', OStr ''user''), (''user_id'', OStr user), (''actor_id'', OStr ''''), (''actor_type'', OStr ''''),
       (''nickname'', OStr ''''), (''email'', OStr ''''), (''permissions'', ONull), (''delegated_permissions'', ONull),
       (''policy_groups'', ONull)]"

lemma decode_cases:
  obtains (bad) "decode_body f z r w = (None, writeError 400 ''malformed request body'' w)"
  | (good) x where "decode_body f z r w = (Some x, w)"
  by (cases "Decode (take max_body (rq_Body r))"; cases "into_struct f z (the (Decode (take max_body (rq_Body r))))")
    (auto simp: decode_body_def)

section \<open>From activation to the gateway\<close>

context session_repository
begin

lemma activated_verifies:
  assumes "inv db" "Session_ActivateContext sha256 cfg repo clk ent raw a db = (Inr out, db')"
    and "unused (sessions db) ses_AccessTokenHash (Hash sha256 (cso_AccessToken out))"
    and "t \<le> trunc_sec (clk 2 + accessTTL cfg)"
  shows "(\<exists>e. VerifyToken sha256 repo t (cso_AccessToken out) db' = (Inl e, []) \<and> foreign e) \<or>
    (\<exists>s old u. VerifyToken sha256 repo t (cso_AccessToken out) db' = (Inr (sessionToPrincipal s), [u]) \<and>
       carries (activation_input a old) (sessionToPrincipal s))"
proof (rule activate_Inr [OF assms(1,2)])
  fix old s atk rtk jti
  assume c: "sessions db (ses_ID old) = Some old" "mint sha256 ent = Inr (atk, rtk, jti)" "cso_AccessToken out = ot_Raw atk"
    "sessions db' = (sessions db)(ses_ID old \<mapsto> revoked_at (clk 1) old, ses_ID s \<mapsto> s)" "inv db'"
    "same_session s (new_session (ses_ID s) (clk 3) (create_input cfg (clk 2) atk rtk jti (activation_input a old)))"
  have s: "ses_AccessTokenHash s = Hash sha256 (cso_AccessToken out)" "\<not> ses_Revoked s"
      "ses_ExpiresAt s = trunc_sec (clk 2 + accessTTL cfg)"
    using same_sessionD [OF c(6)] mint_hash [OF c(2)] c(3) by (simp_all add: new_session_def create_input_def)
  have "unused ((sessions db)(ses_ID old \<mapsto> revoked_at (clk 1) old)) ses_AccessTokenHash (Hash sha256 (cso_AccessToken out))"
    using assms(3) c(1) by (auto simp: unused_def revoked_at_def)
  from unused_sole [OF this c(4)] show ?thesis
    using verify_live [OF c(5) _ _ s(1,2), of "ses_ID s" t] s(3) assms(4) carries_new [OF c(6)]
    by (auto simp: c(4))
qed

end

lemma activation_success:
  assumes "Handler_activateContext h a r new_writer s = (w, s')"
    and "wr_Body w = [OObj ((''access_token'', OStr tok) # rest)]"
  obtains input act out db where "decode_body activation_field zero_activation r new_writer = (Some input, new_writer)"
    "Session_ActivateContext (hd_sha256 h) (hd_cfg h) (hd_sessions h) (after 1 a) (am_ent a) (bearer r) act (hs_db s) = (Inr out, db)"
    "act_Perms act = cai_Permissions input" "act_DelegPerms act = cai_DelegatedPermissions input"
    "cso_AccessToken out = tok" "s' = s\<lparr>hs_db := db\<rparr>"
proof (cases rule: decode_cases [of activation_field zero_activation r new_writer])
  case bad
  then show ?thesis using assms by (auto simp: Handler_activateContext_def Let_def split: if_splits)
next
  case (good input)
  note H = assms(1) [unfolded Handler_activateContext_def Let_def good prod.case option.case]
  show ?thesis
  proof (cases "Auth_ActivateContext (prin_UserID (the (PrincipalFromContext r))) input")
    case (Inl err)
    then show ?thesis using H assms(2) service_error_body [of err new_writer] by (auto split: if_splits)
  next
    case (Inr v)
    then have v: "v = input" by (auto simp: Auth_ActivateContext_def split: if_splits)
    show ?thesis using H assms(2) good Inr
      by (auto simp: panic_def v setRefreshCookie_def intro!: that split: if_splits prod.splits sum.splits option.splits)
  qed
qed

lemma permission_headers:
  "get_value (wr_Header (identity_headers p new_writer)) ''X-Permissions'' = str_join '','' (prin_Permissions p)"
  "get_value (wr_Header (identity_headers p new_writer)) ''X-Delegated-Permissions'' =
     str_join '','' (prin_DelegatedPermissions p)"
proof -
  have "get_value [] k = ''''" for k by (simp add: get_value_def)
  moreover have "str_join '','' [] = ''''" by simp
  ultimately show "get_value (wr_Header (identity_headers p new_writer)) ''X-Permissions'' = str_join '','' (prin_Permissions p)"
    "get_value (wr_Header (identity_headers p new_writer)) ''X-Delegated-Permissions'' =
       str_join '','' (prin_DelegatedPermissions p)"
    by (auto simp: identity_headers_def Let_def)
qed

text \<open>C25: Context activation believes the client: once \<open>POST /auth/context/activate\<close> has answered with a token,
  \<open>GET /auth/verify\<close> with that token tells the gateway exactly the permissions and delegated permissions
  that the request body listed, whatever they are (in the store's order), until the window closes.\<close>

theorem activation_grants_requested_permissions:
  assumes "dgraph_client dg graph" "wf_graph (graph (hs_db s))" "hd_sessions h = dgraph_session_repo dg"
    and "Handler_activateContext h a r new_writer s = (w, s')"
    and "wr_Body w = [OObj ((''access_token'', OStr tok) # rest)]"
    and "unused (session_view (graph (hs_db s))) ses_AccessTokenHash (Hash (hd_sha256 h) tok)"
    and "rq_Method r2 = ''GET''" "rq_Path r2 = ''/auth/verify''" "get_value (rq_Header r2) ''Authorization'' = ''Bearer '' @ tok"
    and "am_clk a2 0 \<le> trunc_sec (am_clk a 3 + accessTTL (hd_cfg h))"
    and "http_mux h a2 r2 new_writer s' = (w2, s2)"
  shows "\<exists>input ps ds. decode_body activation_field zero_activation r new_writer = (Some input, new_writer) \<and>
    set ps = set (cai_Permissions input) \<and> set ds = set (cai_DelegatedPermissions input) \<and>
    (if store_error (fst (VerifyToken (hd_sha256 h) (hd_sessions h) (am_clk a2 0) tok (hs_db s')))
     then wr_Status w2 = Some 401
     else wr_Status w2 = Some 200 \<and> get_value (wr_Header w2) ''X-Permissions'' = str_join '','' ps \<and>
       get_value (wr_Header w2) ''X-Delegated-Permissions'' = str_join '','' ds)"
proof -
  note S = dgraph_client.dgraph_sessions [OF assms(1)]
  obtain input act out db where l: "decode_body activation_field zero_activation r new_writer = (Some input, new_writer)"
    "Session_ActivateContext (hd_sha256 h) (hd_cfg h) (hd_sessions h) (after 1 a) (am_ent a) (bearer r) act (hs_db s) = (Inr out, db)"
    "act_Perms act = cai_Permissions input" "act_DelegPerms act = cai_DelegatedPermissions input"
    "cso_AccessToken out = tok" "s' = s\<lparr>hs_db := db\<rparr>"
    by (rule activation_success [OF assms(4,5)])
  have "am_clk a2 0 \<le> trunc_sec (after 1 a 2 + accessTTL (hd_cfg h))"
    using assms(10) by (simp add: after_def numeral_3_eq_3)
  from session_repository.activated_verifies [OF S assms(2) l(2) [unfolded assms(3)], unfolded l(5), OF assms(6) this]
  have v: "(\<exists>e. VerifyToken (hd_sha256 h) (hd_sessions h) (am_clk a2 0) tok db = (Inl e, []) \<and> foreign e) \<or>
      (\<exists>q old x. VerifyToken (hd_sha256 h) (hd_sessions h) (am_clk a2 0) tok db = (Inr (sessionToPrincipal q), [x]) \<and>
         carries (activation_input act old) (sessionToPrincipal q))"
    by (simp add: assms(3))
  have "get_value (rq_Header (r2\<lparr>rq_PathValue := []\<rparr>)) ''Authorization'' = ''Bearer '' @ tok" using assms(9) by simp
  note mux = assms(11) [unfolded mux_verify [OF assms(7,8)] bearer_simps(3) [OF this] session_verifier_def l(6)]
  from v show ?thesis
  proof (elim disjE exE conjE)
    fix e assume "VerifyToken (hd_sha256 h) (hd_sessions h) (am_clk a2 0) tok db = (Inl e, [])" "foreign e"
    then show ?thesis using mux l(1) by (auto simp: l(6) store_error_def)
  next
    fix q old x
    assume p: "VerifyToken (hd_sha256 h) (hd_sessions h) (am_clk a2 0) tok db = (Inr (sessionToPrincipal q), [x])"
      "carries (activation_input act old) (sessionToPrincipal q)"
    then have "set (ses_Permissions q) = set (cai_Permissions input)"
        "set (ses_DelegatedPermissions q) = set (cai_DelegatedPermissions input)"
      by (simp_all add: carries_def activation_input_def sessionToPrincipal_def l(3,4))
    then show ?thesis using mux l(1) p(1)
      by (intro exI [of _ input] exI [of _ "ses_Permissions q"] exI [of _ "ses_DelegatedPermissions q"])
        (auto simp: l(6) store_error_def permission_headers sessionToPrincipal_def)
  qed
qed

section \<open>Runs on the in-memory store\<close>

definition ex_handler :: "mem Handler" where
  "ex_handler =
     Handler_New ex_auth ex_accounts ex_cfg (dgraph_session_repo mem_dgraph) (ur_Ping (dgraph_user_repo mem_dgraph)) ex_bcrypt ex_sha"

definition ex_ambient :: "string \<Rightarrow> ambient" where
  "ex_ambient k = \<lparr>am_clk = ex_clk, am_ent = ex_ent k, am_uuid = ''id9'', am_salt = ''s''\<rparr>"

definition ex_request :: "string \<Rightarrow> string \<Rightarrow> (string \<times> string) list \<Rightarrow> (string \<times> json) list \<Rightarrow> request" where
  "ex_request m p hs ms =
     \<lparr>rq_Method = m, rq_Path = p, rq_Header = hs, rq_Query = [], rq_PathValue = [], rq_Cookies = [],
      rq_RemoteAddr = ''192.0.2.1:4000'', rq_Body = Marshal (JObj ms), rq_Principal = None\<rparr>"

definition ex_token :: "string \<Rightarrow> (string \<times> string) list" where
  "ex_token tok = [(''Authorization'', ''Bearer '' @ tok)]"

lemma ex_in_time: "am_clk (ex_ambient k) 0 \<le> trunc_sec (am_clk (ex_ambient k') n + accessTTL (hd_cfg ex_handler))"
proof -
  have "accessTTL ex_cfg = 900 * second" by (simp add: accessTTL_def ex_cfg_def DefaultAccessTTL_def minute_def second_def)
  moreover have "trunc_sec ((1900 + int n) * second) = (1900 + int n) * second"
    by (simp add: trunc_sec_def fmt_rfc3339_def parse_rfc3339_def second_def)
  ultimately show ?thesis
    by (simp add: ex_ambient_def ex_handler_def Handler_New_def ex_clk_def second_def algebra_simps)
qed

lemma ex_handler_sessions [simp]: "hd_sessions ex_handler = dgraph_session_repo mem_dgraph"
  by (simp add: ex_handler_def Handler_New_def)

theorem protected_needs_token_witness:
  "wr_Status (fst (http_mux ex_handler (ex_ambient ''k'')
     (ex_request ''DELETE'' ''/users/id1'' (ex_token ''atk_00'') []) new_writer \<lparr>hs_db = ex_udb, hs_touch = []\<rparr>))
   \<in> {Some 401, Some 404, Some 405}"
proof -
  let ?r = "ex_request ''DELETE'' ''/users/id1'' (ex_token ''atk_00'') []" and ?s = "\<lparr>hs_db = ex_udb, hs_touch = []\<rparr>"
  have p: "segments (rq_Path ?r) \<notin> set public_paths"
  proof -
    have "\<not> List.member public_paths (segments ''/users/id1'')" by code_simp
    then show ?thesis by (simp add: ex_request_def)
  qed
  have "\<not> is_ok (fst (VerifyToken (hd_sha256 ex_handler) (hd_sessions ex_handler) (am_clk (ex_ambient ''k'') 0) (bearer ?r) (hs_db ?s)))"
    by code_simp
  from protected_needs_token [OF p disjI2 [OF this] surjective_pairing] show ?thesis by simp
qed

lemma printed_body:
  assumes "rq_Body r = Marshal (JObj ms)" "length (Marshal (JObj ms)) \<le> max_body"
  shows "Decode (take max_body (rq_Body r)) = Some (JObj ms)"
proof -
  have "jvalue (Suc (length (Marshal (JObj ms)))) (Marshal (JObj ms) @ []) = Some (JObj ms, [])"
    using reads_all [of "JObj ms"] unfolding reads_def by (metis le_SucI number_end_simps(4) order_refl)
  then show ?thesis unfolding Decode_def assms(1) using assms(2) by simp
qed

lemma ok_not_store_error: "is_ok r \<Longrightarrow> \<not> store_error r"
  by (cases r) (simp_all add: store_error_def)


definition ex_principal :: Principal where
  "ex_principal =
     \<lparr>prin_Kind = PrincipalKindUser, prin_ActorType = '''', prin_UserID = ''u1'', prin_ActorID = '''',
      prin_Nickname = '''', prin_Email = '''', prin_Permissions = [], prin_DelegatedPermissions = [],
      prin_PolicyGroups = [], prin_ClientID = '''', prin_Name = ''''\<rparr>"


lemma ex_unode_session: "wf_node (node_of (ex_unode uuid nick mail))"
  by (simp add: wf_node_def session_typed_def ex_unode_def node_of_def)

lemma ex_udb_wf: "wf_graph (mem_graph ex_udb)"
  unfolding ex_udb_def mem_graph_Cons by (intro wf_Cons ex_unode_session ex_wf0)

definition ex_activate_body :: "(string \<times> json) list" where
  "ex_activate_body =
     [(''UserID'', JStr ''u1''), (''ActorID'', JStr ''a7''), (''ActorType'', JStr ''DRIVER''),
      (''Permissions'', JArr [JStr ''refund.approve''])]"

definition ex_activate_in :: ContextActivationInput where
  "ex_activate_in = zero_activation\<lparr>cai_UserID := ''u1'', cai_ActorID := ''a7'', cai_ActorType := ''DRIVER'',
     cai_Permissions := [''refund.approve'']\<rparr>"

definition ex_activate_request :: request where
  "ex_activate_request =
     (ex_request ''POST'' ''/auth/context/activate'' (ex_token ''atk_6b'') ex_activate_body)\<lparr>rq_Principal := Some ex_principal\<rparr>"

definition ex_activation :: "writer \<times> mem hstate" where
  "ex_activation =
     Handler_activateContext ex_handler (ex_ambient ''m'') ex_activate_request new_writer \<lparr>hs_db = ex_db1, hs_touch = []\<rparr>"

definition ex_activated :: "CreateSessionOutput res \<times> mem" where
  "ex_activated = Session_ActivateContext ex_sha ex_cfg ex_repo (after (Suc 0) (ex_ambient ''m'')) (am_ent (ex_ambient ''m''))
     ''atk_6b'' \<lparr>act_ActorID = ''a7'', act_ActorType = ''DRIVER'', act_Perms = [''refund.approve''], act_DelegPerms = [],
       act_PGroups = [], act_PermVersion = 0\<rparr> ex_db1"

lemma ex_activate_in_simps:
  "cai_ActorID ex_activate_in = ''a7''" "cai_ActorType ex_activate_in = ''DRIVER''"
  "cai_Permissions ex_activate_in = [''refund.approve'']" "cai_DelegatedPermissions ex_activate_in = []"
  "cai_PolicyGroups ex_activate_in = []"
  by (simp_all add: ex_activate_in_def zero_activation_def)

lemma ex_activation_decodes:
  "decode_body activation_field zero_activation ex_activate_request new_writer = (Some ex_activate_in, new_writer)"
proof -
  have "length (Marshal (JObj ex_activate_body)) < 300" by code_simp
  then have "Decode (take max_body (rq_Body ex_activate_request)) = Some (JObj ex_activate_body)"
    by (intro printed_body) (simp_all add: ex_request_def ex_activate_request_def max_body_def)
  moreover have "into_struct activation_field zero_activation (JObj ex_activate_body) = Some ex_activate_in" by code_simp
  ultimately show ?thesis by (simp add: decode_body_def)
qed

lemma ex_activation_runs:
  "\<exists>rest. wr_Body (fst ex_activation) = [OObj ((''access_token'', OStr ''atk_6d'') # rest)]"
  "hs_db (snd ex_activation) = snd ex_activated"
proof -
  have "case fst ex_activated of Inr x \<Rightarrow> cso_AccessToken x = ''atk_6d'' \<and> cso_Session x \<noteq> None | _ \<Rightarrow> False" by code_simp
  from okE [OF this] obtain x z where x: "ex_activated = (Inr x, snd ex_activated)" "cso_AccessToken x = ''atk_6d''"
      "cso_Session x = Some z" by blast
  obtain db where d: "snd ex_activated = db" by simp
  note c = x(1) [unfolded d, unfolded ex_activated_def ex_repo_def]
  have "bearer ex_activate_request = ''atk_6b''" by code_simp
  moreover have "rq_Principal ex_activate_request = Some ex_principal" by (simp add: ex_activate_request_def)
  moreover have "Auth_ActivateContext ''u1'' ex_activate_in = Inr ex_activate_in" by code_simp
  ultimately show "\<exists>rest. wr_Body (fst ex_activation) = [OObj ((''access_token'', OStr ''atk_6d'') # rest)]"
    "hs_db (snd ex_activation) = snd ex_activated"
    by (simp_all add: ex_activation_def Handler_activateContext_def ex_activation_decodes ex_handler_def Handler_New_def
        PrincipalFromContext_def not_user_def ex_principal_def ex_activate_in_simps c d x(2,3) setRefreshCookie_def)
qed

theorem activation_grants_requested_permissions_witness:
  "get_value (wr_Header (fst (http_mux ex_handler (ex_ambient ''z'')
     (ex_request ''GET'' ''/auth/verify'' (ex_token ''atk_6d'') []) new_writer (snd ex_activation)))) ''X-Permissions'' \<noteq> ''''"
proof -
  obtain rest where b: "wr_Body (fst ex_activation) = [OObj ((''access_token'', OStr ''atk_6d'') # rest)]"
    using ex_activation_runs(1) by blast
  have h: "hd_sha256 ex_handler = ex_sha" by (simp add: ex_handler_def Handler_New_def)
  have un: "unused (session_view (mem_graph ex_db1)) ses_AccessTokenHash (Hash ex_sha ''atk_6d'')"
    by (rule mem_unused) code_simp
  have t: "am_clk (ex_ambient ''z'') 0 \<le> trunc_sec (am_clk (ex_ambient ''m'') 3 + accessTTL (hd_cfg ex_handler))" by (rule ex_in_time)
  have "is_ok (fst (VerifyToken ex_sha ex_repo (am_clk (ex_ambient ''z'') 0) ''atk_6d'' (snd ex_activated)))" by code_simp
  note ok = ok_not_store_error [OF this]
  have "wf_graph (mem_graph (hs_db \<lparr>hs_db = ex_db1, hs_touch = []\<rparr>))" by (simp add: ex_wf1)
  note l = activation_grants_requested_permissions [OF mem.dgraph_client_axioms this ex_handler_sessions,
      of "ex_ambient ''m''" ex_activate_request "fst ex_activation" "snd ex_activation" "''atk_6d''" rest,
      folded ex_activation_def, OF surjective_pairing b]
  have ne: "set ps = {''refund.approve''} \<Longrightarrow> str_join '','' ps \<noteq> ''''" for ps
    by (cases ps; cases "tl ps") auto
  from l [OF _ _ _ _ t surjective_pairing, of "ex_request ''GET'' ''/auth/verify'' (ex_token ''atk_6d'') []"] un ok show ?thesis
    by (auto simp: ex_request_def ex_token_def get_value_def ex_activation_runs(2) ex_repo_def h ex_activation_decodes
        ex_activate_in_simps dest!: ne)
qed

end
