(* ===== verification/Login_Theorems.thy ===== *)
theory Login_Theorems
  imports Http_Theorems
begin

text \<open>
  What \<^verbatim>\<open>POST /auth/login\<close> and \<^verbatim>\<open>POST /auth/service/token\<close> hand out: the response, the session behind it and what the
  tokens in it open afterwards.
\<close>

section \<open>The response that opens a session\<close>

definition login_session :: "request \<Rightarrow> User \<Rightarrow> CreateSessionInput" where
  "login_session r u =
     \<lparr>csn_Kind = PrincipalKindUser, csn_UserID = usr_ID u, csn_ClientID = '''', csn_ActorID = '''',
      csn_ActorType = '''', csn_Permissions = [], csn_DelegatedPermissions = [], csn_PolicyGroups = [],
      csn_PermissionVersion = 0, csn_UserAgent = UserAgent r, csn_IPAddress = clientIP r\<rparr>"

definition service_session :: "request \<Rightarrow> ServiceAccount \<Rightarrow> CreateSessionInput" where
  "service_session r acct =
     \<lparr>csn_Kind = PrincipalKindService, csn_UserID = '''', csn_ClientID = sa_ClientID acct,
      csn_ActorID = '''', csn_ActorType = sa_ActorType acct, csn_Permissions = sa_Permissions acct,
      csn_DelegatedPermissions = [], csn_PolicyGroups = [], csn_PermissionVersion = 0,
      csn_UserAgent = UserAgent r, csn_IPAddress = clientIP r\<rparr>"

definition login_response :: "'db Handler \<Rightarrow> ambient \<Rightarrow> CreateSessionOutput \<Rightarrow> Session \<Rightarrow> writer" where
  "login_response h a out q =
     respond 200 (OObj [(''access_token'', OStr (cso_AccessToken out)), (''expires_in'', expires_in h)])
       (setRefreshCookie (am_clk a 9) (cso_RefreshToken out) (ses_RefreshExpiresAt q) new_writer)"

lemma login_response_simps [simp]:
  "wr_Body (login_response h a out q) =
     [OObj [(''access_token'', OStr (cso_AccessToken out)), (''expires_in'', expires_in h)]]"
  "wr_Header (login_response h a out q) = [(''Content-Type'', ''application/json'')]"
  "wr_Cookies (login_response h a out q) =
     [\<lparr>ck_Name = ''rtk'', ck_Value = cso_RefreshToken out, ck_Path = ''/auth/refresh'',
       ck_Expires = Some (ses_RefreshExpiresAt q), ck_MaxAge = duration_seconds (ses_RefreshExpiresAt q - am_clk a 9),
       ck_HttpOnly = True, ck_Secure = True, ck_SameSiteStrict = True\<rparr>]"
  by (simp_all add: login_response_def setRefreshCookie_def refreshCookieName_def refreshCookiePath_def respond_def
      Header_Set_def SetCookie_def WriteHeader_def Encode_def new_writer_def Let_def)

lemma error_status:
  "wr_Status (handleServiceError e new_writer) \<noteq> Some 200" "wr_Status (panic new_writer) \<noteq> Some 200"
  by (simp_all add: handleServiceError_def panic_def)

lemma login_opens:
  assumes "Handler_login h a r new_writer s = (w, s')" "wr_Status w = Some 200"
  obtains input u out q where "decode_body login_field zero_login r new_writer = (Some input, new_writer)"
    "fst (Auth_Login (hd_svc h) (hd_bc h) input (hs_db s)) = Inr u"
    "Session_Create (hd_sha256 h) (hd_cfg h) (hd_sessions h) (after 1 a) (am_ent a) (login_session r u) (hs_db s) =
       (Inr out, hs_db s')"
    "cso_Session out = Some q" "w = login_response h a out q"
proof (cases rule: decode_cases [of login_field zero_login r new_writer])
  case bad
  then show ?thesis using assms by (auto simp: Handler_login_def)
next
  case (good input)
  note H = assms(1) [unfolded Handler_login_def good prod.case option.case, folded login_session_def]
  show ?thesis
  proof (cases "fst (Auth_Login (hd_svc h) (hd_bc h) input (hs_db s))")
    case (Inl err)
    then show ?thesis using H assms(2) error_status(1) [of err] by auto
  next
    case (Inr u)
    then show ?thesis using H assms(2) good error_status(2)
      by (auto simp: login_response_def intro!: that split: prod.splits sum.splits option.splits)
  qed
qed

lemma service_login_opens:
  assumes "Handler_serviceLogin h a r new_writer s = (w, s')" "wr_Status w = Some 200"
  obtains input acct out q where "decode_body service_login_field zero_service_login r new_writer = (Some input, new_writer)"
    "fst (ServiceAuth_Login (hd_svcAuth h) (hd_bc h) input (hs_db s)) = Inr acct"
    "Session_Create (hd_sha256 h) (hd_cfg h) (hd_sessions h) (after 1 a) (am_ent a) (service_session r acct) (hs_db s) =
       (Inr out, hs_db s')"
    "cso_Session out = Some q" "w = login_response h a out q"
proof (cases rule: decode_cases [of service_login_field zero_service_login r new_writer])
  case bad
  then show ?thesis using assms by (auto simp: Handler_serviceLogin_def)
next
  case (good input)
  note H = assms(1) [unfolded Handler_serviceLogin_def good prod.case option.case, folded service_session_def]
  show ?thesis
  proof (cases "fst (ServiceAuth_Login (hd_svcAuth h) (hd_bc h) input (hs_db s))")
    case (Inl err)
    then show ?thesis using H assms(2) error_status(1) [of err] by auto
  next
    case (Inr acct)
    then show ?thesis using H assms(2) good error_status(2)
      by (auto simp: login_response_def intro!: that split: prod.splits sum.splits option.splits)
  qed
qed

context dgraph_client
begin

lemma created_id: "SessionRepo_Create dg now inp db = (Inr (Some q), db') \<Longrightarrow> ses_ID q \<noteq> ''''"
proof -
  assume "SessionRepo_Create dg now inp db = (Inr (Some q), db')"
  then obtain u where u: "SessionRepo_GetByID dg u db' = Inr (Some q)"
    by (auto simp: SessionRepo_Create_def Let_def split: prod.splits sum.splits if_splits)
  then have "re_match validDgraphUID u" by (auto simp: SessionRepo_GetByID_def split: if_splits)
  moreover have "ses_ID q = u" using get_by_id_ok [OF u, symmetric] by (rule view_ID)
  ultimately show ?thesis by (auto dest: validDgraphUID_nonempty)
qed

text \<open>The session that a successful \<open>Create\<close> opens.\<close>

lemma session_opened:
  assumes "wf_graph (graph db)" "Session_Create sha256 cfg (dgraph_session_repo dg) clk ent i db = (Inr out, db')"
    and "cso_Session out = Some q"
  shows "session_view (graph db) (ses_ID q) = None" "session_view (graph db') = (session_view (graph db))(ses_ID q \<mapsto> q)"
    "wf_graph (graph db')" "ses_ID q \<noteq> ''''" "ses_Kind q = csn_Kind i" "ses_UserID q = csn_UserID i"
    "ses_ClientID q = csn_ClientID i" "ses_AccessTokenHash q = Hash sha256 (cso_AccessToken out)"
    "ses_RefreshTokenHash q = Hash sha256 (cso_RefreshToken out)"
    "has_prefix (cso_AccessToken out) ''atk_''" "has_prefix (cso_RefreshToken out) ''rtk_''"
proof -
  obtain s atk rtk jti where c: "mint sha256 ent = Inr (atk, rtk, jti)" "cso_Session out = Some s"
      "cso_AccessToken out = ot_Raw atk" "cso_RefreshToken out = ot_Raw rtk" "session_view (graph db) (ses_ID s) = None"
      "session_view (graph db') = (session_view (graph db))(ses_ID s \<mapsto> s)" "wf_graph (graph db')"
      "same_session s (new_session (ses_ID s) (clk 1) (create_input cfg (clk 0) atk rtk jti i))"
    by (rule session_repository.create_session [OF dgraph_sessions assms(1,2)])
  have q: "s = q" using c(2) assms(3) by simp
  show "session_view (graph db) (ses_ID q) = None" "session_view (graph db') = (session_view (graph db))(ses_ID q \<mapsto> q)"
    "wf_graph (graph db')" using c(5-7) q by simp_all
  show "ses_ID q \<noteq> ''''"
    using assms(2,3) by (auto simp: Session_Create_def dgraph_session_repo_def created_id split: sum.splits prod.splits)
  show "ses_Kind q = csn_Kind i" "ses_UserID q = csn_UserID i" "ses_ClientID q = csn_ClientID i"
    "ses_AccessTokenHash q = Hash sha256 (cso_AccessToken out)" "ses_RefreshTokenHash q = Hash sha256 (cso_RefreshToken out)"
    using same_sessionD [OF c(8)] mint_hash [OF c(1)] c(3,4) q by (simp_all add: new_session_def create_input_def)
  show "has_prefix (cso_AccessToken out) ''atk_''" "has_prefix (cso_RefreshToken out) ''rtk_''"
    using c(1,3,4) by (auto simp: mint_Inr has_prefix_def)
qed

end

section \<open>A user logs in\<close>

text \<open>C12: A login answered with 200 really logs the user in. The credentials were those of an active stored user; one
  session was opened, for that user, and its two tokens are in the response: the access token in the body and
  the refresh token nowhere but in the value of the one cookie, which scripts cannot read and which is bound to the refresh
  endpoint. Until the access window closes \<open>GET /auth/me\<close> with the access token answers 200 with that user's id (unless
  the store cannot be read: then 401).\<close>

theorem login_then_me:
  assumes "dgraph_client dg graph" "wf_graph (graph (hs_db s))" "wf_users (graph (hs_db s))"
    and "hd_sessions h = dgraph_session_repo dg" "as_repo (hd_svc h) = dgraph_user_repo dg"
    and "Handler_login h a r new_writer s = (w, s')" "wr_Status w = Some 200"
  shows "\<exists>input x u q tok c.
    decode_body login_field zero_login r new_writer = (Some input, new_writer) \<and>
    user_view (graph (hs_db s)) x = Some u \<and> usr_Email u = to_lower (trim_space (li_Email input)) \<and> usr_Active u \<and>
    bc_Compare (hd_bc h) (usr_PasswordHash u) (li_Password input) \<and>
    session_view (graph (hs_db s)) (ses_ID q) = None \<and>
    session_view (graph (hs_db s')) = (session_view (graph (hs_db s)))(ses_ID q \<mapsto> q) \<and> ses_UserID q = usr_ID u \<and>
    ses_AccessTokenHash q = Hash (hd_sha256 h) tok \<and> has_prefix tok ''atk_'' \<and>
    ses_RefreshTokenHash q = Hash (hd_sha256 h) (ck_Value c) \<and> has_prefix (ck_Value c) ''rtk_'' \<and>
    wr_Body w = [OObj [(''access_token'', OStr tok), (''expires_in'', expires_in h)]] \<and>
    wr_Header w = [(''Content-Type'', ''application/json'')] \<and>
    wr_Cookies w = [c] \<and> ck_Name c = ''rtk'' \<and> ck_Path c = ''/auth/refresh'' \<and> ck_HttpOnly c \<and> ck_Secure c \<and>
    ck_SameSiteStrict c \<and> ck_Expires c = Some (ses_RefreshExpiresAt q) \<and>
    (\<forall>a2 r2 w2 s2. unused (session_view (graph (hs_db s))) ses_AccessTokenHash (Hash (hd_sha256 h) tok) \<and>
       rq_Method r2 = ''GET'' \<and> rq_Path r2 = ''/auth/me'' \<and> get_value (rq_Header r2) ''Authorization'' = ''Bearer '' @ tok \<and>
       am_clk a2 0 \<le> trunc_sec (am_clk a 1 + accessTTL (hd_cfg h)) \<and> http_mux h a2 r2 new_writer s' = (w2, s2) \<longrightarrow>
       (if store_error (fst (VerifyToken (hd_sha256 h) (hd_sessions h) (am_clk a2 0) tok (hs_db s')))
        then wr_Status w2 = Some 401
        else wr_Status w2 = Some 200 \<and> wr_Body w2 = [me_body (usr_ID u)]))"
proof -
  note S = dgraph_client.dgraph_sessions [OF assms(1)]
  obtain input u out q where l: "decode_body login_field zero_login r new_writer = (Some input, new_writer)"
      "fst (Auth_Login (hd_svc h) (hd_bc h) input (hs_db s)) = Inr u"
      "Session_Create (hd_sha256 h) (hd_cfg h) (dgraph_session_repo dg) (after 1 a) (am_ent a) (login_session r u) (hs_db s) =
         (Inr out, hs_db s')"
      "cso_Session out = Some q" "w = login_response h a out q"
    using login_opens [OF assms(6,7)] assms(4) by metis
  note o = dgraph_client.session_opened [OF assms(1,2) l(3,4)]
  obtain x where x: "user_view (graph (hs_db s)) x = Some u" "usr_Email u = to_lower (trim_space (li_Email input))"
      "usr_Active u" "bc_Compare (hd_bc h) (usr_PasswordHash u) (li_Password input)"
    using user_repository.login_stored [OF dgraph_client.dgraph_users [OF assms(1)] assms(3,5) l(2)] by blast
  let ?tok = "cso_AccessToken out"
  have me: "if store_error (fst (VerifyToken (hd_sha256 h) (hd_sessions h) (am_clk a2 0) ?tok (hs_db s')))
      then wr_Status w2 = Some 401
      else wr_Status w2 = Some 200 \<and> wr_Body w2 = [me_body (usr_ID u)]"
    if m: "unused (session_view (graph (hs_db s))) ses_AccessTokenHash (Hash (hd_sha256 h) ?tok)"
        "rq_Method r2 = ''GET''" "rq_Path r2 = ''/auth/me''" "get_value (rq_Header r2) ''Authorization'' = ''Bearer '' @ ?tok"
        "am_clk a2 0 \<le> trunc_sec (am_clk a 1 + accessTTL (hd_cfg h))" "http_mux h a2 r2 new_writer s' = (w2, s2)"
    for a2 r2 w2 s2
  proof -
    have "am_clk a2 0 \<le> trunc_sec (after 1 a 0 + accessTTL (hd_cfg h))" using m(5) by (simp add: after_def)
    note v = session_repository.created_verifies [OF S assms(2) l(3) m(1) this]
    have "get_value (rq_Header (r2\<lparr>rq_PathValue := []\<rparr>)) ''Authorization'' = ''Bearer '' @ ?tok" using m(4) by simp
    note mux = m(6) [unfolded mux_me [OF m(2,3)] bearer_simps(2) [OF this] session_verifier_def assms(4)]
    from v show ?thesis
    proof (elim disjE exE conjE)
      fix e assume "VerifyToken (hd_sha256 h) (dgraph_session_repo dg) (am_clk a2 0) ?tok (hs_db s') = (Inl e, [])" "foreign e"
      then show ?thesis using mux by (auto simp: store_error_def mw_writeError_def assms(4))
    next
      fix p y assume p: "VerifyToken (hd_sha256 h) (dgraph_session_repo dg) (am_clk a2 0) ?tok (hs_db s') = (Inr (sessionToPrincipal p), [y])"
        "carries (login_session r u) (sessionToPrincipal p)"
      then show ?thesis using mux
        by (auto simp: store_error_def Handler_me_def PrincipalFromContext_def carries_def login_session_def
            me_body_def strs_out_def sessionToPrincipal_def PrincipalKindUser_def assms(4))
    qed
  qed
  show ?thesis
    by (intro exI [of _ input] exI [of _ x] exI [of _ u] exI [of _ q] exI [of _ ?tok] exI [of _ "hd (wr_Cookies w)"] conjI l(1) x o;
      (use me in blast)?) (simp_all add: l(5) o login_session_def)
qed

section \<open>Two service accounts log in\<close>

lemma mux_revoke:
  assumes "rq_Method r = ''DELETE''" "segments (rq_Path r) = [''auth'', ''sessions'', sid]" "sid \<noteq> ''''"
  shows "http_mux h a r w s = Authenticate (session_verifier h a) (Handler_revokeSession h a) (r\<lparr>rq_PathValue := [(''id'', sid)]\<rparr>) w s"
  using assms by (simp add: http_mux_def ServeMux_def RegisterRoutes_def Let_def method_matches_def)

lemma revoke_as_owner:
  assumes "dgraph_client dg graph" "wf_graph (graph db)" "session_view (graph db) sid = Some s"
    and "RevokeSession (dgraph_session_repo dg) now sid (ses_UserID s) db = (r, db')"
  shows "store_error r \<or> r = Inr () \<and> session_view (graph db') = (session_view (graph db))(sid \<mapsto> revoked_at now s)"
proof (cases "SessionRepo_GetByID dg sid db")
  case (Inl e)
  then show ?thesis
    using assms(4) dgraph_client.get_by_id_err [OF assms(1) Inl] by (auto simp: RevokeSession_def dgraph_session_repo_def)
next
  case (Inr x)
  note S = dgraph_client.dgraph_sessions [OF assms(1)]
  from Inr dgraph_client.get_by_id_ok [OF assms(1) Inr] assms(3,4)
  have rv: "sr_Revoke (dgraph_session_repo dg) now sid db = (r, db')"
    by (simp add: RevokeSession_def dgraph_session_repo_def)
  show ?thesis
    using session_repository.revoke_ok [OF S assms(2)] session_repository.revoke_err [OF S assms(2)] rv assms(3)
    by (cases r) auto
qed

lemma Handler_revokeSession_outcome:
  assumes "Handler_revokeSession h a r new_writer s = (w, s')" "PrincipalFromContext r = Some p"
    and "get_value (rq_PathValue r) ''id'' = sid" "sid \<noteq> ''''"
    and "RevokeSession (hd_sessions h) (am_clk a 1) sid (prin_UserID p) (hs_db s) = (y, db)" "store_error y \<or> y = Inr ()"
  shows "hs_db s' = db" "if store_error y then wr_Status w = Some 500 else wr_Status w = Some 204"
  using assms by (auto simp: Handler_revokeSession_def Let_def store_error_def split: sum.splits)

text \<open>C27: Service accounts are not isolated from each other. Whichever service accounts log in, over whatever store of
  accounts, the session that \<^verbatim>\<open>POST /auth/service/token\<close> opens for the first has the empty user ID, and the token that
  the second gets lets it end that session: \<^verbatim>\<open>DELETE /auth/sessions/{id}\<close> answers 204 and the session is revoked (unless
  the store cannot be read or written).\<close>

theorem service_sessions_not_isolated:
  assumes "dgraph_client dg graph" "wf_graph (graph (hs_db s0))" "hd_sessions h = dgraph_session_repo dg"
    and "Handler_serviceLogin h a r new_writer s0 = (w1, s1)" "wr_Status w1 = Some 200"
    and "Handler_serviceLogin h b q new_writer s1 = (w2, s2)" "wr_Status w2 = Some 200"
  shows "\<exists>input acct victim other tok e.
    decode_body service_login_field zero_service_login r new_writer = (Some input, new_writer) \<and>
    fst (ServiceAuth_Login (hd_svcAuth h) (hd_bc h) input (hs_db s0)) = Inr acct \<and>
    ses_ClientID victim = sa_ClientID acct \<and> ses_UserID victim = '''' \<and>
    session_view (graph (hs_db s0)) (ses_ID victim) = None \<and> session_view (graph (hs_db s2)) (ses_ID victim) = Some victim \<and>
    session_view (graph (hs_db s2)) (ses_ID other) = Some other \<and> ses_ID other \<noteq> ses_ID victim \<and>
    ses_AccessTokenHash other = Hash (hd_sha256 h) tok \<and>
    wr_Body w2 = [OObj [(''access_token'', OStr tok), e]] \<and>
    (\<forall>c d w3 s3. unused (session_view (graph (hs_db s1))) ses_AccessTokenHash (Hash (hd_sha256 h) tok) \<and>
       rq_Method d = ''DELETE'' \<and> segments (rq_Path d) = [''auth'', ''sessions'', ses_ID victim] \<and>
       get_value (rq_Header d) ''Authorization'' = ''Bearer '' @ tok \<and>
       am_clk c 0 \<le> trunc_sec (am_clk b 1 + accessTTL (hd_cfg h)) \<and> http_mux h c d new_writer s2 = (w3, s3) \<longrightarrow>
       (if store_error (fst (VerifyToken (hd_sha256 h) (hd_sessions h) (am_clk c 0) tok (hs_db s2)))
        then wr_Status w3 = Some 401
        else if store_error (fst (RevokeSession (hd_sessions h) (am_clk c 1) (ses_ID victim) '''' (hs_db s2)))
        then wr_Status w3 = Some 500
        else wr_Status w3 = Some 204 \<and>
          session_view (graph (hs_db s3)) = (session_view (graph (hs_db s2)))(ses_ID victim \<mapsto> revoked_at (am_clk c 1) victim)))"
proof -
  note S = dgraph_client.dgraph_sessions [OF assms(1)]
  obtain i1 v1 o1 q1 where d1: "decode_body service_login_field zero_service_login r new_writer = (Some i1, new_writer)"
    and l1: "fst (ServiceAuth_Login (hd_svcAuth h) (hd_bc h) i1 (hs_db s0)) = Inr v1"
      "Session_Create (hd_sha256 h) (hd_cfg h) (dgraph_session_repo dg) (after 1 a) (am_ent a) (service_session r v1) (hs_db s0) =
         (Inr o1, hs_db s1)" "cso_Session o1 = Some q1"
    using service_login_opens [OF assms(4,5)] assms(3) by metis
  note s1 = dgraph_client.session_opened [OF assms(1,2) l1(2,3)]
  obtain v2 o2 q2 where l2: "cso_Session o2 = Some q2" "w2 = login_response h b o2 q2"
      "Session_Create (hd_sha256 h) (hd_cfg h) (dgraph_session_repo dg) (after 1 b) (am_ent b) (service_session q v2) (hs_db s1) =
         (Inr o2, hs_db s2)"
    using service_login_opens [OF assms(6,7)] assms(3) by metis
  note s2 = dgraph_client.session_opened [OF assms(1) s1(3) l2(3,1)]
  let ?sid = "ses_ID q1" and ?tok = "cso_AccessToken o2"
  have ne: "ses_ID q2 \<noteq> ?sid" using s2(1) s1(2) by auto
  then have v: "session_view (graph (hs_db s2)) ?sid = Some q1" using s2(2) s1(2) by simp
  have u: "ses_UserID q1 = ''''" by (simp add: s1(6) service_session_def)
  have ends: "if store_error (fst (VerifyToken (hd_sha256 h) (hd_sessions h) (am_clk c 0) ?tok (hs_db s2)))
        then wr_Status w3 = Some 401
        else if store_error (fst (RevokeSession (hd_sessions h) (am_clk c 1) ?sid '''' (hs_db s2)))
        then wr_Status w3 = Some 500
        else wr_Status w3 = Some 204 \<and>
          session_view (graph (hs_db s3)) = (session_view (graph (hs_db s2)))(?sid \<mapsto> revoked_at (am_clk c 1) q1)"
    if m: "unused (session_view (graph (hs_db s1))) ses_AccessTokenHash (Hash (hd_sha256 h) ?tok)"
        "rq_Method d = ''DELETE''" "segments (rq_Path d) = [''auth'', ''sessions'', ?sid]"
        "get_value (rq_Header d) ''Authorization'' = ''Bearer '' @ ?tok"
        "am_clk c 0 \<le> trunc_sec (am_clk b 1 + accessTTL (hd_cfg h))" "http_mux h c d new_writer s2 = (w3, s3)"
    for c d w3 s3
  proof -
    have "am_clk c 0 \<le> trunc_sec (after 1 b 0 + accessTTL (hd_cfg h))" using m(5) by (simp add: after_def)
    note ver = session_repository.created_verifies [OF S s1(3) l2(3) m(1) this]
    let ?d = "d\<lparr>rq_PathValue := [(''id'', ?sid)]\<rparr>"
    have "get_value (rq_Header ?d) ''Authorization'' = ''Bearer '' @ ?tok" using m(4) by simp
    note mux = m(6) [unfolded mux_revoke [OF m(2,3) s1(4)] bearer_simps(2) [OF this] session_verifier_def assms(3)]
    obtain y db where y: "RevokeSession (dgraph_session_repo dg) (am_clk c 1) ?sid '''' (hs_db s2) = (y, db)" by fastforce
    note o = revoke_as_owner [OF assms(1) s2(3) v, unfolded u, OF y]
    from ver show ?thesis
    proof (elim disjE exE conjE)
      fix e assume "VerifyToken (hd_sha256 h) (dgraph_session_repo dg) (am_clk c 0) ?tok (hs_db s2) = (Inl e, [])" "foreign e"
      then show ?thesis using mux by (auto simp: store_error_def mw_writeError_def assms(3))
    next
      fix p x assume p: "VerifyToken (hd_sha256 h) (dgraph_session_repo dg) (am_clk c 0) ?tok (hs_db s2) = (Inr (sessionToPrincipal p), [x])"
        "carries (service_session q v2) (sessionToPrincipal p)"
      let ?s = "s2\<lparr>hs_touch := hs_touch s2 @ [x]\<rparr>"
      have h: "Handler_revokeSession h c (?d\<lparr>rq_Principal := Some (sessionToPrincipal p)\<rparr>) new_writer ?s = (w3, s3)"
        using mux p(1) by simp
      have "prin_UserID (sessionToPrincipal p) = ''''" using p(2) by (simp add: carries_def service_session_def)
      then have "hs_db s3 = db" "if store_error y then wr_Status w3 = Some 500 else wr_Status w3 = Some 204"
        using Handler_revokeSession_outcome [OF h _ _ s1(4), of "sessionToPrincipal p" y db] y o
        by (auto simp: PrincipalFromContext_def get_value_def assms(3))
      then show ?thesis using o y p(1) by (auto simp: assms(3))
    qed
  qed
  show ?thesis
    by (rule exI [of _ i1], rule exI [of _ v1], rule exI [of _ q1], rule exI [of _ q2], rule exI [of _ ?tok],
        rule exI [of _ "(''expires_in'', expires_in h)"], intro conjI; (use ends in blast)?)
      (simp_all add: d1 l1(1) l2(2) s1(1,2,6,7) s2(2,8) ne ne [symmetric] service_session_def)
qed

section \<open>Runs\<close>

definition ex_login_body :: "(string \<times> json) list" where
  "ex_login_body = [(''email'', JStr ''ada@x.io''), (''password'', JStr ''passw0rd'')]"

definition ex_login_request :: request where
  "ex_login_request = ex_request ''POST'' ''/auth/login'' [] ex_login_body"

definition ex_logged_in :: "CreateSessionOutput res \<times> mem" where
  "ex_logged_in = Session_Create ex_sha ex_cfg ex_repo (after (Suc 0) (ex_ambient ''k'')) (am_ent (ex_ambient ''k''))
    \<lparr>csn_Kind = PrincipalKindUser, csn_UserID = ''id1'', csn_ClientID = '''', csn_ActorID = '''',
      csn_ActorType = '''', csn_Permissions = [], csn_DelegatedPermissions = [], csn_PolicyGroups = [],
      csn_PermissionVersion = 0, csn_UserAgent = '''', csn_IPAddress = ''192.0.2.1:4000''\<rparr> ex_udb"

definition ex_login :: "writer \<times> mem hstate" where
  "ex_login = Handler_login ex_handler (ex_ambient ''k'') ex_login_request new_writer \<lparr>hs_db = ex_udb, hs_touch = []\<rparr>"

definition ex_login_in :: LoginInput where
  "ex_login_in = \<lparr>li_Email = ''ada@x.io'', li_Password = ''passw0rd''\<rparr>"

lemma ex_login_decodes: "decode_body login_field zero_login ex_login_request new_writer = (Some ex_login_in, new_writer)"
proof -
  have "length (Marshal (JObj ex_login_body)) < 300" by code_simp
  then have "Decode (take max_body (rq_Body ex_login_request)) = Some (JObj ex_login_body)"
    by (intro printed_body) (simp_all add: ex_request_def ex_login_request_def max_body_def)
  moreover have "into_struct login_field zero_login (JObj ex_login_body) = Some ex_login_in" by code_simp
  ultimately show ?thesis by (simp add: decode_body_def)
qed

lemma ex_login_user: "\<exists>u. fst (Auth_Login ex_auth ex_bcrypt ex_login_in ex_udb) = Inr u \<and> usr_ID u = ''id1''"
proof -
  have "case fst (Auth_Login ex_auth ex_bcrypt ex_login_in ex_udb) of Inr u \<Rightarrow> usr_ID u = ''id1'' | _ \<Rightarrow> False" by code_simp
  then show ?thesis by (auto split: sum.splits)
qed

lemma ex_login_runs:
  "wr_Status (fst ex_login) = Some 200"
  "wr_Body (fst ex_login) = [OObj [(''access_token'', OStr ''atk_6b''), (''expires_in'', expires_in ex_handler)]]"
  "hs_db (snd ex_login) = snd ex_logged_in"
proof -
  obtain u where u: "fst (Auth_Login ex_auth ex_bcrypt ex_login_in ex_udb) = Inr u" "usr_ID u = ''id1''"
    using ex_login_user by blast
  have "case fst ex_logged_in of Inr x \<Rightarrow> cso_AccessToken x = ''atk_6b'' \<and> cso_Session x \<noteq> None | _ \<Rightarrow> False" by code_simp
  from okE [OF this] obtain x z where x: "ex_logged_in = (Inr x, snd ex_logged_in)" "cso_AccessToken x = ''atk_6b''"
      "cso_Session x = Some z" by blast
  have ip: "clientIP ex_login_request = ''192.0.2.1:4000''" "UserAgent ex_login_request = ''''"
    by (simp_all add: clientIP_def UserAgent_def get_value_def ex_login_request_def ex_request_def)
  obtain db where d: "snd ex_logged_in = db" by simp
  note c = x(1) [unfolded d, unfolded ex_logged_in_def ex_repo_def]
  show "wr_Status (fst ex_login) = Some 200" "wr_Body (fst ex_login) = [OObj [(''access_token'', OStr ''atk_6b''), (''expires_in'', expires_in ex_handler)]]"
    "hs_db (snd ex_login) = snd ex_logged_in"
    by (simp_all add: ex_login_def Handler_login_def ex_login_decodes ex_handler_def Handler_New_def u ip c d x(2,3) setRefreshCookie_def)
qed

theorem login_then_me_witness:
  "wr_Body (fst (http_mux ex_handler (ex_ambient ''z'') (ex_request ''GET'' ''/auth/me'' (ex_token ''atk_6b'') [])
     new_writer (snd ex_login))) = [me_body ''id1'']"
proof -
  let ?s = "\<lparr>hs_db = ex_udb, hs_touch = []\<rparr>" and ?r2 = "ex_request ''GET'' ''/auth/me'' (ex_token ''atk_6b'') []"
  have wf: "wf_graph (mem_graph (hs_db ?s))" "wf_users (mem_graph (hs_db ?s))" by (simp_all add: ex_udb_wf ex_uwf)
  have h: "hd_sha256 ex_handler = ex_sha" "as_repo (hd_svc ex_handler) = dgraph_user_repo mem_dgraph"
    by (simp_all add: ex_handler_def Handler_New_def ex_auth_def)
  have un: "unused (session_view (mem_graph ex_udb)) ses_AccessTokenHash (Hash (hd_sha256 ex_handler) ''atk_6b'')"
    by (rule mem_unused) code_simp
  have t: "am_clk (ex_ambient ''z'') 0 \<le> trunc_sec (am_clk (ex_ambient ''k'') 1 + accessTTL (hd_cfg ex_handler))" by (rule ex_in_time)
  have "is_ok (fst (VerifyToken ex_sha ex_repo (am_clk (ex_ambient ''z'') 0) ''atk_6b'' (snd ex_logged_in)))" by code_simp
  note ok = ok_not_store_error [OF this]
  have r2: "rq_Method ?r2 = ''GET''" "rq_Path ?r2 = ''/auth/me''" "get_value (rq_Header ?r2) ''Authorization'' = ''Bearer '' @ ''atk_6b''"
    by (simp_all add: ex_request_def ex_token_def get_value_def)
  from login_then_me [OF mem.dgraph_client_axioms wf ex_handler_sessions h(2) surjective_pairing, of "ex_ambient ''k''" ex_login_request,
      folded ex_login_def, OF ex_login_runs(1)] obtain x u tok where
    u: "user_view (mem_graph ex_udb) x = Some u"
    and b: "wr_Body (fst ex_login) = [OObj [(''access_token'', OStr tok), (''expires_in'', expires_in ex_handler)]]"
    and me: "\<And>a2 r2 w2 s2. unused (session_view (mem_graph ex_udb)) ses_AccessTokenHash (Hash (hd_sha256 ex_handler) tok) \<and>
       rq_Method r2 = ''GET'' \<and> rq_Path r2 = ''/auth/me'' \<and> get_value (rq_Header r2) ''Authorization'' = ''Bearer '' @ tok \<and>
       am_clk a2 0 \<le> trunc_sec (am_clk (ex_ambient ''k'') 1 + accessTTL (hd_cfg ex_handler)) \<and>
       http_mux ex_handler a2 r2 new_writer (snd ex_login) = (w2, s2) \<longrightarrow>
       (if store_error (fst (VerifyToken (hd_sha256 ex_handler) (hd_sessions ex_handler) (am_clk a2 0) tok (hs_db (snd ex_login))))
        then wr_Status w2 = Some 401
        else wr_Status w2 = Some 200 \<and> wr_Body w2 = [me_body (usr_ID u)])"
    unfolding hstate.simps by blast
  have tok: "tok = ''atk_6b''" using b ex_login_runs(2) by simp
  have "x = ''0x1''" using u by (simp add: user_view_def user_typed_def mem_graph_def ex_udb_def split: if_splits)
  moreover have "map_option usr_ID (user_view (mem_graph ex_udb) ''0x1'') = Some ''id1''" by code_simp
  ultimately have i: "usr_ID u = ''id1''" using u by simp
  show ?thesis
    using me [of ?r2 "ex_ambient ''z''" "fst (http_mux ex_handler (ex_ambient ''z'') ?r2 new_writer (snd ex_login))"
        "snd (http_mux ex_handler (ex_ambient ''z'') ?r2 new_writer (snd ex_login))"] un r2 t ok
    by (simp add: tok i h(1) ex_login_runs(3) ex_repo_def)
qed

text \<open>Two service accounts, in a store that has one for every client ID.\<close>

definition ex_svc :: "string \<Rightarrow> ServiceAccount" where
  "ex_svc cid =
     \<lparr>sa_ID = ''s1'', sa_ClientID = cid, sa_Name = ''svc'', sa_SecretHash = ''$2a$'' @ ex_secret, sa_ActorType = ''DISPATCHER'',
      sa_Permissions = [], sa_Active = True, sa_CreatedAt = 0, sa_UpdatedAt = 0\<rparr>"

definition ex_svc_repo :: "mem service_account_repo" where
  "ex_svc_repo =
     \<lparr>sar_CreateServiceAccount = (\<lambda>a db. (Inl (Foreign ''read only''), db)), sar_GetByClientID = (\<lambda>cid z db. Inr (ex_svc cid)),
      sar_Deactivate = (\<lambda>now cid seen db. (Inl (Foreign ''read only''), db))\<rparr>"

definition ex_svc_handler :: "mem Handler" where
  "ex_svc_handler = ex_handler\<lparr>hd_svcAuth := \<lparr>sas_repo = ex_svc_repo, sas_bcryptCost = 12\<rparr>\<rparr>"

definition ex_svc_request :: "string \<Rightarrow> request" where
  "ex_svc_request cid = ex_request ''POST'' ''/auth/service/token'' [] [(''ClientID'', JStr cid), (''ClientSecret'', JStr ex_secret)]"

definition ex_svc_session :: "string \<Rightarrow> CreateSessionInput" where
  "ex_svc_session cid =
     \<lparr>csn_Kind = PrincipalKindService, csn_UserID = '''', csn_ClientID = cid, csn_ActorID = '''', csn_ActorType = ''DISPATCHER'',
      csn_Permissions = [], csn_DelegatedPermissions = [], csn_PolicyGroups = [], csn_PermissionVersion = 0,
      csn_UserAgent = '''', csn_IPAddress = ''192.0.2.1:4000''\<rparr>"

definition ex_svc1 :: "CreateSessionOutput res \<times> mem" where
  "ex_svc1 = Session_Create ex_sha ex_cfg ex_repo (after 1 (ex_ambient ''k'')) (am_ent (ex_ambient ''k'')) (ex_svc_session ''inv'') []"

definition ex_svc2 :: "CreateSessionOutput res \<times> mem" where
  "ex_svc2 = Session_Create ex_sha ex_cfg ex_repo (after 1 (ex_ambient ''m'')) (am_ent (ex_ambient ''m'')) (ex_svc_session ''bil'')
     (snd ex_svc1)"

lemma ex_svc_handler_simps [simp]:
  "hd_sessions ex_svc_handler = dgraph_session_repo mem_dgraph" "hd_sha256 ex_svc_handler = ex_sha" "hd_cfg ex_svc_handler = ex_cfg"
  "hd_bc ex_svc_handler = ex_bcrypt" "hd_svcAuth ex_svc_handler = \<lparr>sas_repo = ex_svc_repo, sas_bcryptCost = 12\<rparr>"
  by (simp_all add: ex_svc_handler_def ex_handler_def Handler_New_def)

lemma ex_svc_decodes:
  assumes "cid \<in> {''inv'', ''bil''}"
  shows "decode_body service_login_field zero_service_login (ex_svc_request cid) new_writer =
    (Some \<lparr>sli_ClientID = cid, sli_ClientSecret = ex_secret\<rparr>, new_writer)"
proof -
  let ?b = "\<lambda>cid. [(''ClientID'', JStr cid), (''ClientSecret'', JStr ex_secret)]"
  have "length (Marshal (JObj (?b ''inv''))) < 300" "length (Marshal (JObj (?b ''bil''))) < 300" by code_simp+
  then have "length (Marshal (JObj (?b cid))) < 300" using assms by blast
  then have "Decode (take max_body (rq_Body (ex_svc_request cid))) = Some (JObj (?b cid))"
    by (intro printed_body) (simp_all add: ex_request_def ex_svc_request_def max_body_def)
  moreover have "into_struct service_login_field zero_service_login (JObj (?b cid)) =
      Some \<lparr>sli_ClientID = cid, sli_ClientSecret = ex_secret\<rparr>"
  proof -
    have "fold_eq ''ClientID'' ''ClientID''" "fold_eq ''ClientSecret'' ''ClientSecret''" "\<not> fold_eq ''ClientSecret'' ''ClientID''"
      by code_simp+
    then show ?thesis by (simp add: into_struct_def service_login_field_def zero_service_login_def to_str_def)
  qed
  ultimately show ?thesis by (simp add: decode_body_def)
qed

lemma ex_svc_login:
  assumes "cid \<in> {''inv'', ''bil''}"
  shows "fst (ServiceAuth_Login \<lparr>sas_repo = ex_svc_repo, sas_bcryptCost = 12\<rparr> ex_bcrypt
    \<lparr>sli_ClientID = cid, sli_ClientSecret = ex_secret\<rparr> db) = Inr (ex_svc cid)"
proof -
  have "ex_secret \<noteq> ''''" by code_simp
  then show ?thesis
    using assms by (auto simp: ServiceAuth_Login_def ServiceLoginInput_Validate_def ex_svc_repo_def ex_svc_def ex_bcrypt_def)
qed

lemma ex_svc_runs:
  assumes "cid \<in> {''inv'', ''bil''}" "cso_Session out = Some z"
    and "Session_Create ex_sha ex_cfg ex_repo (after 1 (ex_ambient k)) (am_ent (ex_ambient k)) (ex_svc_session cid) db = (Inr out, db')"
  shows "Handler_serviceLogin ex_svc_handler (ex_ambient k) (ex_svc_request cid) new_writer \<lparr>hs_db = db, hs_touch = []\<rparr> =
    (login_response ex_svc_handler (ex_ambient k) out z, \<lparr>hs_db = db', hs_touch = []\<rparr>)"
proof -
  have "clientIP (ex_svc_request cid) = ''192.0.2.1:4000''" "UserAgent (ex_svc_request cid) = ''''"
    by (simp_all add: clientIP_def UserAgent_def get_value_def ex_svc_request_def ex_request_def)
  moreover note assms(3) [unfolded ex_svc_session_def ex_repo_def]
  ultimately show ?thesis
    by (simp add: Handler_serviceLogin_def ex_svc_decodes [OF assms(1)] ex_svc_login [OF assms(1)] ex_svc_def assms(2) login_response_def)
qed

lemma ex_svc_keys: "session_view (mem_graph db) x = Some s \<Longrightarrow> x \<in> set (map fst db)"
proof (rule ccontr)
  assume s: "session_view (mem_graph db) x = Some s" and "x \<notin> set (map fst db)"
  then have "map_of db x = None" by (simp add: map_of_eq_None_iff)
  then have "mem_graph db x = (\<lambda>_. [])" by (simp add: mem_graph_def)
  then show False using s by (simp add: session_view_def session_typed_def)
qed

theorem service_sessions_not_isolated_witness:
  "\<exists>victim. session_view (mem_graph (snd ex_svc2)) ''0x1'' = Some victim \<and> ses_ClientID victim = ''inv'' \<and>
     session_view (mem_graph (hs_db (snd (http_mux ex_svc_handler (ex_ambient ''z'')
       (ex_request ''DELETE'' ''/auth/sessions/0x1'' (ex_token ''atk_6d'') []) new_writer
       \<lparr>hs_db = snd ex_svc2, hs_touch = []\<rparr>)))) ''0x1'' = Some (revoked_at (ex_clk 1) victim)"
proof -
  let ?d = "ex_request ''DELETE'' ''/auth/sessions/0x1'' (ex_token ''atk_6d'') []" and ?s = "\<lambda>db. \<lparr>hs_db = db, hs_touch = []\<rparr>"
  have "case fst ex_svc1 of Inr x \<Rightarrow> cso_Session x \<noteq> None | _ \<Rightarrow> False" by code_simp
  from okE [OF this] obtain o1 z1 where o1: "ex_svc1 = (Inr o1, snd ex_svc1)" "cso_Session o1 = Some z1" by blast
  have "case fst ex_svc2 of Inr x \<Rightarrow> cso_AccessToken x = ''atk_6d'' \<and> cso_Session x \<noteq> None | _ \<Rightarrow> False" by code_simp
  from okE [OF this] obtain o2 z2 where o2: "ex_svc2 = (Inr o2, snd ex_svc2)" "cso_AccessToken o2 = ''atk_6d''" "cso_Session o2 = Some z2"
    by blast
  have r1: "Handler_serviceLogin ex_svc_handler (ex_ambient ''k'') (ex_svc_request ''inv'') new_writer (?s []) =
      (login_response ex_svc_handler (ex_ambient ''k'') o1 z1, ?s (snd ex_svc1))"
    by (rule ex_svc_runs [OF _ o1(2)]) (use o1(1) in \<open>simp_all add: ex_svc1_def\<close>)
  have r2: "Handler_serviceLogin ex_svc_handler (ex_ambient ''m'') (ex_svc_request ''bil'') new_writer (?s (snd ex_svc1)) =
      (login_response ex_svc_handler (ex_ambient ''m'') o2 z2, ?s (snd ex_svc2))"
    by (rule ex_svc_runs [OF _ o2(3)]) (use o2(1) in \<open>simp_all add: ex_svc2_def\<close>)
  have st: "wr_Status (login_response ex_svc_handler a out z) = Some 200" for a out z
    by (simp add: login_response_def setRefreshCookie_def)
  have wf: "wf_graph (mem_graph (hs_db (?s [])))" by (simp add: ex_wf0)
  obtain input acct victim tok e where i: "decode_body service_login_field zero_service_login (ex_svc_request ''inv'') new_writer =
        (Some input, new_writer)" "fst (ServiceAuth_Login \<lparr>sas_repo = ex_svc_repo, sas_bcryptCost = 12\<rparr> ex_bcrypt input []) = Inr acct"
      "ses_ClientID victim = sa_ClientID acct" and v: "ses_UserID victim = ''''"
      "session_view (mem_graph (snd ex_svc2)) (ses_ID victim) = Some victim"
      "wr_Body (login_response ex_svc_handler (ex_ambient ''m'') o2 z2) = [OObj [(''access_token'', OStr tok), e]]"
      "\<And>c d w3 s3. unused (session_view (mem_graph (snd ex_svc1))) ses_AccessTokenHash (Hash ex_sha tok) \<and>
         rq_Method d = ''DELETE'' \<and> segments (rq_Path d) = [''auth'', ''sessions'', ses_ID victim] \<and>
         get_value (rq_Header d) ''Authorization'' = ''Bearer '' @ tok \<and>
         am_clk c 0 \<le> trunc_sec (am_clk (ex_ambient ''m'') 1 + accessTTL ex_cfg) \<and>
         http_mux ex_svc_handler c d new_writer (?s (snd ex_svc2)) = (w3, s3) \<longrightarrow>
         (if store_error (fst (VerifyToken ex_sha (dgraph_session_repo mem_dgraph) (am_clk c 0) tok (snd ex_svc2)))
          then wr_Status w3 = Some 401
          else if store_error (fst (RevokeSession (dgraph_session_repo mem_dgraph) (am_clk c 1) (ses_ID victim) '''' (snd ex_svc2)))
          then wr_Status w3 = Some 500
          else wr_Status w3 = Some 204 \<and>
            session_view (mem_graph (hs_db s3)) =
              (session_view (mem_graph (snd ex_svc2)))(ses_ID victim \<mapsto> revoked_at (am_clk c 1) victim))"
    using service_sessions_not_isolated [OF mem.dgraph_client_axioms wf ex_svc_handler_simps(1) r1 st r2 st]
    unfolding hstate.simps ex_svc_handler_simps by blast
  have client: "ses_ClientID victim = ''inv''" using i by (simp add: ex_svc_decodes) (auto simp: ex_svc_login ex_svc_def)
  have tok: "tok = ''atk_6d''" using v(3) o2(2) by simp
  have sid: "ses_ID victim = ''0x1''"
  proof -
    have "map fst (snd ex_svc2) = [''0x1'', ''0x1111'']" by code_simp
    then have "ses_ID victim \<in> {''0x1'', ''0x1111''}" using ex_svc_keys [OF v(2)] by simp
    moreover have "map_option ses_ClientID (session_view (mem_graph (snd ex_svc2)) ''0x1111'') = Some ''bil''" by code_simp
    ultimately show ?thesis using v(2) client by auto
  qed
  have un: "unused (session_view (mem_graph (snd ex_svc1))) ses_AccessTokenHash (Hash ex_sha ''atk_6d'')"
    by (rule mem_unused) code_simp
  have "is_ok (fst (VerifyToken ex_sha ex_repo (ex_clk 0) ''atk_6d'' (snd ex_svc2)))"
    "is_ok (fst (RevokeSession ex_repo (ex_clk 1) ''0x1'' '''' (snd ex_svc2)))" by code_simp+
  note ok = this [THEN ok_not_store_error]
  have "segments ''/auth/sessions/0x1'' = [''auth'', ''sessions'', ''0x1'']" by code_simp
  then have d: "rq_Method ?d = ''DELETE''" "segments (rq_Path ?d) = [''auth'', ''sessions'', ''0x1'']"
      "get_value (rq_Header ?d) ''Authorization'' = ''Bearer '' @ ''atk_6d''"
    by (simp_all add: ex_request_def ex_token_def get_value_def)
  have c: "am_clk (ex_ambient ''z'') = ex_clk" by (simp add: ex_ambient_def)
  have t: "ex_clk 0 \<le> trunc_sec (am_clk (ex_ambient ''m'') 1 + accessTTL ex_cfg)"
    using ex_in_time [of "''z''" "''m''" 1] by (simp add: c ex_handler_def Handler_New_def)
  show ?thesis
    using v(4) [of ?d "ex_ambient ''z''" "fst (http_mux ex_svc_handler (ex_ambient ''z'') ?d new_writer (?s (snd ex_svc2)))"
        "snd (http_mux ex_svc_handler (ex_ambient ''z'') ?d new_writer (?s (snd ex_svc2)))"] un d t ok v(2) client
    by (intro exI [of _ victim]) (simp add: tok sid c ex_repo_def)
qed

end
