(* ===== verification/Dgraph_Schema.thy ===== *)
theory Dgraph_Schema
  imports Dgraph_Session Dgraph_Service_Account
begin

text \<open>
  The schemas of \<^verbatim>\<open>internal/repository/dgraph\<close> (the constants \<^verbatim>\<open>userSchema\<close>, \<^verbatim>\<open>serviceAccountSchema\<close> and
  \<^verbatim>\<open>sessionSchema\<close>) as data, the calls that install them, and what a server that enforces them does
  with the requests of the three repositories: nothing, no request is refused. \<^verbatim>\<open>Alter\<close> and the dialling of
  the connection are arguments.
\<close>

section \<open>Schemas\<close>

datatype stype = SString | SBool | SInt | SDatetime | SStrings \<comment> \<open>\<^verbatim>\<open>[string]\<close>\<close>

datatype index = IxExact | IxTerm | IxTrigram | IxBool | IxHour

record pred_decl =
  pd_Type :: stype
  pd_Index :: "index list"
  pd_Upsert :: bool

record schema =
  sch_Type :: string
  sch_Fields :: "pred list" \<comment> \<open>of the \<^verbatim>\<open>type\<close> block\<close>
  sch_Preds :: "(pred \<times> pred_decl) list"

abbreviation decl :: "stype \<Rightarrow> index list \<Rightarrow> pred_decl" where
  "decl t ix \<equiv> \<lparr>pd_Type = t, pd_Index = ix, pd_Upsert = False\<rparr>"

abbreviation upsert :: "stype \<Rightarrow> index list \<Rightarrow> pred_decl" where
  "upsert t ix \<equiv> \<lparr>pd_Type = t, pd_Index = ix, pd_Upsert = True\<rparr>"

definition userSchema :: schema where
  "userSchema =
     \<lparr>sch_Type = ''User'',
      sch_Fields = [U_id, U_first_name, U_last_name, U_nickname, U_password_hash, U_email, U_country, U_active,
        U_created_at, U_updated_at],
      sch_Preds =
        [(U_id, upsert SString [IxExact]),
         (U_email, upsert SString [IxExact]),
         (U_nickname, upsert SString [IxExact]),
         (U_first_name, decl SString [IxTrigram, IxTerm]),
         (U_last_name, decl SString [IxTrigram, IxTerm]),
         (U_country, decl SString [IxExact, IxTerm]),
         (U_password_hash, decl SString []),
         (U_active, decl SBool [IxBool]),
         (U_created_at, decl SDatetime [IxHour]),
         (U_updated_at, decl SDatetime [])]\<rparr>"

definition serviceAccountSchema :: schema where
  "serviceAccountSchema =
     \<lparr>sch_Type = ''ServiceAccount'',
      sch_Fields = [SA_id, SA_client_id, SA_name, SA_secret_hash, SA_actor_type, SA_permissions, SA_active,
        SA_created_at, SA_updated_at],
      sch_Preds =
        [(SA_id, upsert SString [IxExact]),
         (SA_client_id, upsert SString [IxExact]),
         (SA_name, decl SString [IxTerm]),
         (SA_secret_hash, decl SString []),
         (SA_actor_type, decl SString [IxExact]),
         (SA_permissions, decl SStrings []),
         (SA_active, decl SBool [IxBool]),
         (SA_created_at, decl SDatetime [IxHour]),
         (SA_updated_at, decl SDatetime [])]\<rparr>"

definition sessionSchema :: schema where
  "sessionSchema =
     \<lparr>sch_Type = ''Session'',
      sch_Fields = [S_kind, S_user_id, S_client_id, S_actor_id, S_actor_type, S_access_token_hash,
        S_refresh_token_hash, S_refresh_jti, S_replaced_by_jti, S_permissions, S_delegated_permissions,
        S_policy_groups, S_permission_version, S_created_at, S_updated_at, S_last_seen_at, S_expires_at,
        S_refresh_expires_at, S_revoked, S_revoked_at, S_user_agent, S_ip_address],
      sch_Preds =
        [(S_kind, decl SString [IxExact]),
         (S_user_id, decl SString [IxExact]),
         (S_client_id, decl SString [IxExact]),
         (S_actor_id, decl SString [IxExact]),
         (S_actor_type, decl SString [IxExact]),
         (S_access_token_hash, upsert SString [IxExact]),
         (S_refresh_token_hash, upsert SString [IxExact]),
         (S_refresh_jti, decl SString [IxExact]),
         (S_replaced_by_jti, decl SString []),
         (S_permissions, decl SStrings []),
         (S_delegated_permissions, decl SStrings []),
         (S_policy_groups, decl SStrings []),
         (S_permission_version, decl SInt []),
         (S_created_at, decl SDatetime [IxHour]),
         (S_updated_at, decl SDatetime []),
         (S_last_seen_at, decl SDatetime [IxHour]),
         (S_expires_at, decl SDatetime [IxHour]),
         (S_refresh_expires_at, decl SDatetime [IxHour]),
         (S_revoked, decl SBool [IxBool]),
         (S_revoked_at, decl SDatetime []),
         (S_user_agent, decl SString []),
         (S_ip_address, decl SString [IxExact])]\<rparr>"

section \<open>Connecting and installing\<close>

definition Repository_New :: "(string \<Rightarrow> goerr option) \<Rightarrow> string \<Rightarrow> goerr option" where
  "Repository_New dial target =
     (case dial target of Some e \<Rightarrow> Some (Wrap (''dgraph: dialing '' @ target) e) | None \<Rightarrow> None)"

definition ApplySchema :: "(schema \<Rightarrow> goerr option) \<Rightarrow> goerr option" where
  "ApplySchema alter =
     (case alter userSchema of Some e \<Rightarrow> Some (Wrap ''dgraph: apply schema'' e) | None \<Rightarrow> None)"

definition ApplyServiceAccountSchema :: "(schema \<Rightarrow> goerr option) \<Rightarrow> goerr option" where
  "ApplyServiceAccountSchema alter =
     (case alter serviceAccountSchema of Some e \<Rightarrow> Some (Wrap ''dgraph: apply service account schema'' e) | None \<Rightarrow> None)"

definition ApplySessionSchema :: "(schema \<Rightarrow> goerr option) \<Rightarrow> goerr option" where
  "ApplySessionSchema alter =
     (case alter sessionSchema of Some e \<Rightarrow> Some (Wrap ''dgraph: apply session schema'' e) | None \<Rightarrow> None)"

section \<open>A server that enforces its schemas\<close>

definition installed :: "schema list" where
  "installed = [userSchema, serviceAccountSchema, sessionSchema]"

definition declared :: "pred \<Rightarrow> pred_decl option" where
  "declared p = map_of (concat (map sch_Preds installed)) p"

definition type_fields :: "string \<Rightarrow> pred list option" where
  "type_fields t = map_of (map (\<lambda>s. (sch_Type s, sch_Fields s)) installed) t"

fun fits :: "stype \<Rightarrow> val \<Rightarrow> bool" where
  "fits SString (VStr _) = True"
| "fits SStrings (VStr _) = True"
| "fits SBool (VBool _) = True"
| "fits SInt (VInt _) = True"
| "fits SDatetime (VTime _) = True"
| "fits _ _ = False"

text \<open>The index that \<^verbatim>\<open>eq\<close> needs, by type; \<^verbatim>\<open>le\<close> and ordering need one that keeps the order.\<close>

fun eq_index :: "stype \<Rightarrow> index option" where
  "eq_index SString = Some IxExact"
| "eq_index SBool = Some IxBool"
| "eq_index SDatetime = Some IxHour"
| "eq_index _ = None"

definition indexed :: "pred_decl \<Rightarrow> bool" where
  "indexed d = (case eq_index (pd_Type d) of None \<Rightarrow> False | Some ix \<Rightarrow> ix \<in> set (pd_Index d))"

definition comparable :: "(pred_decl \<Rightarrow> bool) \<Rightarrow> pred \<Rightarrow> val \<Rightarrow> bool" where
  "comparable ok p v = (case declared p of None \<Rightarrow> False | Some d \<Rightarrow> indexed d \<and> fits (pd_Type d) v \<and> ok d)"

definition sortable :: "pred \<Rightarrow> bool" where
  "sortable p = (case declared p of None \<Rightarrow> False | Some d \<Rightarrow> indexed d \<and> pd_Type d \<noteq> SBool)"

fun func_ok :: "func \<Rightarrow> bool" where
  "func_ok (FuncEq p v) = comparable (\<lambda>_. True) p v"
| "func_ok (FuncUid _) = True"
| "func_ok (FuncType t) = (type_fields t \<noteq> None)"

fun filt_ok :: "filt \<Rightarrow> bool" where
  "filt_ok (FType t) = (type_fields t \<noteq> None)"
| "filt_ok (FEq p v) = comparable (\<lambda>_. True) p v"
| "filt_ok (FLe p v) = comparable (\<lambda>d. pd_Type d \<noteq> SBool) p v"
| "filt_ok (FNot f) = filt_ok f"

definition query_admitted :: "query \<Rightarrow> bool" where
  "query_admitted q = (func_ok (q_func q) \<and> list_all filt_ok (q_filter q) \<and>
     (case q_orderasc q of None \<Rightarrow> True | Some p \<Rightarrow> sortable p) \<and>
     list_all (\<lambda>p. declared p \<noteq> None) (q_fields q))"

text \<open>
  A written value has the declared type. All that a mutation writes to one node, new or existing, lies in the
  block of one type, the type it gives the node if it gives one, because deleting a node deletes the
  predicates of its type's block and no others. The condition of a conditional write is on indexed
  predicates marked \<^verbatim>\<open>@upsert\<close>: only then do two such writes conflict.
\<close>

definition quad_ok :: "nquad \<Rightarrow> bool" where
  "quad_ok t = (case t of (s, p, v) \<Rightarrow>
     if p = DgraphType then (\<exists>x. v = VStr x)
     else (case declared p of None \<Rightarrow> False | Some d \<Rightarrow> fits (pd_Type d) v))"

definition in_block :: "schema \<Rightarrow> pred \<Rightarrow> val \<Rightarrow> bool" where
  "in_block sc p v = (if p = DgraphType then v = VStr (sch_Type sc) else p \<in> set (sch_Fields sc))"

definition within_type :: "nquad list \<Rightarrow> subj \<Rightarrow> bool" where
  "within_type qs s = list_ex (\<lambda>sc. list_all (\<lambda>(s', p, v). s' = s \<longrightarrow> in_block sc p v) qs) installed"

definition mutation_admitted :: "mutation \<Rightarrow> bool" where
  "mutation_admitted m =
     (list_all quad_ok (mu_set m) \<and> list_all (\<lambda>(s, _, _). within_type (mu_set m) s) (mu_set m) \<and>
      list_all (\<lambda>(p, v). comparable pd_Upsert p v) (mu_cond m))"

definition schema_error :: goerr where
  "schema_error = Foreign ''dgraph: request does not match the schema''"

definition schema_server :: "'db dgraph \<Rightarrow> 'db dgraph" where
  "schema_server dg =
     \<lparr>dg_query = (\<lambda>md q db. if query_admitted q then dg_query dg md q db else Inl schema_error),
      dg_mutate = (\<lambda>m db. if mutation_admitted m then dg_mutate dg m db else (Inl schema_error, db)),
      dg_commit = (\<lambda>m snap db. if mutation_admitted m then dg_commit dg m snap db
                               else (MutateErr schema_error, db))\<rparr>"

section \<open>No request is refused\<close>

lemma schema_server_query [simp]:
  "query_admitted q \<Longrightarrow> dg_query (schema_server dg) md q db = dg_query dg md q db"
  by (simp add: schema_server_def)

lemma schema_server_mutate [simp]:
  "mutation_admitted m \<Longrightarrow> dg_mutate (schema_server dg) m db = dg_mutate dg m db"
  by (simp add: schema_server_def)

lemma schema_server_commit [simp]:
  "mutation_admitted m \<Longrightarrow> dg_commit (schema_server dg) m snap db = dg_commit dg m snap db"
  by (simp add: schema_server_def)

lemmas schema_defs = declared_def installed_def userSchema_def serviceAccountSchema_def sessionSchema_def

lemma declared_simps [simp]:
  "declared DgraphType = None"
  "declared U_id = Some (upsert SString [IxExact])" "declared U_email = Some (upsert SString [IxExact])"
  "declared U_nickname = Some (upsert SString [IxExact])"
  "declared U_first_name = Some (decl SString [IxTrigram, IxTerm])"
  "declared U_last_name = Some (decl SString [IxTrigram, IxTerm])"
  "declared U_country = Some (decl SString [IxExact, IxTerm])" "declared U_password_hash = Some (decl SString [])"
  "declared U_active = Some (decl SBool [IxBool])" "declared U_created_at = Some (decl SDatetime [IxHour])"
  "declared U_updated_at = Some (decl SDatetime [])"
  "declared SA_id = Some (upsert SString [IxExact])" "declared SA_client_id = Some (upsert SString [IxExact])"
  "declared SA_name = Some (decl SString [IxTerm])" "declared SA_secret_hash = Some (decl SString [])"
  "declared SA_actor_type = Some (decl SString [IxExact])" "declared SA_permissions = Some (decl SStrings [])"
  "declared SA_active = Some (decl SBool [IxBool])" "declared SA_created_at = Some (decl SDatetime [IxHour])"
  "declared SA_updated_at = Some (decl SDatetime [])"
  "declared S_kind = Some (decl SString [IxExact])" "declared S_user_id = Some (decl SString [IxExact])"
  "declared S_client_id = Some (decl SString [IxExact])" "declared S_actor_id = Some (decl SString [IxExact])"
  "declared S_actor_type = Some (decl SString [IxExact])"
  "declared S_access_token_hash = Some (upsert SString [IxExact])"
  "declared S_refresh_token_hash = Some (upsert SString [IxExact])"
  "declared S_refresh_jti = Some (decl SString [IxExact])" "declared S_replaced_by_jti = Some (decl SString [])"
  "declared S_permissions = Some (decl SStrings [])" "declared S_delegated_permissions = Some (decl SStrings [])"
  "declared S_policy_groups = Some (decl SStrings [])" "declared S_permission_version = Some (decl SInt [])"
  "declared S_created_at = Some (decl SDatetime [IxHour])" "declared S_updated_at = Some (decl SDatetime [])"
  "declared S_last_seen_at = Some (decl SDatetime [IxHour])" "declared S_expires_at = Some (decl SDatetime [IxHour])"
  "declared S_refresh_expires_at = Some (decl SDatetime [IxHour])" "declared S_revoked = Some (decl SBool [IxBool])"
  "declared S_revoked_at = Some (decl SDatetime [])" "declared S_user_agent = Some (decl SString [])"
  "declared S_ip_address = Some (decl SString [IxExact])"
  by (simp_all add: schema_defs)

lemma type_fields_simps [simp]:
  "type_fields ''User'' = Some (sch_Fields userSchema)"
  "type_fields ''ServiceAccount'' = Some (sch_Fields serviceAccountSchema)"
  "type_fields ''Session'' = Some (sch_Fields sessionSchema)"
  by (simp_all add: type_fields_def installed_def userSchema_def serviceAccountSchema_def sessionSchema_def)

text \<open>The predicates that hold several values are the ones declared as lists.\<close>

lemma list_preds_declared:
  "is_list_pred p = (p = DgraphType \<or> map_option pd_Type (declared p) = Some SStrings)"
  by (cases p) (simp_all add: is_list_pred_def)

lemmas admitted_defs = query_admitted_def comparable_def indexed_def sortable_def

lemma session_queries_admitted [simp]:
  "query_admitted (eq_query S_access_token_hash v)" "query_admitted (eq_query S_refresh_token_hash v)"
  "query_admitted (uid_query u sessionFields)" "query_admitted (uid_query u rotateFields)"
  "query_admitted (list_query v)" "query_admitted (active_query v)" "query_admitted (expired_query now)"
  by (simp_all add: admitted_defs eq_query_def uid_query_def list_query_def active_query_def expired_query_def
      sessionFields_def rotateFields_def)

lemma user_queries_admitted [simp]:
  "query_admitted (user_query U_id v readFields)" "query_admitted (user_query U_id v userFields)"
  "query_admitted (user_query U_id v [])" "query_admitted (user_query U_email v userFields)"
  "query_admitted (list_users_query f)"
  by (simp_all add: admitted_defs user_query_def list_users_query_def readFields_def userFields_def)

lemma account_queries_admitted [simp]: "query_admitted (account_query saFields env)" "query_admitted (account_query [] env)"
  by (simp_all add: admitted_defs account_query_def user_query_def saFields_def)

text \<open>Every mutation of the program writes nodes of one type: a quad of a node of type \<open>sc\<close>.\<close>

fun of_type :: "schema \<Rightarrow> nquad \<Rightarrow> bool" where
  "of_type sc (s, p, v) =
     (if p = DgraphType then v = VStr (sch_Type sc)
      else p \<in> set (sch_Fields sc) \<and> (case declared p of None \<Rightarrow> False | Some d \<Rightarrow> fits (pd_Type d) v))"

lemma of_type_admitted:
  assumes "list_all (of_type sc) (mu_set m)" "sc \<in> set installed"
    and "list_all (\<lambda>(p, v). comparable pd_Upsert p v) (mu_cond m)"
  shows "mutation_admitted m"
proof -
  have q: "of_type sc (s, p, v)" if "(s, p, v) \<in> set (mu_set m)" for s p v
    using assms(1) that by (auto simp: list_all_iff)
  have "list_all quad_ok (mu_set m)" using q by (fastforce simp: list_all_iff quad_ok_def split: if_splits)
  moreover have "list_all (\<lambda>(s', p, v). s' = s \<longrightarrow> in_block sc p v) (mu_set m)" for s
    using assms(1) by (rule list.pred_mono_strong) (auto simp: in_block_def split: if_splits)
  then have "within_type (mu_set m) s" for s using assms(2) by (auto simp: within_type_def list_ex_iff)
  ultimately show ?thesis using assms(3) by (simp add: mutation_admitted_def list_all_iff split_beta)
qed

lemma schema_types [simp]:
  "sch_Type userSchema = ''User''" "sch_Type serviceAccountSchema = ''ServiceAccount''" "sch_Type sessionSchema = ''Session''"
  "userSchema \<in> set installed" "serviceAccountSchema \<in> set installed" "sessionSchema \<in> set installed"
  by (simp_all add: userSchema_def serviceAccountSchema_def sessionSchema_def installed_def)

lemma list_all_concat: "list_all P (concat xss) = list_all (list_all P) xss"
  by (induction xss) simp_all

lemma session_quads_of_type [simp]:
  "list_all (of_type sessionSchema) (create_nquads now inp)"
  "list_all (of_type sessionSchema) (rotate_nquads now rin old)"
  "list_all (of_type sessionSchema) (revoke_nquads now u)"
  "list_all (of_type sessionSchema) [(Uid u, S_last_seen_at, VTime t)]"
  by (simp_all add: create_nquads_def session_quads_def rotate_nquads_def revoke_nquads_def Let_def
      sessionSchema_def list.pred_map comp_def list.pred_True)

lemma session_mutations_admitted [simp]:
  "mutation_admitted (set_nquads (create_nquads now inp))"
  "mutation_admitted (set_nquads (rotate_nquads now rin old))"
  "mutation_admitted (set_nquads (revoke_nquads now u))"
  "mutation_admitted (set_nquads (concat (map (\<lambda>n. revoke_nquads now (jn_uid n)) ns)))"
  "mutation_admitted (set_nquads [(Uid u, S_last_seen_at, VTime t)])"
proof -
  have "S_last_seen_at \<in> set (sch_Fields sessionSchema)" by (simp add: sessionSchema_def)
  then show "mutation_admitted (set_nquads (create_nquads now inp))"
    "mutation_admitted (set_nquads (rotate_nquads now rin old))"
    "mutation_admitted (set_nquads (revoke_nquads now u))"
    "mutation_admitted (set_nquads (concat (map (\<lambda>n. revoke_nquads now (jn_uid n)) ns)))"
    "mutation_admitted (set_nquads [(Uid u, S_last_seen_at, VTime t)])"
    by (intro of_type_admitted [of sessionSchema];
        simp add: set_nquads_def list_all_concat list.pred_map comp_def list.pred_True)+
qed

lemma delete_admitted [simp]: "mutation_admitted (delete_uids us)"
  by (simp add: mutation_admitted_def delete_uids_def)

lemma omit_of_type [simp]:
  "list_all (of_type sc) (omit_str s p x) = (x = [] \<or> of_type sc (s, p, VStr x))"
  "list_all (of_type sc) (omit_time s p t) = (case t of None \<Rightarrow> True | Some y \<Rightarrow> of_type sc (s, p, VTime y))"
  by (simp_all add: omit_str_def omit_time_def split: option.split)

lemma user_json_of_type: "du_DType d = [] \<or> du_DType d = [''User''] \<Longrightarrow> list_all (of_type userSchema) (user_json s d)"
  by (auto simp: user_json_def userSchema_def split: option.split)

lemma user_quads_of_type [simp]:
  "list_all (of_type userSchema) (mu_set (create_user_mut u))"
  "list_all (of_type userSchema) (user_json s (apply_update now uin (decode_user n)))"
proof -
  show "list_all (of_type userSchema) (mu_set (create_user_mut u))"
    by (simp add: create_user_mut_def user_json_of_type new_dgraphUser_def)
  have "du_DType (apply_update now uin (decode_user n)) = []"
    by (simp add: apply_update_def decode_user_def Let_def split: option.split)
  then show "list_all (of_type userSchema) (user_json s (apply_update now uin (decode_user n)))"
    by (simp add: user_json_of_type)
qed

lemma user_mutations_admitted [simp]:
  "mutation_admitted (create_user_mut u)"
  "mutation_admitted (set_nquads (user_json s (apply_update now uin (decode_user n))))"
  by (rule of_type_admitted [of userSchema];
      simp add: set_nquads_def comparable_def indexed_def; simp add: create_user_mut_def comparable_def indexed_def)+

lemma account_quads_of_type [simp]:
  "list_all (of_type serviceAccountSchema) (mu_set (create_sa_mut a env))"
  "list_all (of_type serviceAccountSchema) (mu_set (deactivate_mut now u))"
  by (simp_all add: create_sa_mut_def deactivate_mut_def set_nquads_def sa_json_def new_dsa_def
      serviceAccountSchema_def list.pred_map comp_def list.pred_True)

lemma account_mutations_admitted [simp]:
  "mutation_admitted (create_sa_mut a env)" "mutation_admitted (deactivate_mut now u)"
  by (rule of_type_admitted [of serviceAccountSchema], simp, simp;
      simp add: create_sa_mut_def deactivate_mut_def set_nquads_def comparable_def indexed_def)+

lemma get_by_id_admitted [simp]: "SessionRepo_GetByID (schema_server dg) = SessionRepo_GetByID dg"
  by (intro ext) (simp add: SessionRepo_GetByID_def)

lemma session_repo_admitted: "dgraph_session_repo (schema_server dg) = dgraph_session_repo dg"
  unfolding dgraph_session_repo_def
  by (simp add: fun_eq_iff SessionRepo_Create_def SessionRepo_GetByAccessHash_def SessionRepo_GetByRefreshHash_def
      SessionRepo_queryOne_def SessionRepo_ListForUser_def SessionRepo_RotateTokens_def SessionRepo_Revoke_def
      SessionRepo_RevokeAllForUser_def SessionRepo_Touch_def SessionRepo_DeleteExpired_def Let_def
      split: sum.split prod.split list.split txn_result.split)

lemma user_repo_admitted: "dgraph_user_repo (schema_server dg) = dgraph_user_repo dg"
proof -
  have "query_admitted \<lparr>q_func = FuncUid x, q_filter = [], q_orderasc = None, q_page = None, q_fields = [],
      q_total = False\<rparr>" for x by (simp add: query_admitted_def)
  then show ?thesis
    unfolding dgraph_user_repo_def
    by (simp add: fun_eq_iff Repository_Create_def Repository_GetByID_def Repository_GetByEmail_def
        Repository_queryOne_def Repository_Update_def Repository_Delete_def Repository_List_def Repository_Ping_def Let_def
        split: sum.split prod.split list.split)
qed

lemma account_repo_admitted: "dgraph_service_account_repo bind (schema_server dg) = dgraph_service_account_repo bind dg"
  unfolding dgraph_service_account_repo_def
  by (simp add: fun_eq_iff SA_CreateServiceAccount_def SA_GetByClientID_def SA_Deactivate_def QueryWithVars_def
      DoWithVars_def split: sum.split prod.split list.split)

text \<open>C14: The schemas fit the program: a server that refuses every query on a predicate that is not indexed for it,
  every value of another type than declared, every mutation that writes to a node, new or existing, predicates which
  the block of no single type lists together (deletion would leave one behind), or outside the block of the type it
  gives the node, and every conditional write on a predicate without upsert conflict detection refuses nothing that
  the repositories send: they behave on it as on the bare server, whatever the database answers.\<close>

theorem schema_admits_program:
  "dgraph_session_repo (schema_server dg) = dgraph_session_repo dg \<and>
   dgraph_user_repo (schema_server dg) = dgraph_user_repo dg \<and>
   dgraph_service_account_repo bind (schema_server dg) = dgraph_service_account_repo bind dg"
  by (simp add: session_repo_admitted user_repo_admitted account_repo_admitted)

end
