(* ===== verification/Dgraph_Frames.thy ===== *)
theory Dgraph_Frames
  imports Dgraph_Schema Dgraph_Session_Laws Dgraph_User_Laws Dgraph_Service_Account_Laws
begin

text \<open>
  The three repositories share one Dgraph graph. Here it is shown that they do not disturb each other:
  each request of a repository writes nodes of its own type only (\<open>writes\<close>), so the tables of the other two, and
  their well-formedness, are as before (\<open>frame\<close>). The contracts of \<^verbatim>\<open>Session_Repo\<close>, \<^verbatim>\<open>User_Repo\<close> and
  \<^verbatim>\<open>Service_Account_Repo\<close> therefore hold with the invariant that the whole graph is well-formed and the other
  tables have given values.
\<close>

section \<open>Writing nodes of one type\<close>

definition typed :: "string \<Rightarrow> node \<Rightarrow> bool" where
  "typed T n = (VStr T \<in> set (n DgraphType))"

text \<open>No node has two types.\<close>

definition exclusive :: "graph \<Rightarrow> bool" where
  "exclusive g = (\<forall>x T T'. typed T (g x) \<longrightarrow> typed T' (g x) \<longrightarrow> T = T')"

definition writes :: "schema \<Rightarrow> graph \<Rightarrow> mutation \<Rightarrow> bool" where
  "writes sc g m =
     (list_all (of_type sc) (mu_set m) \<and>
      list_all (\<lambda>(s, p, v). p = DgraphType \<longrightarrow> (\<exists>b. s = Blank b)) (mu_set m) \<and>
      list_all (\<lambda>u. typed (sch_Type sc) (g u)) (mu_del m))"

definition steps :: "schema \<Rightarrow> graph \<Rightarrow> graph \<Rightarrow> bool" where
  "steps sc g h = (h = g \<or> (\<exists>as m. mut_step as m g h \<and> writes sc g m))"

text \<open>A node keeps the predicates \<open>fs\<close> and whether it has type \<open>T\<close>, unless it has another type and is deleted.\<close>

definition frame :: "string \<Rightarrow> pred list \<Rightarrow> graph \<Rightarrow> graph \<Rightarrow> bool" where
  "frame T fs g h =
     (\<forall>x. (h x = (\<lambda>_. []) \<and> \<not> typed T (g x)) \<or>
          (typed T (h x) = typed T (g x) \<and> (\<forall>p \<in> set fs. h x p = g x p)))"

lemma typed_empty [simp]: "\<not> typed T (\<lambda>_. [])"
  by (simp add: typed_def)

lemma frame_refl [simp]: "frame T fs g g"
  by (simp add: frame_def)

lemma vals_for_mem: "v \<in> set (vals_for as qs u p) \<longleftrightarrow> (\<exists>s. (s, p, v) \<in> set qs \<and> resolve as s = Some u)"
  by (induction qs) (auto split: if_splits)

lemma of_type_pred: "of_type sc (s, p, v) \<Longrightarrow> p = DgraphType \<and> v = VStr (sch_Type sc) \<or> p \<in> set (sch_Fields sc)"
  by (auto split: if_splits)

lemma mut_step_types:
  assumes st: "mut_step as m g h" and w: "writes sc g m"
  obtains (same) "h x DgraphType = g x DgraphType" | (gone) "h x = (\<lambda>_. [])" "typed (sch_Type sc) (g x)"
  | (fresh) "g x = (\<lambda>_. [])" "set (h x DgraphType) = {VStr (sch_Type sc)}"
proof (cases "cond_ok g m")
  case False
  then show ?thesis using st same by (simp add: mut_step_def)
next
  case True
  with st have fr: "fresh_names as m g" and ap: "applied as m g h" by (auto simp: mut_step_def)
  let ?vs = "vals_for as (mu_set m) x DgraphType"
  have ap': "if x \<in> set (mu_del m) then h x DgraphType = []
        else if ?vs = [] then h x DgraphType = g x DgraphType
        else set (h x DgraphType) = set (g x DgraphType) \<union> set ?vs"
    using ap [unfolded applied_def, rule_format, of x DgraphType] by (simp add: Let_def is_list_pred_def)
  show ?thesis
  proof (cases "x \<in> set (mu_del m)")
    case True
    then have "h x = (\<lambda>_. [])" using ap by (auto simp: applied_def Let_def fun_eq_iff)
    then show ?thesis using gone True w by (auto simp: writes_def list_all_iff)
  next
    case False
    show ?thesis
    proof (cases "?vs = []")
      case True
      then show ?thesis using same ap' False by simp
    next
      case ne: False
      have q: "\<exists>b. map_of as b = Some x \<and> v = VStr (sch_Type sc)" if v: "v \<in> set ?vs" for v
      proof -
        obtain s where s: "(s, DgraphType, v) \<in> set (mu_set m)" "resolve as s = Some x"
          using v by (auto simp: vals_for_mem)
        then have "of_type sc (s, DgraphType, v)" "\<exists>b. s = Blank b"
          using w by (fastforce simp: writes_def list_all_iff)+
        with s(2) show ?thesis by auto
      qed
      from ne obtain v where "v \<in> set ?vs" by (metis hd_in_set)
      then have "x \<in> set (map snd as)" using q by (force dest: map_of_SomeD)
      then have "g x = (\<lambda>_. [])" using fr by (auto simp: fresh_names_def)
      moreover have "set ?vs = {VStr (sch_Type sc)}" using q ne by (cases ?vs) auto
      ultimately show ?thesis using fresh ap' False ne by simp
    qed
  qed
qed

lemma mut_step_other:
  assumes "mut_step as m g h" "writes sc g m" "p \<noteq> DgraphType" "p \<notin> set (sch_Fields sc)"
  shows "h x p = g x p \<or> h x = (\<lambda>_. []) \<and> typed (sch_Type sc) (g x)"
proof (cases "cond_ok g m")
  case False
  then show ?thesis using assms(1) by (simp add: mut_step_def)
next
  case True
  with assms(1) have ap: "applied as m g h" by (simp add: mut_step_def)
  have "vals_for as (mu_set m) x p = []"
  proof (rule ccontr)
    assume "vals_for as (mu_set m) x p \<noteq> []"
    then obtain v where "v \<in> set (vals_for as (mu_set m) x p)" by (metis hd_in_set)
    then obtain s where "(s, p, v) \<in> set (mu_set m)" by (auto simp: vals_for_mem)
    then have "of_type sc (s, p, v)" using assms(2) by (auto simp: writes_def list_all_iff)
    with assms(3,4) show False by (auto dest: of_type_pred)
  qed
  then show ?thesis using ap assms(2)
    by (cases "x \<in> set (mu_del m)") (auto simp: applied_def Let_def fun_eq_iff writes_def list_all_iff)
qed

lemma steps_exclusive:
  assumes "steps sc g h" "exclusive g"
  shows "exclusive h"
  using assms(1) unfolding steps_def
proof (elim disjE exE conjE)
  fix as m assume m: "mut_step as m g h" "writes sc g m"
  show "exclusive h"
    unfolding exclusive_def
  proof (intro allI impI)
    fix x T T' assume t: "typed T (h x)" "typed T' (h x)"
    show "T = T'"
    proof (cases rule: mut_step_types [OF m, of x])
      case 1
      then show ?thesis using t assms(2) unfolding exclusive_def typed_def by metis
    qed (use t in \<open>auto simp: typed_def\<close>)
  qed
qed (use assms(2) in simp)

lemma steps_frame:
  assumes "steps sc g h" "exclusive g" "T \<noteq> sch_Type sc" "set fs \<inter> set (sch_Fields sc) = {}" "DgraphType \<notin> set fs"
  shows "frame T fs g h"
  using assms(1) unfolding steps_def
proof (elim disjE exE conjE)
  fix as m assume m: "mut_step as m g h" "writes sc g m"
  have nt: "\<not> typed T (g x)" if "typed (sch_Type sc) (g x)" for x
    using that assms(2,3) unfolding exclusive_def by blast
  show "frame T fs g h"
    unfolding frame_def
  proof
    fix x
    have o: "h x p = g x p \<or> h x = (\<lambda>_. []) \<and> typed (sch_Type sc) (g x)" if "p \<in> set fs" for p
      using mut_step_other [OF m, of p x] that assms(4,5) by blast
    show "(h x = (\<lambda>_. []) \<and> \<not> typed T (g x)) \<or> (typed T (h x) = typed T (g x) \<and> (\<forall>p \<in> set fs. h x p = g x p))"
    proof (cases rule: mut_step_types [OF m, of x])
      case 1
      then show ?thesis using o nt [of x] by (auto simp: typed_def)
    next
      case 2
      then show ?thesis using nt [of x] by simp
    next
      case 3
      then have "\<not> typed T (g x)" "\<not> typed T (h x)" using assms(3) by (auto simp: typed_def)
      then show ?thesis using o 3(1) by auto
    qed
  qed
qed simp

section \<open>Tables of the other types\<close>

lemma session_framed:
  assumes "frame ''Session'' (sch_Fields sessionSchema) g h"
  shows "session_view h = session_view g" "wf_graph g \<Longrightarrow> wf_graph h"
proof -
  have f: "h x = (\<lambda>_. []) \<and> \<not> session_typed (g x) \<or>
      session_typed (h x) = session_typed (g x) \<and> (\<forall>p \<in> set sessionFields. h x p = g x p)" for x
    using assms by (simp add: frame_def typed_def session_typed_def sessionSchema_def sessionFields_def)
  show "session_view h = session_view g"
  proof
    fix x
    have "project sessionFields (h x) = project sessionFields (g x)" if "\<forall>p \<in> set sessionFields. h x p = g x p"
      using that by (auto simp: project_def fun_eq_iff)
    then have "decode_session \<lparr>jn_uid = x, jn_val = h x\<rparr> = decode_session \<lparr>jn_uid = x, jn_val = g x\<rparr>"
      if "\<forall>p \<in> set sessionFields. h x p = g x p"
      using that by (metis decode_project)
    with f [of x] show "session_view h x = session_view g x" by (auto simp: session_view_def session_typed_def)
  qed
  assume wf: "wf_graph g"
  have "wf_node (h x)" for x
    using f [of x]
  proof
    assume "h x = (\<lambda>_. []) \<and> \<not> session_typed (g x)"
    then show ?thesis by (simp add: wf_node_def session_typed_def)
  next
    assume a: "session_typed (h x) = session_typed (g x) \<and> (\<forall>p \<in> set sessionFields. h x p = g x p)"
    moreover have "wf_node (g x)" using wf by (simp add: wf_graph_def)
    ultimately show ?thesis
      by (cases "session_typed (g x)")
        (simp_all add: wf_node_def is_str_def is_time_def str_preds_def time_preds_def sessionFields_def)
  qed
  then show "wf_graph h" by (simp add: wf_graph_def)
qed

lemma user_framed:
  assumes "frame ''User'' (sch_Fields userSchema) g h"
  shows "user_view h = user_view g" "wf_users g \<Longrightarrow> wf_users h"
proof -
  have f: "h x = (\<lambda>_. []) \<and> \<not> user_typed (g x) \<or>
      user_typed (h x) = user_typed (g x) \<and> (\<forall>p \<in> set userFields. h x p = g x p)" for x
    using assms by (simp add: frame_def typed_def user_typed_def userSchema_def userFields_def)
  show "user_view h = user_view g"
  proof
    fix x
    show "user_view h x = user_view g x"
      using f [of x] by (auto simp: user_view_def user_typed_def user_defs userFields_def jstr_def jbool_def jtime_def)
  qed
  assume wf: "wf_users g"
  have "wf_user_node (h x)" for x
    using f [of x]
  proof
    assume "h x = (\<lambda>_. []) \<and> \<not> user_typed (g x)"
    then show ?thesis by (simp add: wf_user_node_def user_typed_def)
  next
    assume a: "user_typed (h x) = user_typed (g x) \<and> (\<forall>p \<in> set userFields. h x p = g x p)"
    moreover have "wf_user_node (g x)" using wf by (simp add: wf_users_def)
    ultimately show ?thesis by (simp add: wf_user_node_def user_strs_def userFields_def)
  qed
  then show "wf_users h" by (simp add: wf_users_def)
qed

lemma account_framed:
  assumes "frame ''ServiceAccount'' (sch_Fields serviceAccountSchema) g h"
  shows "account_view h = account_view g" "wf_accounts g \<Longrightarrow> wf_accounts h"
proof -
  have f: "h x = (\<lambda>_. []) \<and> \<not> sa_typed (g x) \<or>
      sa_typed (h x) = sa_typed (g x) \<and> (\<forall>p \<in> set saFields. h x p = g x p)" for x
    using assms by (simp add: frame_def typed_def sa_typed_def serviceAccountSchema_def saFields_def)
  show "account_view h = account_view g"
  proof
    fix x
    show "account_view h x = account_view g x"
      using f [of x] by (auto simp: account_view_def sa_typed_def sa_defs saFields_def jstr_def jstrs_def jbool_def jtime_def)
  qed
  assume wf: "wf_accounts g"
  have "wf_sa_node (h x)" for x
    using f [of x] wf [unfolded wf_accounts_def, rule_format, of x]
    by (auto simp: wf_sa_node_def sa_typed_def saFields_def split: if_splits)
  then show "wf_accounts h" by (simp add: wf_accounts_def)
qed

text \<open>The whole graph.\<close>

definition wf_site :: "graph \<Rightarrow> bool" where
  "wf_site g = (wf_graph g \<and> wf_users g \<and> wf_accounts g \<and> exclusive g)"

lemma steps_apart:
  assumes "steps sc g h" "wf_site g"
  shows "exclusive h"
    and "sc \<in> {userSchema, serviceAccountSchema} \<Longrightarrow> session_view h = session_view g \<and> wf_graph h"
    and "sc \<in> {sessionSchema, serviceAccountSchema} \<Longrightarrow> user_view h = user_view g \<and> wf_users h"
    and "sc \<in> {sessionSchema, userSchema} \<Longrightarrow> account_view h = account_view g \<and> wf_accounts h"
proof -
  have w: "exclusive g" "wf_graph g" "wf_users g" "wf_accounts g" using assms(2) by (simp_all add: wf_site_def)
  show "exclusive h" using steps_exclusive [OF assms(1) w(1)] .
  note f = steps_frame [OF assms(1) w(1)] and d = userSchema_def serviceAccountSchema_def sessionSchema_def
  show "session_view h = session_view g \<and> wf_graph h" if "sc \<in> {userSchema, serviceAccountSchema}"
  proof -
    have "frame ''Session'' (sch_Fields sessionSchema) g h" using that by (intro f) (auto simp: d)
    then show ?thesis using session_framed w(2) by blast
  qed
  show "user_view h = user_view g \<and> wf_users h" if "sc \<in> {sessionSchema, serviceAccountSchema}"
  proof -
    have "frame ''User'' (sch_Fields userSchema) g h" using that by (intro f) (auto simp: d)
    then show ?thesis using user_framed w(3) by blast
  qed
  show "account_view h = account_view g \<and> wf_accounts h" if "sc \<in> {sessionSchema, userSchema}"
  proof -
    have "frame ''ServiceAccount'' (sch_Fields serviceAccountSchema) g h" using that by (intro f) (auto simp: d)
    then show ?thesis using account_framed w(4) by blast
  qed
qed

section \<open>The requests of the repositories\<close>

lemma steps_refl [simp]: "steps sc g g"
  by (simp add: steps_def)

definition blank_types :: "nquad list \<Rightarrow> bool" where
  "blank_types = list_all (\<lambda>(s, p, v). p = DgraphType \<longrightarrow> (\<exists>b. s = Blank b))"

lemma writes_set_nquads [simp]:
  "writes sc g (set_nquads qs) \<longleftrightarrow> list_all (of_type sc) qs \<and> blank_types qs"
  by (simp add: writes_def set_nquads_def blank_types_def)

lemma blank_types_simps [simp]:
  "blank_types []" "blank_types ((s, p, v) # qs) \<longleftrightarrow> (p = DgraphType \<longrightarrow> (\<exists>b. s = Blank b)) \<and> blank_types qs"
  "blank_types (qs @ rs) \<longleftrightarrow> blank_types qs \<and> blank_types rs"
  by (auto simp: blank_types_def)

lemma blank_types_map [simp]: "p \<noteq> DgraphType \<Longrightarrow> blank_types (map (\<lambda>x. (s, p, f x)) xs)"
  by (simp add: blank_types_def list_all_iff)

lemma blank_types_session [simp]:
  "blank_types (create_nquads now inp)" "blank_types (rotate_nquads now rin old)" "blank_types (revoke_nquads now u)"
  by (simp_all add: create_nquads_def session_quads_def rotate_nquads_def revoke_nquads_def Let_def)

lemma blank_types_omit [simp]:
  "p \<noteq> DgraphType \<Longrightarrow> blank_types (omit_str s p x)" "p \<noteq> DgraphType \<Longrightarrow> blank_types (omit_time s p t)"
  by (simp_all add: omit_str_def omit_time_def split: option.split)

lemma blank_types_json:
  "du_DType d = [] \<or> (\<exists>b. s = Blank b) \<Longrightarrow> blank_types (user_json s d)"
  "blank_types (sa_json (Blank b) e)"
  by (auto simp: user_json_def sa_json_def) (auto simp: blank_types_def list_all_iff)

context dgraph_client
begin

lemma mutate_writes: "dg_mutate dg m db = (r, db') \<Longrightarrow> writes sc (graph db) m \<Longrightarrow> steps sc (graph db) (graph db')"
  using mutate_any [of m db r db'] by (auto simp: steps_def)

lemma commit_writes: "dg_commit dg m snap db = (r, db') \<Longrightarrow> writes sc (graph db) m \<Longrightarrow> steps sc (graph db) (graph db')"
  using commit_any [of m snap db r db'] by (auto simp: steps_def)

lemma session_repo_steps:
  "SessionRepo_Create dg now inp db = (r1, db') \<Longrightarrow> steps sessionSchema (graph db) (graph db')"
  "SessionRepo_RotateTokens dg now rin snap db = (r1, db') \<Longrightarrow> steps sessionSchema (graph db) (graph db')"
  "SessionRepo_Revoke dg now u db = (r2, db') \<Longrightarrow> steps sessionSchema (graph db) (graph db')"
  "SessionRepo_RevokeAllForUser dg now usr db = (r2, db') \<Longrightarrow> steps sessionSchema (graph db) (graph db')"
  "SessionRepo_Touch dg now u db = (r2, db') \<Longrightarrow> steps sessionSchema (graph db) (graph db')"
proof -
  assume "SessionRepo_Create dg now inp db = (r1, db')"
  then obtain m where "dg_mutate dg (set_nquads (create_nquads now inp)) db = (m, db')"
    by (auto simp: SessionRepo_Create_def Let_def split: prod.splits sum.splits if_splits)
  then show "steps sessionSchema (graph db) (graph db')" by (rule mutate_writes) simp
next
  assume "SessionRepo_RotateTokens dg now rin snap db = (r1, db')"
  then consider "db' = db" | old tr where "dg_commit dg (set_nquads (rotate_nquads now rin old)) snap db = (tr, db')"
    by (auto simp: SessionRepo_RotateTokens_def Let_def
        split: prod.splits sum.splits if_splits list.splits txn_result.splits)
  then show "steps sessionSchema (graph db) (graph db')" by cases (auto intro: commit_writes)
next
  assume "SessionRepo_Revoke dg now u db = (r2, db')"
  then obtain m where "dg_mutate dg (set_nquads (revoke_nquads now u)) db = (m, db')"
    by (auto simp: SessionRepo_Revoke_def split: prod.splits sum.splits)
  then show "steps sessionSchema (graph db) (graph db')" by (rule mutate_writes) simp
next
  assume "SessionRepo_RevokeAllForUser dg now usr db = (r2, db')"
  then consider "db' = db" | m and ns :: "jnode list" where
      "dg_mutate dg (set_nquads (concat (map (\<lambda>n. revoke_nquads now (jn_uid n)) ns))) db = (m, db')"
    by (auto simp: SessionRepo_RevokeAllForUser_def split: prod.splits sum.splits if_splits)
  then show "steps sessionSchema (graph db) (graph db')"
  proof cases
    case 2
    have "list_all (of_type sessionSchema) (concat (map (\<lambda>n :: jnode. revoke_nquads now (jn_uid n)) ns))"
      by (simp add: list_all_concat list.pred_map comp_def list.pred_True)
    moreover have "blank_types (concat (map (\<lambda>n. revoke_nquads now (jn_uid n)) ns))" by (induction ns) simp_all
    ultimately show ?thesis using mutate_writes [OF 2] by simp
  qed simp
next
  assume "SessionRepo_Touch dg now u db = (r2, db')"
  then obtain m where "dg_mutate dg (set_nquads [(Uid u, S_last_seen_at, VTime (fmt_rfc3339 now))]) db = (m, db')"
    by (auto simp: SessionRepo_Touch_def split: prod.splits sum.splits)
  moreover have "writes sessionSchema (graph db) (set_nquads [(Uid u, S_last_seen_at, VTime (fmt_rfc3339 now))])"
    unfolding writes_set_nquads using session_quads_of_type(4) by (intro conjI) (assumption | simp del: list.pred_inject)+
  ultimately show "steps sessionSchema (graph db) (graph db')" by (rule mutate_writes)
qed

lemma delete_expired_steps:
  assumes "SessionRepo_DeleteExpired dg now db = (r, db')"
  shows "steps sessionSchema (graph db) (graph db')"
proof -
  consider "db' = db" | ns cs m where "dg_query dg Strong (expired_query now) db = Inr (Json ns cs)"
      "dg_mutate dg (delete_uids (map jn_uid ns)) db = (m, db')"
    using assms by (auto simp: SessionRepo_DeleteExpired_def unmarshal_def
        split: prod.splits sum.splits if_splits qjson.splits)
  then show ?thesis
  proof cases
    case 2
    have "typed ''Session'' (graph db u)" if "u \<in> set (map jn_uid ns)" for u
      using that unfolding query_nodes(2) [OF 2(1) proper_queries(5) query_parts(3)]
      by (simp add: selected_def expired_query_def typed_def)
    then have "writes sessionSchema (graph db) (delete_uids (map jn_uid ns))"
      by (simp add: writes_def delete_uids_def list_all_iff)
    with 2(2) show ?thesis by (rule mutate_writes)
  qed simp
qed

lemma user_repo_steps:
  "Repository_Create dg u db = (r1, db') \<Longrightarrow> steps userSchema (graph db) (graph db')"
  "Repository_Update dg now i inp snap db = (r2, db') \<Longrightarrow> steps userSchema (graph db) (graph db')"
  "wf_users (graph db) \<Longrightarrow> Repository_Delete dg i db db = (r1, db') \<Longrightarrow> steps userSchema (graph db) (graph db')"
proof -
  assume "Repository_Create dg u db = (r1, db')"
  then obtain m where m: "dg_mutate dg (create_user_mut u) db = (m, db')"
    by (auto simp: Repository_Create_def split: prod.splits sum.splits if_splits)
  have "blank_types (mu_set (create_user_mut u))" "mu_del (create_user_mut u) = []"
    by (simp_all add: create_user_mut_def blank_types_json)
  then have "writes userSchema (graph db) (create_user_mut u)" by (simp add: writes_def blank_types_def)
  with m show "steps userSchema (graph db) (graph db')" by (rule mutate_writes)
next
  assume "Repository_Update dg now i inp snap db = (r2, db')"
  then consider "db' = db" | n du tr where "du = apply_update now inp (decode_user n)"
      "dg_commit dg (set_nquads (user_json (Uid (du_UID du)) du)) snap db = (tr, db')"
    by (auto simp: Repository_Update_def Let_def split: prod.splits sum.splits list.splits txn_result.splits)
  then show "steps userSchema (graph db) (graph db')"
  proof cases
    case 2
    have "du_DType du = []" by (simp add: 2(1) apply_update_def decode_user_def Let_def split: option.split)
    then show ?thesis using commit_writes [OF 2(2)] by (simp add: 2(1) blank_types_json)
  qed simp
next
  assume wf: "wf_users (graph db)" and d: "Repository_Delete dg i db db = (r1, db')"
  show "steps userSchema (graph db) (graph db')"
  proof (cases "dg_query dg Strong (user_query U_id i []) db")
    case (Inl e)
    then show ?thesis using d by (simp add: Repository_Delete_def)
  next
    case (Inr j)
    show ?thesis
    proof (rule find_user [OF Inr wf in_strs(1)])
      fix cs assume "j = Json [] cs"
      then show ?thesis using d Inr by (simp add: Repository_Delete_def unmarshal_def)
    next
      fix n :: jnode and ns cs u
      assume j: "j = Json (n # ns) cs" and u: "user_view (graph db) (jn_uid n) = Some u"
      obtain m where m: "dg_mutate dg (delete_uids [jn_uid n]) db = (m, db')"
        using d Inr j by (auto simp: Repository_Delete_def unmarshal_def split: prod.splits sum.splits)
      have "writes userSchema (graph db) (delete_uids [jn_uid n])"
        using u by (simp add: writes_def delete_uids_def typed_def user_view_def user_typed_def split: if_splits)
      with m show ?thesis by (rule mutate_writes)
    qed
  qed
qed

lemma account_repo_steps:
  "SA_CreateServiceAccount bind dg a db = (r1, db') \<Longrightarrow> steps serviceAccountSchema (graph db) (graph db')"
  "SA_Deactivate bind dg now ci seen db = (r1, db') \<Longrightarrow> steps serviceAccountSchema (graph db) (graph db')"
proof -
  assume "SA_CreateServiceAccount bind dg a db = (r1, db')"
  then consider "db' = db" | env m where "dg_mutate dg (create_sa_mut a env) db = (m, db')"
    by (auto simp: SA_CreateServiceAccount_def DoWithVars_def split: prod.splits sum.splits if_splits)
  then show "steps serviceAccountSchema (graph db) (graph db')"
  proof cases
    case 2
    have "blank_types (mu_set (create_sa_mut a env))" "mu_del (create_sa_mut a env) = []"
      by (simp_all add: create_sa_mut_def blank_types_json)
    then have "writes serviceAccountSchema (graph db) (create_sa_mut a env)" by (simp add: writes_def blank_types_def)
    with 2 show ?thesis by (rule mutate_writes)
  qed simp
next
  assume "SA_Deactivate bind dg now ci seen db = (r1, db')"
  then consider "db' = db" | u m where "dg_mutate dg (deactivate_mut now u) db = (m, db')"
    by (auto simp: SA_Deactivate_def split: prod.splits sum.splits list.splits)
  then show "steps serviceAccountSchema (graph db) (graph db')"
  proof cases
    case 2
    have "writes serviceAccountSchema (graph db) (deactivate_mut now u)"
      using account_quads_of_type(2) by (simp add: writes_def) (simp add: deactivate_mut_def set_nquads_def)
    with 2 show ?thesis by (rule mutate_writes)
  qed simp
qed

end

end
