(* ===== verification/Site_Stores.thy ===== *)
theory Site_Stores
  imports Dgraph_Frames
begin

text \<open>
  The stores as the rest of the program shares them. Three locales say which rows an operation may change
  whatever it answers (a write that is answered with an error may have happened): \<open>session_store\<close> and \<open>user_store\<close> extend the contracts of
  \<^verbatim>\<open>Session_Repo\<close> and \<^verbatim>\<open>User_Repo\<close>, \<open>account_store\<close> is about service accounts whatever the server does with
  variable names. The Dgraph repositories meet them with an invariant that fixes the tables of the other
  two, by the frames of \<^verbatim>\<open>Dgraph_Frames\<close>.
\<close>

section \<open>Which rows change\<close>

text \<open>The sessions of everyone but the user \<open>usr\<close>, and a change of the table that leaves them alone.\<close>

definition others :: "string \<Rightarrow> sessions \<Rightarrow> sessions" where
  "others usr S u = (case S u of None \<Rightarrow> None | Some s \<Rightarrow> if ses_UserID s = usr then None else Some s)"

definition only_of :: "string \<Rightarrow> sessions \<Rightarrow> sessions \<Rightarrow> bool" where
  "only_of usr S T = (evolves S T \<and> others usr T = others usr S)"

lemma only_of_refl [simp]: "only_of usr S S"
  by (simp add: only_of_def)

lemma only_of_trans: "only_of usr S T \<Longrightarrow> only_of usr T R \<Longrightarrow> only_of usr S R"
  unfolding only_of_def by (metis evolves_trans)

lemma only_of_keeps:
  assumes "only_of usr S T" "S u = Some s" "ses_UserID s \<noteq> usr"
  shows "T u = Some s"
  using assms(2,3) fun_cong [OF conjunct2 [OF assms(1) [unfolded only_of_def]], of u]
  by (auto simp: others_def split: option.splits if_splits)

lemma only_of_row:
  assumes "evolves S T" "S u = Some s" "ses_UserID s = usr" "\<And>v. v \<noteq> u \<Longrightarrow> T v = S v"
  shows "only_of usr S T"
proof -
  obtain t where "T u = Some t" "ses_UserID t = usr"
    using assms(1-3) agesD(4) unfolding evolves_def by metis
  then have "others usr T v = others usr S v" for v
    using assms(2-4) by (cases "v = u") (simp_all add: others_def)
  with assms(1) show ?thesis by (auto simp: only_of_def)
qed

lemma only_of_new: "S u = None \<Longrightarrow> ses_UserID s = usr \<Longrightarrow> only_of usr S (S(u \<mapsto> s))"
  by (auto simp: only_of_def others_def evolves_new)

locale session_store = session_repository +
  assumes create_row: "inv db \<Longrightarrow> sr_Create repo now inp db = (cr, db') \<Longrightarrow>
      sessions db' = sessions db \<or> (\<exists>u s. sessions db u = None \<and> same_session s (new_session u now inp) \<and>
        sessions db' = (sessions db)(u \<mapsto> s))"
    and revoke_only: "inv db \<Longrightarrow> sr_Revoke repo now u db = (y, db') \<Longrightarrow> v \<noteq> u \<Longrightarrow> sessions db' v = sessions db v"
    and revoke_all_only: "inv db \<Longrightarrow> sr_RevokeAllForUser repo now usr db = (y, db') \<Longrightarrow>
      others usr (sessions db') = others usr (sessions db)"
    and touch_only: "inv db \<Longrightarrow> sr_Touch repo now u db = (y, db') \<Longrightarrow> sessions db v = None \<Longrightarrow> sessions db' v = None"
    and rotate_row: "inv snap \<Longrightarrow> inv db \<Longrightarrow> sr_RotateTokens repo now rin snap db = (cr, db') \<Longrightarrow>
      sessions db' = sessions db \<or> (\<exists>old cur u s. sessions snap (sri_OldSessionID rin) = Some old \<and>
        sessions db (sri_OldSessionID rin) = Some cur \<and> sessions db u = None \<and>
        same_session s (new_session u now (rotation_input rin old)) \<and>
        sessions db' = (sessions db)(sri_OldSessionID rin \<mapsto> rotated_away now (sri_NewRefreshJTI rin) cur, u \<mapsto> s))"

locale user_store = user_repository +
  assumes create_row: "inv db \<Longrightarrow> ur_Create repo u db = (r, db') \<Longrightarrow> usr_Email u \<noteq> '''' \<Longrightarrow> usr_Nickname u \<noteq> '''' \<Longrightarrow>
      users db' = users db \<or> (\<exists>x. users db x = None \<and> \<not> taken (users db) (to_lower (usr_Email u)) (usr_Nickname u) \<and>
        users db' = (users db)(x \<mapsto> stored_user u))"
    and update_row: "inv db \<Longrightarrow> ur_Update repo now i inp db db = (r2, db') \<Longrightarrow>
      users db' = users db \<or> (\<exists>x old. users db x = Some old \<and> usr_ID old = i \<and>
        users db' = (users db)(x \<mapsto> updated_user now inp old))"
    and delete_row: "inv db \<Longrightarrow> ur_Delete repo i db db = (r, db') \<Longrightarrow>
      users db' = users db \<or> (\<exists>x old. users db x = Some old \<and> usr_ID old = i \<and> users db' = (users db)(x := None))"

locale account_store =
  fixes repo :: "'db service_account_repo"
    and accounts :: "'db \<Rightarrow> accounts"
    and inv :: "'db \<Rightarrow> bool"
  assumes create_row: "inv db \<Longrightarrow> sar_CreateServiceAccount repo a db = (r, db') \<Longrightarrow>
      inv db' \<and> (accounts db' = accounts db \<or> (\<exists>x b. accounts db x = None \<and> accounts db' = (accounts db)(x \<mapsto> b)))"
    and deactivate_row: "inv db \<Longrightarrow> sar_Deactivate repo now ci db db = (r, db') \<Longrightarrow>
      inv db' \<and> (accounts db' = accounts db \<or> (\<exists>x a. accounts db x = Some a \<and> accounts db' = (accounts db)(x \<mapsto> deactivated now a)))"
    and get_row: "inv db \<Longrightarrow> sar_GetByClientID repo ci (Some z) db = Inr a \<Longrightarrow> \<exists>x. accounts db x = Some a"

section \<open>Stronger invariants\<close>

lemma session_repository_inv:
  assumes S: "session_repository repo sessions ok" and le: "\<And>db. ok' db \<Longrightarrow> ok db"
    and "\<And>now inp db cr db'. ok' db \<Longrightarrow> sr_Create repo now inp db = (cr, db') \<Longrightarrow> ok' db'"
    and "\<And>now rin snap db cr db'. ok' snap \<Longrightarrow> ok' db \<Longrightarrow> sr_RotateTokens repo now rin snap db = (cr, db') \<Longrightarrow> ok' db'"
    and "\<And>now u db y db'. ok' db \<Longrightarrow> sr_Revoke repo now u db = (y, db') \<Longrightarrow> ok' db'"
    and "\<And>now usr db y db'. ok' db \<Longrightarrow> sr_RevokeAllForUser repo now usr db = (y, db') \<Longrightarrow> ok' db'"
    and "\<And>now u db y db'. ok' db \<Longrightarrow> sr_Touch repo now u db = (y, db') \<Longrightarrow> ok' db'"
    and "\<And>now db k db'. ok' db \<Longrightarrow> sr_DeleteExpired repo now db = (k, db') \<Longrightarrow> ok' db'"
  shows "session_repository repo sessions ok'"
proof (unfold_locales, goal_cases)
  case 1 then show ?case using session_repository.id_ok [OF S le] by blast
next case 2 then show ?case using session_repository.create_ok [OF S le] by blast
next case 3 then show ?case using session_repository.create_err [OF S le] by blast
next case 4 then show ?case using session_repository.create_step [OF S le] assms(3) by blast
next case 5 then show ?case using session_repository.access_some [OF S le] by blast
next case 6 then show ?case using session_repository.access_none [OF S le] by blast
next case 7 then show ?case using session_repository.access_err [OF S] by blast
next case 8 then show ?case using session_repository.refresh_some [OF S le] by blast
next case 9 then show ?case using session_repository.refresh_none [OF S le] by blast
next case 10 then show ?case using session_repository.refresh_err [OF S] by blast
next case 11 then show ?case using session_repository.by_id_ok [OF S le] by blast
next case 12 then show ?case using session_repository.by_id_err [OF S] by blast
next case 13 then show ?case using session_repository.list_ok [OF S le] by blast
next case 14 then show ?case using session_repository.rotate_ok [OF S le le] by blast
next case 15 then show ?case using session_repository.rotate_err [OF S le le] by blast
next case 16 then show ?case using session_repository.rotate_step [OF S le le] assms(4) by blast
next case 17 then show ?case using session_repository.revoke_ok [OF S le] by blast
next case 18 then show ?case using session_repository.revoke_err [OF S le] by blast
next case 19 then show ?case using session_repository.revoke_step [OF S le] assms(5) by blast
next case 20 then show ?case using session_repository.revoke_all_ok [OF S le] by blast
next case 21 then show ?case using session_repository.revoke_all_err [OF S le] by blast
next case 22 then show ?case using session_repository.revoke_all_step [OF S le] assms(6) by blast
next case 23 then show ?case using session_repository.touch_step [OF S le] assms(7) by blast
next case 24 then show ?case using session_repository.delete_ok [OF S le] by blast
next
  case 25
  then show ?case using session_repository.delete_step [OF S le [OF 25(1)] 25(2)] assms(8) by simp
qed

lemma user_repository_inv:
  assumes U: "user_repository repo users ok" and le: "\<And>db. ok' db \<Longrightarrow> ok db"
    and "\<And>u db r db'. ok' db \<Longrightarrow> ur_Create repo u db = (r, db') \<Longrightarrow> ok' db'"
    and "\<And>now i inp db r db'. ok' db \<Longrightarrow> ur_Update repo now i inp db db = (r, db') \<Longrightarrow> ok' db'"
    and "\<And>i db r db'. ok' db \<Longrightarrow> ur_Delete repo i db db = (r, db') \<Longrightarrow> ok' db'"
  shows "user_repository repo users ok'"
proof (unfold_locales, goal_cases)
  case 1 then show ?case using user_repository.create_ok [OF U le] by blast
next case 2 then show ?case using user_repository.create_err [OF U le] by blast
next case 3 then show ?case using assms(3) by blast
next case 4 then show ?case using user_repository.by_id_ok [OF U le] by blast
next case 5 then show ?case using user_repository.by_id_err [OF U le] by blast
next case 6 then show ?case using user_repository.by_email_ok [OF U le] by blast
next case 7 then show ?case using user_repository.by_email_err [OF U le] by blast
next case 8 then show ?case using user_repository.update_ok [OF U le] by blast
next case 9 then show ?case using user_repository.update_err [OF U le] by blast
next case 10 then show ?case using assms(4) by blast
next case 11 then show ?case using user_repository.delete_ok [OF U le] by blast
next case 12 then show ?case using user_repository.delete_err [OF U le] by blast
next case 13 then show ?case using assms(5) by blast
next case 14 then show ?case using user_repository.list_ok [OF U le] by blast
qed

section \<open>The Dgraph repositories\<close>

lemma session_steps_keep:
  assumes "steps sessionSchema g h" "wf_graph h" "wf_site g \<and> user_view g = U \<and> account_view g = A"
  shows "wf_site h \<and> user_view h = U \<and> account_view h = A"
  using steps_apart [OF assms(1)] assms(2,3) by (simp add: wf_site_def)

lemma user_steps_keep:
  assumes "steps userSchema g h" "wf_users h" "wf_site g \<and> session_view g = S \<and> account_view g = A"
  shows "wf_site h \<and> session_view h = S \<and> account_view h = A"
  using steps_apart [OF assms(1)] assms(2,3) by (simp add: wf_site_def)

lemma account_steps_keep:
  assumes "steps serviceAccountSchema g h" "wf_accounts h" "wf_site g \<and> session_view g = S \<and> user_view g = U"
  shows "wf_site h \<and> session_view h = S \<and> user_view h = U"
  using steps_apart [OF assms(1)] assms(2,3) by (simp add: wf_site_def)

lemma wf_siteD: "wf_site g \<Longrightarrow> wf_graph g" "wf_site g \<Longrightarrow> wf_users g" "wf_site g \<Longrightarrow> wf_accounts g"
  by (simp_all add: wf_site_def)

context dgraph_client
begin

lemma site_session_repository:
  "session_repository (dgraph_session_repo dg) (\<lambda>db. session_view (graph db))
    (\<lambda>db. wf_site (graph db) \<and> user_view (graph db) = U \<and> account_view (graph db) = A)"
proof (rule session_repository_inv [OF dgraph_sessions], goal_cases)
  case 1 then show ?case by (simp add: wf_siteD)
next
  case (2 now inp db cr db')
  then show ?case
    using sr.create_step [OF _ 2(2)] by (auto simp: dgraph_session_repo_def wf_siteD elim!: session_steps_keep [OF session_repo_steps(1)])
next
  case (3 now rin snap db cr db')
  then show ?case
    using sr.rotate_step [OF _ _ 3(3)] by (auto simp: dgraph_session_repo_def wf_siteD elim!: session_steps_keep [OF session_repo_steps(2)])
next
  case (4 now u db y db')
  then show ?case
    using sr.revoke_step [OF _ 4(2)] by (auto simp: dgraph_session_repo_def wf_siteD elim!: session_steps_keep [OF session_repo_steps(3)])
next
  case (5 now usr db y db')
  then show ?case
    using sr.revoke_all_step [OF _ 5(2)] by (auto simp: dgraph_session_repo_def wf_siteD elim!: session_steps_keep [OF session_repo_steps(4)])
next
  case (6 now u db y db')
  then show ?case
    using sr.touch_step [OF _ 6(2)] by (auto simp: dgraph_session_repo_def wf_siteD elim!: session_steps_keep [OF session_repo_steps(5)])
next
  case (7 now db k db')
  then show ?case
    using sr.delete_step [OF _ 7(2)] by (auto simp: dgraph_session_repo_def wf_siteD elim!: session_steps_keep [OF delete_expired_steps])
qed

lemma site_user_repository:
  "user_repository (dgraph_user_repo dg) (\<lambda>db. user_view (graph db))
    (\<lambda>db. wf_site (graph db) \<and> session_view (graph db) = S \<and> account_view (graph db) = A)"
proof (rule user_repository_inv [OF dgraph_users], goal_cases)
  case 1 then show ?case by (simp add: wf_siteD)
next
  case (2 u db r db')
  then show ?case
    using ur.create_inv [OF _ 2(2)] by (auto simp: dgraph_user_repo_def wf_siteD elim!: user_steps_keep [OF user_repo_steps(1)])
next
  case (3 now i inp db r db')
  then show ?case
    using ur.update_inv [OF _ 3(2)] by (auto simp: dgraph_user_repo_def wf_siteD elim!: user_steps_keep [OF user_repo_steps(2)])
next
  case (4 i db r db')
  then have wf: "wf_users (graph db)" and d: "Repository_Delete dg i db db = (r, db')"
    by (simp_all add: dgraph_user_repo_def wf_siteD)
  show ?case
    using user_steps_keep [OF user_repo_steps(3) [OF wf d] _ 4(1)] ur.delete_inv [OF wf 4(2)] by simp
qed

lemma found_account_typed:
  assumes "dg_query dg Strong (user_query SA_client_id v fs) db = Inr (Json (n # ns) cs)" "wf_accounts (graph db)"
  obtains a where "account_view (graph db) (jn_uid n) = Some a"
    "jn_val n = project fs (graph db (jn_uid n))"
proof -
  have pq: "proper (user_query SA_client_id v fs)" "q_page (user_query SA_client_id v fs) = None"
      "q_fields (user_query SA_client_id v fs) = fs"
    by (simp_all add: proper_def user_query_def)
  have "jn_val n = project fs (graph db (jn_uid n))"
    using query_nodes(3) [OF assms(1) pq(1,2), of n] pq(3) by simp
  moreover
  have "jn_uid n \<in> {x. selected (user_query SA_client_id v fs) x (graph db x)}"
    using query_nodes(2) [OF assms(1) pq(1,2)] by auto
  then have "VStr v \<in> set (graph db (jn_uid n) SA_client_id)" by (simp add: selected_def user_query_def)
  then obtain a where "account_view (graph db) (jn_uid n) = Some a" by (auto elim: sa_client_node [OF assms(2)])
  ultimately show ?thesis using that by blast
qed

lemma account_rows:
  assumes wf: "wf_accounts (graph db)"
  shows "SA_CreateServiceAccount bind dg a db = (r, db') \<Longrightarrow> wf_accounts (graph db') \<and>
      (account_view (graph db') = account_view (graph db) \<or>
       (\<exists>x b. account_view (graph db) x = None \<and> account_view (graph db') = (account_view (graph db))(x \<mapsto> b)))"
    and "SA_Deactivate bind dg now ci db db = (r, db') \<Longrightarrow> wf_accounts (graph db') \<and>
      (account_view (graph db') = account_view (graph db) \<or>
       (\<exists>x a. account_view (graph db) x = Some a \<and> account_view (graph db') = (account_view (graph db))(x \<mapsto> deactivated now a)))"
    and "SA_GetByClientID bind dg ci (Some z) db = Inr a \<Longrightarrow> \<exists>x. account_view (graph db) x = Some a"
proof -
  assume "SA_CreateServiceAccount bind dg a db = (r, db')"
  then consider "db' = db" | env m where "dg_mutate dg (create_sa_mut a env) db = (m, db')"
    by (auto simp: SA_CreateServiceAccount_def DoWithVars_def split: prod.splits sum.splits if_splits)
  then show "wf_accounts (graph db') \<and> (account_view (graph db') = account_view (graph db) \<or>
       (\<exists>x b. account_view (graph db) x = None \<and> account_view (graph db') = (account_view (graph db))(x \<mapsto> b)))"
  proof cases
    case 2
    from mutate_any [OF 2] show ?thesis using wf by (auto elim!: create_account_view [OF _ wf])
  qed (use wf in simp)
next
  assume "SA_Deactivate bind dg now ci db db = (r, db')"
  then consider "db' = db"
    | v n ns cs m where "dg_query dg Strong (user_query SA_client_id v []) db = Inr (Json (n # ns) cs)"
      "dg_mutate dg (deactivate_mut now (jn_uid n)) db = (m, db')"
    by (auto simp: SA_Deactivate_def QueryWithVars_def account_query_def unmarshal_def
        split: prod.splits sum.splits list.splits qjson.splits)
  then show "wf_accounts (graph db') \<and> (account_view (graph db') = account_view (graph db) \<or>
       (\<exists>x a. account_view (graph db) x = Some a \<and> account_view (graph db') = (account_view (graph db))(x \<mapsto> deactivated now a)))"
  proof cases
    case 2
    obtain a where a: "account_view (graph db) (jn_uid n) = Some a" by (rule found_account_typed [OF 2(1) wf])
    from mutate_any [OF 2(2)] show ?thesis
    proof
      assume "\<exists>as. mut_step as (deactivate_mut now (jn_uid n)) (graph db) (graph db')"
      then show ?thesis using deactivate_view [OF _ wf a] a by blast
    qed (use wf in simp)
  qed (use wf in simp)
next
  assume "SA_GetByClientID bind dg ci (Some z) db = Inr a"
  then obtain v n ns cs where q: "dg_query dg Strong (user_query SA_client_id v saFields) db = Inr (Json (n # ns) cs)"
      and a: "a = dgraphServiceAccount_toDomain (decode_sa n)"
    by (auto simp: SA_GetByClientID_def QueryWithVars_def newReadTxn_def account_query_def unmarshal_def
        split: prod.splits sum.splits list.splits qjson.splits)
  obtain b where b: "account_view (graph db) (jn_uid n) = Some b" "jn_val n = project saFields (graph db (jn_uid n))"
    by (rule found_account_typed [OF q wf])
  have "decode_sa n = decode_sa \<lparr>jn_uid = jn_uid n, jn_val = graph db (jn_uid n)\<rparr>"
    by (simp add: b(2) decode_sa_def project_def saFields_def jstr_def jstrs_def jbool_def jtime_def Let_def)
  then show "\<exists>x. account_view (graph db) x = Some a" using a b(1)
    by (intro exI [of _ "jn_uid n"]) (simp add: account_view_def split: if_splits)
qed

end

sublocale dgraph_client \<subseteq> site_sessions: session_store "dgraph_session_repo dg" "\<lambda>db. session_view (graph db)"
  "\<lambda>db. wf_site (graph db) \<and> user_view (graph db) = U \<and> account_view (graph db) = A" for U A
proof (intro session_store.intro site_session_repository session_store_axioms.intro, goal_cases)
  case (1 db now inp cr db')
  then have c: "SessionRepo_Create dg now inp db = (cr, db')" "wf_graph (graph db)"
    by (simp_all add: dgraph_session_repo_def wf_siteD)
  show ?case by (cases rule: create_cases [OF c(2,1)]) auto
next
  case (2 db now u y db' v)
  then have "SessionRepo_Revoke dg now u db = (y, db')" "wf_graph (graph db)"
    by (simp_all add: dgraph_session_repo_def wf_siteD)
  from revoke_cases(5) [OF this(2,1)] 2(3) show ?case by auto
next
  case (3 db now usr y db')
  then have "SessionRepo_RevokeAllForUser dg now usr db = (y, db')" "wf_graph (graph db)"
    by (simp_all add: dgraph_session_repo_def wf_siteD)
  from revoke_all_cases(5) [OF this(2,1)] show ?case by (auto simp: others_def revoked_at_def split: option.split)
next
  case (4 db now u y db' v)
  then have "SessionRepo_Touch dg now u db = (y, db')" "wf_graph (graph db)"
    by (simp_all add: dgraph_session_repo_def wf_siteD)
  from touch_cases [OF this(2,1)] 4(3) show ?case by auto
next
  case (5 snap db now rin cr db')
  then have "SessionRepo_RotateTokens dg now rin snap db = (cr, db')" "wf_graph (graph snap)" "wf_graph (graph db)"
    by (simp_all add: dgraph_session_repo_def wf_siteD)
  note c = this
  show ?case by (cases rule: rotate_cases [OF c(2,3,1)]) auto
qed

sublocale dgraph_client \<subseteq> site_users: user_store "dgraph_user_repo dg" "\<lambda>db. user_view (graph db)"
  "\<lambda>db. wf_site (graph db) \<and> session_view (graph db) = S \<and> account_view (graph db) = A" for S A
proof (intro user_store.intro site_user_repository user_store_axioms.intro, goal_cases)
  case (1 db u r db')
  then have c: "Repository_Create dg u db = (r, db')" "wf_users (graph db)"
    by (simp_all add: dgraph_user_repo_def wf_siteD)
  show ?case by (cases rule: create_user_cases [OF c(2,1) 1(3,4)]) auto
next
  case (2 db now i inp r2 db')
  then have c: "Repository_Update dg now i inp db db = (r2, db')" "wf_users (graph db)"
    by (simp_all add: dgraph_user_repo_def wf_siteD)
  show ?case by (cases rule: update_user_cases [OF c(2,1)]) auto
next
  case (3 db i r db')
  then have c: "Repository_Delete dg i db db = (r, db')" "wf_users (graph db)"
    by (simp_all add: dgraph_user_repo_def wf_siteD)
  show ?case by (cases rule: delete_user_cases [OF c(2,1)]) auto
qed

sublocale dgraph_client \<subseteq> site_accounts: account_store "dgraph_service_account_repo bind dg"
  "\<lambda>db. account_view (graph db)" "\<lambda>db. wf_site (graph db) \<and> session_view (graph db) = S \<and> user_view (graph db) = U"
  for bind S U
proof (unfold_locales, goal_cases)
  case (1 db a r db')
  then have c: "SA_CreateServiceAccount bind dg a db = (r, db')" by (simp add: dgraph_service_account_repo_def)
  from account_rows(1) [OF _ c] account_steps_keep [OF account_repo_steps(1) [OF c] _ 1(1)] 1(1)
  show ?case by (simp add: wf_siteD)
next
  case (2 db now ci r db')
  then have c: "SA_Deactivate bind dg now ci db db = (r, db')" by (simp add: dgraph_service_account_repo_def)
  from account_rows(2) [OF _ c] account_steps_keep [OF account_repo_steps(2) [OF c] _ 2(1)] 2(1)
  show ?case by (simp add: wf_siteD)
next
  case (3 db ci z a)
  then show ?case using account_rows(3) [of db bind ci z a] by (simp add: dgraph_service_account_repo_def wf_siteD)
qed

context dgraph_client
begin

lemma dgraph_site:
  "session_store (dgraph_session_repo dg) (\<lambda>db. session_view (graph db))
    (\<lambda>db. wf_site (graph db) \<and> user_view (graph db) = U \<and> account_view (graph db) = A)"
  "user_store (dgraph_user_repo dg) (\<lambda>db. user_view (graph db))
    (\<lambda>db. wf_site (graph db) \<and> session_view (graph db) = S \<and> account_view (graph db) = A)"
  "account_store (dgraph_service_account_repo bind dg) (\<lambda>db. account_view (graph db))
    (\<lambda>db. wf_site (graph db) \<and> session_view (graph db) = S \<and> user_view (graph db) = U)"
  by (rule site_sessions.session_store_axioms site_users.user_store_axioms site_accounts.account_store_axioms)+

end


text \<open>The contracts on the in-memory store.\<close>

interpretation mem_site_sessions: session_store "dgraph_session_repo mem_dgraph" "\<lambda>db. session_view (mem_graph db)"
  "\<lambda>db. wf_site (mem_graph db) \<and> user_view (mem_graph db) = U \<and> account_view (mem_graph db) = A" for U A
  by (rule mem.dgraph_site(1))

interpretation mem_site_users: user_store "dgraph_user_repo mem_dgraph" "\<lambda>db. user_view (mem_graph db)"
  "\<lambda>db. wf_site (mem_graph db) \<and> session_view (mem_graph db) = S \<and> account_view (mem_graph db) = A" for S A
  by (rule mem.dgraph_site(2))

interpretation mem_site_accounts: account_store "dgraph_service_account_repo bind mem_dgraph"
  "\<lambda>db. account_view (mem_graph db)"
  "\<lambda>db. wf_site (mem_graph db) \<and> session_view (mem_graph db) = S \<and> user_view (mem_graph db) = U" for bind S U
  by (rule mem.dgraph_site(3))

end
