(* ===== verification/Site_Services.thy ===== *)
theory Site_Services
  imports Site_Stores Session_Service Service_Auth
begin

text \<open>
  What a caller may do to the data: the specification \<open>permitted\<close>, over the tables of sessions, users and
  service accounts, and the effect of each operation of the services (\<^verbatim>\<open>internal/service\<close>) on the table it works on,
  whatever it answers.
\<close>

section \<open>Access control as a specification\<close>

record tables =
  tb_sessions :: sessions
  tb_users :: users
  tb_accounts :: accounts

text \<open>
  \<open>permitted caller rh known\<close> holds of the tables before and after a request whose bearer token, if any, verified
  as \<open>caller\<close>, which presents a refresh token with hash \<open>rh\<close> and the secrets behind the bcrypt hashes
  \<open>known\<close>. A caller edits or deletes the users whose ID is his own and ends or opens sessions of that ID; a
  refresh token gives power over the sessions of its user; anyone may register, and sign in as an active user or service
  account whose secret he presents; every caller may create and deactivate service accounts.
\<close>

definition new_login :: "PrincipalKind \<Rightarrow> string \<Rightarrow> string \<Rightarrow> string list \<Rightarrow> sessions \<Rightarrow> sessions \<Rightarrow> bool" where
  "new_login kind usr client perms S T =
     (\<exists>v s. S v = None \<and> ses_Kind s = kind \<and> ses_UserID s = usr \<and> ses_ClientID s = client \<and>
        set (ses_Permissions s) = set perms \<and> T = S(v \<mapsto> s))"

inductive permitted :: "Principal option \<Rightarrow> string option \<Rightarrow> (string \<Rightarrow> bool) \<Rightarrow> tables \<Rightarrow> tables \<Rightarrow> bool"
  for caller rh known where
  nothing: "permitted caller rh known t t"
| sign_up: "tb_users t x = None \<Longrightarrow> \<not> taken (tb_users t) (usr_Email u) (usr_Nickname u) \<Longrightarrow>
    permitted caller rh known t (t\<lparr>tb_users := (tb_users t)(x \<mapsto> u)\<rparr>)"
| user_login: "tb_users t x = Some u \<Longrightarrow> usr_Active u \<Longrightarrow> known (usr_PasswordHash u) \<Longrightarrow>
    new_login PrincipalKindUser (usr_ID u) '''' [] (tb_sessions t) S \<Longrightarrow> permitted caller rh known t (t\<lparr>tb_sessions := S\<rparr>)"
| service_login: "tb_accounts t x = Some ac \<Longrightarrow> sa_Active ac \<Longrightarrow> known (sa_SecretHash ac) \<Longrightarrow>
    new_login PrincipalKindService '''' (sa_ClientID ac) (sa_Permissions ac) (tb_sessions t) S \<Longrightarrow>
    permitted caller rh known t (t\<lparr>tb_sessions := S\<rparr>)"
| edit: "caller = Some p \<Longrightarrow> tb_users t x = Some u \<Longrightarrow> usr_ID u = prin_UserID p \<Longrightarrow>
    permitted caller rh known t (t\<lparr>tb_users := (tb_users t)(x \<mapsto> updated_user now i u)\<rparr>)"
| remove: "caller = Some p \<Longrightarrow> tb_users t x = Some u \<Longrightarrow> usr_ID u = prin_UserID p \<Longrightarrow>
    permitted caller rh known t (t\<lparr>tb_users := (tb_users t)(x := None)\<rparr>)"
| own_sessions: "caller = Some p \<Longrightarrow> only_of (prin_UserID p) (tb_sessions t) S \<Longrightarrow>
    permitted caller rh known t (t\<lparr>tb_sessions := S\<rparr>)"
| refresh: "rh = Some hash \<Longrightarrow> tb_sessions t v = Some s \<Longrightarrow> ses_RefreshTokenHash s = hash \<Longrightarrow>
    only_of (ses_UserID s) (tb_sessions t) S \<Longrightarrow> permitted caller rh known t (t\<lparr>tb_sessions := S\<rparr>)"
| add_account: "caller = Some p \<Longrightarrow> tb_accounts t x = None \<Longrightarrow>
    permitted caller rh known t (t\<lparr>tb_accounts := (tb_accounts t)(x \<mapsto> ac)\<rparr>)"
| deactivate: "caller = Some p \<Longrightarrow> tb_accounts t x = Some ac \<Longrightarrow>
    permitted caller rh known t (t\<lparr>tb_accounts := (tb_accounts t)(x \<mapsto> deactivated now ac)\<rparr>)"

inductive_cases permittedE: "permitted caller rh known t t'"

section \<open>What is kept\<close>

definition unique_emails :: "users \<Rightarrow> bool" where
  "unique_emails U = (\<forall>x y u v. U x = Some u \<longrightarrow> U y = Some v \<longrightarrow> usr_Email u = usr_Email v \<longrightarrow> x = y)"

text \<open>Service accounts are never removed or reactivated, and keep everything but their status.\<close>

definition accounts_age :: "accounts \<Rightarrow> accounts \<Rightarrow> bool" where
  "accounts_age A B =
     (\<forall>x a. A x = Some a \<longrightarrow> (\<exists>b. B x = Some b \<and> b = a\<lparr>sa_Active := sa_Active b, sa_UpdatedAt := sa_UpdatedAt b\<rparr> \<and>
        (sa_Active b \<longrightarrow> sa_Active a)))"

lemma accounts_age_refl [simp]: "accounts_age A A"
  by (simp add: accounts_age_def)

lemma accounts_age_trans: 
  assumes "accounts_age A B" "accounts_age B C"
  shows "accounts_age A C"
  unfolding accounts_age_def
proof (intro allI impI)
  fix x a assume "A x = Some a"
  then obtain b where b: "B x = Some b" "b = a\<lparr>sa_Active := sa_Active b, sa_UpdatedAt := sa_UpdatedAt b\<rparr>"
      "sa_Active b \<longrightarrow> sa_Active a"
    using assms(1) unfolding accounts_age_def by blast
  then obtain c where c: "C x = Some c" "c = b\<lparr>sa_Active := sa_Active c, sa_UpdatedAt := sa_UpdatedAt c\<rparr>"
      "sa_Active c \<longrightarrow> sa_Active b"
    using assms(2) unfolding accounts_age_def by blast
  have "c = a\<lparr>sa_Active := sa_Active c, sa_UpdatedAt := sa_UpdatedAt c\<rparr>"
    using b(2) c(2) by (cases a; cases b; cases c) simp
  with b c show "\<exists>b. C x = Some b \<and> b = a\<lparr>sa_Active := sa_Active b, sa_UpdatedAt := sa_UpdatedAt b\<rparr> \<and>
      (sa_Active b \<longrightarrow> sa_Active a)" by blast
qed

lemma unique_emails_update:
  "unique_emails U \<Longrightarrow> U x = Some u \<Longrightarrow> usr_Email v = usr_Email u \<Longrightarrow> unique_emails (U(x \<mapsto> v))"
  unfolding unique_emails_def by (metis fun_upd_apply option.inject)

lemma unique_emails_new: "unique_emails U \<Longrightarrow> U x = None \<Longrightarrow> \<not> taken U (usr_Email u) n \<Longrightarrow> unique_emails (U(x \<mapsto> u))"
  unfolding unique_emails_def taken_def by (metis fun_upd_apply option.inject)

lemma unique_emails_delete: "unique_emails U \<Longrightarrow> unique_emails (U(x := None))"
  by (simp add: unique_emails_def)

lemma updated_email [simp]: "usr_Email (updated_user now i u) = usr_Email u"
  by (simp add: updated_user_def)

lemma new_login_evolves: "new_login k usr c ps S T \<Longrightarrow> evolves S T"
  by (auto simp: new_login_def evolves_new)

lemma new_login_own: "new_login k usr c ps S T \<Longrightarrow> only_of usr S T"
  by (auto simp: new_login_def intro: only_of_new)

lemma permitted_keeps:
  assumes "permitted caller rh known t t'"
  shows "evolves (tb_sessions t) (tb_sessions t')" "accounts_age (tb_accounts t) (tb_accounts t')"
    "unique_emails (tb_users t) \<Longrightarrow> unique_emails (tb_users t')"
proof -
  show "evolves (tb_sessions t) (tb_sessions t')"
    using assms by cases (auto simp: only_of_def intro: new_login_evolves)
  show "accounts_age (tb_accounts t) (tb_accounts t')"
    using assms by cases (auto simp: accounts_age_def deactivated_def)
  show "unique_emails (tb_users t) \<Longrightarrow> unique_emails (tb_users t')"
    using assms by cases (auto intro: unique_emails_new unique_emails_update unique_emails_delete)
qed

text \<open>Who is behind a change.\<close>

lemma permitted_user_row:
  assumes "permitted caller rh known t t'" "tb_users t x = Some u" "tb_users t' x \<noteq> Some u"
  shows "\<exists>p. caller = Some p \<and> prin_UserID p = usr_ID u"
  using assms(1) by cases (use assms(2,3) in \<open>auto split: if_splits\<close>)

lemma permitted_session_row:
  assumes "permitted caller rh known t t'" "tb_sessions t v = Some s" "tb_sessions t' v \<noteq> Some s"
  shows "(\<exists>p. caller = Some p \<and> prin_UserID p = ses_UserID s) \<or>
    (\<exists>w s'. tb_sessions t w = Some s' \<and> rh = Some (ses_RefreshTokenHash s') \<and> ses_UserID s' = ses_UserID s)"
  using assms(1)
proof cases
  case (user_login x u S)
  then show ?thesis using assms(2,3) by (auto simp: new_login_def split: if_splits)
next
  case (service_login x ac S)
  then show ?thesis using assms(2,3) by (auto simp: new_login_def split: if_splits)
next
  case (own_sessions p S)
  then show ?thesis using only_of_keeps assms(2,3) by fastforce
next
  case (refresh hash w s' S)
  then show ?thesis using only_of_keeps assms(2,3) by fastforce
qed (use assms(2,3) in auto)

lemma only_of_new_row: "only_of usr S T \<Longrightarrow> S v = None \<Longrightarrow> T v = Some s \<Longrightarrow> ses_UserID s = usr"
  unfolding only_of_def by (drule conjunct2, drule fun_cong [of _ _ v]) (simp add: others_def split: if_splits)

lemma permitted_new_session:
  assumes "permitted caller rh known t t'" "tb_sessions t v = None" "tb_sessions t' v = Some s"
  shows "(\<exists>x u. tb_users t x = Some u \<and> usr_Active u \<and> known (usr_PasswordHash u) \<and> ses_Kind s = PrincipalKindUser \<and> ses_UserID s = usr_ID u \<and>
       ses_Permissions s = []) \<or>
    (\<exists>x ac. tb_accounts t x = Some ac \<and> sa_Active ac \<and> known (sa_SecretHash ac) \<and> ses_Kind s = PrincipalKindService \<and>
       ses_ClientID s = sa_ClientID ac \<and> set (ses_Permissions s) = set (sa_Permissions ac)) \<or>
    (\<exists>p. caller = Some p \<and> prin_UserID p = ses_UserID s) \<or>
    (\<exists>w s'. tb_sessions t w = Some s' \<and> rh = Some (ses_RefreshTokenHash s') \<and> ses_UserID s' = ses_UserID s)"
  using assms(1)
proof cases
  case (user_login x u S)
  then show ?thesis using assms(2,3) by (auto simp: new_login_def split: if_splits)
next
  case (service_login x ac S)
  then show ?thesis using assms(2,3) by (auto simp: new_login_def split: if_splits)
next
  case (own_sessions p S)
  then show ?thesis using only_of_new_row assms(2,3) by fastforce
next
  case (refresh hash w s' S)
  then show ?thesis using only_of_new_row assms(2,3) by fastforce
qed (use assms(2,3) in auto)

section \<open>The session service\<close>

lemma verify_Inr:
  assumes "VerifyToken sha256 repo now raw db = (Inr p, ts)"
  obtains s where "sr_GetByAccessHash repo (Hash sha256 raw) db = Inr (Some s)" "p = sessionToPrincipal s"
  using assms by (auto simp: VerifyToken_def lookupAndCheck_def split: prod.splits sum.splits option.splits if_splits)

context session_store
begin

lemma create_opens:
  assumes "inv db" "Session_Create sha256 cfg repo clk ent i db = (r, db')"
  shows "inv db' \<and> (sessions db' = sessions db \<or>
    new_login (csn_Kind i) (csn_UserID i) (csn_ClientID i) (csn_Permissions i) (sessions db) (sessions db'))"
proof (cases "mint sha256 ent")
  case (Inl e)
  then show ?thesis using assms by (simp add: Session_Create_def)
next
  case (Inr m)
  obtain atk rtk jti where m: "m = (atk, rtk, jti)" by (cases m)
  let ?inp = "create_input cfg (clk 0) atk rtk jti i"
  obtain y where c: "sr_Create repo (clk 1) ?inp db = (y, db')"
    using assms(2) Inr m by (auto simp: Session_Create_def split: prod.splits sum.splits)
  have "new_login (csn_Kind i) (csn_UserID i) (csn_ClientID i) (csn_Permissions i) (sessions db) (sessions db')"
    if "sessions db u = None" "same_session s (new_session u (clk 1) ?inp)" "sessions db' = (sessions db)(u \<mapsto> s)" for u s
    using that same_sessionD(1-3,12) [OF that(2)] by (auto simp: new_login_def new_session_def create_input_def)
  then show ?thesis using create_row [OF assms(1) c] create_step [OF assms(1) c] by blast
qed

lemma revoke_own:
  assumes "inv db" "sessions db u = Some s" "sr_Revoke repo now u db = (y, db')"
  shows "inv db' \<and> only_of (ses_UserID s) (sessions db) (sessions db')"
  using only_of_row [where S = "sessions db", OF _ assms(2)] revoke_step [OF assms(1,3)] revoke_only [OF assms(1,3)] by blast

lemma revoke_all_own:
  assumes "inv db" "sr_RevokeAllForUser repo now usr db = (y, db')"
  shows "inv db' \<and> only_of usr (sessions db) (sessions db')"
  using revoke_all_step [OF assms] revoke_all_only [OF assms] by (simp add: only_of_def)

lemma logout_own:
  assumes "inv db" "sr_GetByAccessHash repo (Hash sha256 raw) db = Inr (Some s)" "Logout sha256 repo now raw db = (r, db')"
  shows "inv db' \<and> only_of (ses_UserID s) (sessions db) (sessions db')"
  using revoke_own [OF assms(1) conjunct1 [OF access_some [OF assms(1,2)]]] assms(2,3) by (simp add: Logout_def)

lemma revoke_session_own:
  assumes "inv db" "RevokeSession repo now sid usr db = (r, db')"
  shows "inv db' \<and> only_of usr (sessions db) (sessions db')"
proof -
  consider "db' = db" | s where "sr_GetByID repo sid db = Inr (Some s)" "ses_UserID s = usr" "sr_Revoke repo now sid db = (r, db')"
    using assms(2) by (auto simp: RevokeSession_def split: sum.splits option.splits if_splits)
  then show ?thesis
  proof cases
    case (2 s)
    then show ?thesis using revoke_own [OF assms(1) _ 2(3), of s] by_id_ok [OF assms(1) 2(1)] by simp
  qed (use assms(1) in simp)
qed

lemma activate_own:
  assumes "inv db" "sr_GetByAccessHash repo (Hash sha256 raw) db = Inr (Some s)"
    "Session_ActivateContext sha256 cfg repo clk ent raw a db = (r, db')"
  shows "inv db' \<and> only_of (ses_UserID s) (sessions db) (sessions db')"
proof -
  note s = conjunct1 [OF access_some [OF assms(1,2)]]
  consider "db' = db" | e where "sr_Revoke repo (clk 1) (ses_ID s) db = (Inl e, db')"
    | x d where "sr_Revoke repo (clk 1) (ses_ID s) db = (Inr x, d)"
      "Session_Create sha256 cfg repo (\<lambda>i. clk (i + 2)) ent (activation_input a s) d = (r, db')"
    using assms(2,3) by (auto simp: Session_ActivateContext_def split: sum.splits if_splits prod.splits)
  then show ?thesis
  proof cases
    case 2
    then show ?thesis using revoke_own [OF assms(1) s] by blast
  next
    case (3 x d)
    note rv = revoke_own [OF assms(1) s 3(1)]
    have "csn_UserID (activation_input a s) = ses_UserID s" by (simp add: activation_input_def)
    then have "inv db' \<and> only_of (ses_UserID s) (sessions d) (sessions db')"
      using create_opens [OF conjunct1 [OF rv] 3(2)] new_login_own by auto
    with rv show ?thesis using only_of_trans by blast
  qed (use assms(1) in simp)
qed

lemma rotate_own:
  assumes "inv db" "sessions db (sri_OldSessionID rin) = Some s" "sr_RotateTokens repo now rin db db = (y, db')"
  shows "inv db' \<and> only_of (ses_UserID s) (sessions db) (sessions db')"
proof -
  have "only_of (ses_UserID s) (sessions db) (sessions db')"
    if new: "sessions db u = None" "same_session t (new_session u now (rotation_input rin s))"
      "sessions db' = (sessions db)(sri_OldSessionID rin \<mapsto> rotated_away now (sri_NewRefreshJTI rin) s, u \<mapsto> t)" for u t
  proof -
    let ?M = "(sessions db)(sri_OldSessionID rin \<mapsto> rotated_away now (sri_NewRefreshJTI rin) s)"
    have "evolves (sessions db) ?M" using assms(2) by (auto simp: evolves_def)
    then have "only_of (ses_UserID s) (sessions db) ?M" by (rule only_of_row [where S = "sessions db", OF _ assms(2) refl]) simp
    moreover have "ses_UserID t = ses_UserID s"
      using same_sessionD(2) [OF new(2)] by (simp add: new_session_def rotation_input_def Let_def)
    then have "only_of (ses_UserID s) ?M (sessions db')"
      unfolding new(3) using new(1) assms(2) by (intro only_of_new) auto
    ultimately show ?thesis by (rule only_of_trans)
  qed
  then show ?thesis using rotate_row [OF assms(1,1,3)] rotate_step [OF assms(1,1,3)] assms(2) by auto
qed

lemma refresh_own:
  assumes inv: "inv db" and r: "Refresh sha256 cfg repo clk ent i db db db = (x, db')"
  shows "inv db' \<and> (db' = db \<or> (\<exists>v s. sessions db v = Some s \<and>
      ses_RefreshTokenHash s = Hash sha256 (rin_RawRefreshToken i) \<and> only_of (ses_UserID s) (sessions db) (sessions db')))"
proof -
  consider "db' = db"
    | s t y where "sr_GetByRefreshHash repo (Hash sha256 (rin_RawRefreshToken i)) db = Inr (Some s)"
        "sr_RevokeAllForUser repo t (ses_UserID s) db = (y, db')"
    | s t rin y d where "sr_GetByRefreshHash repo (Hash sha256 (rin_RawRefreshToken i)) db = Inr (Some s)"
        "sr_RotateTokens repo t rin db db = (y, d)" "sri_OldSessionID rin = ses_ID s"
        "d = db' \<or> (\<exists>t' y'. sr_RevokeAllForUser repo t' (ses_UserID s) d = (y', db'))"
    using r by (auto simp: Refresh_def split: sum.splits option.splits if_splits prod.splits)
      (metis prod.collapse refresh_input_simps(1))+
  then show ?thesis
  proof cases
    case (2 s t y)
    then show ?thesis using refresh_some [OF inv 2(1)] revoke_all_own [OF inv 2(2)] by blast
  next
    case (3 s t rin y d)
    note s = refresh_some [OF inv 3(1)]
    have d: "inv d \<and> only_of (ses_UserID s) (sessions db) (sessions d)"
      using rotate_own [OF inv _ 3(2), of s] s 3(3) by simp
    then have "inv db' \<and> only_of (ses_UserID s) (sessions db) (sessions db')"
      using 3(4) revoke_all_own only_of_trans by blast
    with s show ?thesis by blast
  qed (use inv in simp)
qed

end

section \<open>The user and the service account service\<close>

context user_store
begin

lemma register_adds:
  assumes "inv db" "as_repo sv = repo" "Auth_Register sv bc salt now uuid i db = (r, db')"
  shows "inv db' \<and> (users db' = users db \<or> (\<exists>x u. users db x = None \<and>
    \<not> taken (users db) (usr_Email u) (usr_Nickname u) \<and> users db' = (users db)(x \<mapsto> u)))"
proof -
  have rg: "Auth_Register \<lparr>as_repo = repo, as_bcryptCost = as_bcryptCost sv\<rparr> bc salt now uuid i db = (r, db')"
    using assms(2,3) by (cases sv) simp
  show ?thesis
  proof (cases rule: register_cases [OF assms(1) rg])
    case (3 j h y)
    let ?u = "registered_user now uuid h j"
    note v = validated_input [OF 3(1)]
    have u: "usr_Email ?u = cui_Email j" "usr_Nickname ?u = cui_Nickname j" by (simp_all add: registered_user_def)
    have row: "users db' = users db \<or> (\<exists>x. users db x = None \<and> \<not> taken (users db) (usr_Email ?u) (usr_Nickname ?u) \<and>
        users db' = (users db)(x \<mapsto> stored_user ?u))"
      using create_row [OF assms(1) 3(3)] u v(2-4) by auto
    have "usr_Email (stored_user ?u) = usr_Email ?u" "usr_Nickname (stored_user ?u) = usr_Nickname ?u"
      by (simp_all add: stored_user_def)
    with 3(4) row show ?thesis by metis
  qed (use assms(1) in simp_all)
qed

lemma update_own:
  assumes "inv db" "as_repo sv = repo" "Auth_UpdateUser sv now me target i db db = (r, db')"
  shows "inv db' \<and> (users db' = users db \<or> (\<exists>x u. users db x = Some u \<and> usr_ID u = me \<and>
    users db' = (users db)(x \<mapsto> updated_user now i u)))"
proof (cases "me = target")
  case True
  then obtain y where y: "ur_Update repo now target i db db = (y, db')"
    using assms(2,3) by (auto simp: Auth_UpdateUser_def split: prod.splits sum.splits)
  from update_row [OF assms(1) y] update_inv [OF assms(1) y] True show ?thesis by auto
qed (use assms in \<open>simp add: Auth_UpdateUser_def\<close>)

lemma delete_own:
  assumes "inv db" "as_repo sv = repo" "Auth_DeleteUser sv me target db db = (r, db')"
  shows "inv db' \<and> (users db' = users db \<or> (\<exists>x u. users db x = Some u \<and> usr_ID u = me \<and>
    users db' = (users db)(x := None)))"
proof (cases "me = target")
  case True
  then obtain y where y: "ur_Delete repo target db db = (y, db')"
    using assms(2,3) by (auto simp: Auth_DeleteUser_def split: prod.splits sum.splits)
  from delete_row [OF assms(1) y] delete_inv [OF assms(1) y] True show ?thesis by auto
qed (use assms in \<open>simp add: Auth_DeleteUser_def\<close>)

lemma login_active:
  assumes "inv db" "as_repo sv = repo" "fst (Auth_Login sv bc i db) = Inr u"
  shows "(\<exists>x. users db x = Some u) \<and> usr_Active u \<and> bc_Compare bc (usr_PasswordHash u) (li_Password i)"
  using login_stored [OF assms] by blast

end

context account_store
begin

lemma create_adds:
  assumes "inv db" "sas_repo sv = repo" "ServiceAuth_CreateServiceAccount sv bc salt now uuid i db = (r, db')"
  shows "inv db' \<and> (accounts db' = accounts db \<or> (\<exists>x b. accounts db x = None \<and> accounts db' = (accounts db)(x \<mapsto> b)))"
proof -
  consider "db' = db" | a y where "sar_CreateServiceAccount repo a db = (y, db')"
    using assms(2,3)
    by (auto simp: ServiceAuth_CreateServiceAccount_def Let_def split: option.splits sum.splits prod.splits)
  then show ?thesis by cases (use assms(1) create_row [OF assms(1)] in auto)
qed

lemma deactivate_marks:
  assumes "inv db" "sas_repo sv = repo" "ServiceAuth_DeactivateServiceAccount sv now ci db db = (r, db')"
  shows "inv db' \<and> (accounts db' = accounts db \<or>
    (\<exists>x a. accounts db x = Some a \<and> accounts db' = (accounts db)(x \<mapsto> deactivated now a)))"
proof -
  obtain y where "sar_Deactivate repo now ci db db = (y, db')"
    using assms(2,3) by (auto simp: ServiceAuth_DeactivateServiceAccount_def split: sum.splits prod.splits)
  then show ?thesis by (rule deactivate_row [OF assms(1)])
qed

lemma service_login_active:
  assumes "inv db" "sas_repo sv = repo" "fst (ServiceAuth_Login sv bc i db) = Inr a"
  shows "(\<exists>x. accounts db x = Some a) \<and> sa_Active a \<and> bc_Compare bc (sa_SecretHash a) (sli_ClientSecret i)"
proof -
  obtain ci where "sar_GetByClientID repo ci StrongRead db = Inr a" "sa_Active a"
      "bc_Compare bc (sa_SecretHash a) (sli_ClientSecret i)"
    using assms(2,3) by (auto simp: ServiceAuth_Login_def split: prod.splits option.splits sum.splits if_splits)
  then show ?thesis using get_row [OF assms(1)] by (auto simp: StrongRead_def)
qed

end

section \<open>The services on one Dgraph client\<close>

text \<open>The secrets a request presents, as the set of hashes they compare equal with.\<close>

definition presents :: "bcrypt \<Rightarrow> string list \<Rightarrow> string \<Rightarrow> bool" where
  "presents bc secrets hash = list_ex (bc_Compare bc hash) secrets"

definition site_tables :: "graph \<Rightarrow> tables" where
  "site_tables g = \<lparr>tb_sessions = session_view g, tb_users = user_view g, tb_accounts = account_view g\<rparr>"

definition allows :: "('db \<Rightarrow> graph) \<Rightarrow> Principal option \<Rightarrow> string option \<Rightarrow> (string \<Rightarrow> bool) \<Rightarrow> 'db \<Rightarrow> 'db \<Rightarrow> bool" where
  "allows graph caller rh known db db' =
     (wf_site (graph db') \<and> permitted caller rh known (site_tables (graph db)) (site_tables (graph db')))"

lemma allows_same: "wf_site (graph db) \<Longrightarrow> allows graph caller rh known db db"
  by (simp add: allows_def permitted.nothing)

lemma allows_sessions:
  assumes "wf_site (graph db') \<and> user_view (graph db') = user_view (graph db) \<and>
      account_view (graph db') = account_view (graph db)"
    and "session_view (graph db') = session_view (graph db) \<or>
      permitted caller rh known (site_tables (graph db)) (site_tables (graph db)\<lparr>tb_sessions := session_view (graph db')\<rparr>)"
  shows "allows graph caller rh known db db'"
  using assms by (auto simp: allows_def site_tables_def permitted.nothing)

lemma allows_users:
  assumes "wf_site (graph db') \<and> session_view (graph db') = session_view (graph db) \<and>
      account_view (graph db') = account_view (graph db)"
    and "user_view (graph db') = user_view (graph db) \<or>
      permitted caller rh known (site_tables (graph db)) (site_tables (graph db)\<lparr>tb_users := user_view (graph db')\<rparr>)"
  shows "allows graph caller rh known db db'"
  using assms by (auto simp: allows_def site_tables_def permitted.nothing)

lemma allows_accounts:
  assumes "wf_site (graph db') \<and> session_view (graph db') = session_view (graph db) \<and>
      user_view (graph db') = user_view (graph db)"
    and "account_view (graph db') = account_view (graph db) \<or>
      permitted caller rh known (site_tables (graph db)) (site_tables (graph db)\<lparr>tb_accounts := account_view (graph db')\<rparr>)"
  shows "allows graph caller rh known db db'"
  using assms by (auto simp: allows_def site_tables_def permitted.nothing)

lemma site_tables_simps [simp]:
  "tb_sessions (site_tables g) = session_view g" "tb_users (site_tables g) = user_view g"
  "tb_accounts (site_tables g) = account_view g"
  by (simp_all add: site_tables_def)

lemmas site_permitted =
  permitted.sign_up [where t = "site_tables g", simplified] permitted.user_login [where t = "site_tables g", simplified]
  permitted.service_login [where t = "site_tables g", simplified] permitted.edit [where t = "site_tables g", simplified]
  permitted.remove [where t = "site_tables g", simplified] permitted.own_sessions [where t = "site_tables g", simplified]
  permitted.refresh [where t = "site_tables g", simplified] permitted.add_account [where t = "site_tables g", simplified]
  permitted.deactivate [where t = "site_tables g", simplified] for g

context dgraph_client
begin

text \<open>Each operation of a service, whatever it answers, is a permitted change.\<close>

lemma allow_register:
  assumes "wf_site (graph db)" "as_repo sv = dgraph_user_repo dg" "Auth_Register sv bc salt now uuid i db = (r, db')"
  shows "allows graph caller rh known db db'"
  using site_users.register_adds [OF _ assms(2,3)] assms(1)
  by (intro allows_users) (auto intro: site_permitted)

lemma allow_update:
  assumes "wf_site (graph db)" "as_repo sv = dgraph_user_repo dg"
    "Auth_UpdateUser sv now (prin_UserID p) target i db db = (r, db')"
  shows "allows graph (Some p) rh known db db'"
  using site_users.update_own [OF _ assms(2,3)] assms(1)
  by (intro allows_users) (auto intro: site_permitted)

lemma allow_delete:
  assumes "wf_site (graph db)" "as_repo sv = dgraph_user_repo dg"
    "Auth_DeleteUser sv (prin_UserID p) target db db = (r, db')"
  shows "allows graph (Some p) rh known db db'"
  using site_users.delete_own [OF _ assms(2,3)] assms(1)
  by (intro allows_users) (auto intro: site_permitted)

lemma allow_create_account:
  assumes "wf_site (graph db)" "sas_repo sv = dgraph_service_account_repo bind dg"
    "ServiceAuth_CreateServiceAccount sv bc salt now uuid i db = (r, db')"
  shows "allows graph (Some p) rh known db db'"
  using site_accounts.create_adds [OF _ assms(2,3)] assms(1)
  by (intro allows_accounts) (auto intro: site_permitted)

lemma allow_deactivate_account:
  assumes "wf_site (graph db)" "sas_repo sv = dgraph_service_account_repo bind dg"
    "ServiceAuth_DeactivateServiceAccount sv now ci db db = (r, db')"
  shows "allows graph (Some p) rh known db db'"
  using site_accounts.deactivate_marks [OF _ assms(2,3)] assms(1)
  by (intro allows_accounts) (auto intro: site_permitted)

lemma allow_user_login:
  assumes "wf_site (graph db)" "as_repo sv = dgraph_user_repo dg" "fst (Auth_Login sv bc li db) = Inr u"
    "Session_Create sha256 cfg (dgraph_session_repo dg) clk ent i db = (r, db')"
    "csn_Kind i = PrincipalKindUser" "csn_UserID i = usr_ID u" "csn_ClientID i = ''''" "csn_Permissions i = []"
    "bc_Compare bc (usr_PasswordHash u) (li_Password li) \<Longrightarrow> known (usr_PasswordHash u)"
  shows "allows graph caller rh known db db'"
  using site_sessions.create_opens [OF _ assms(4)] site_users.login_active [OF _ assms(2,3)] assms(1,5-)
  by (intro allows_sessions) (auto intro: site_permitted)

lemma allow_service_login:
  assumes "wf_site (graph db)" "sas_repo sv = dgraph_service_account_repo bind dg"
    "fst (ServiceAuth_Login sv bc li db) = Inr ac"
    "Session_Create sha256 cfg (dgraph_session_repo dg) clk ent i db = (r, db')"
    "csn_Kind i = PrincipalKindService" "csn_UserID i = ''''" "csn_ClientID i = sa_ClientID ac"
    "csn_Permissions i = sa_Permissions ac"
    "bc_Compare bc (sa_SecretHash ac) (sli_ClientSecret li) \<Longrightarrow> known (sa_SecretHash ac)"
  shows "allows graph caller rh known db db'"
  using site_sessions.create_opens [OF _ assms(4)] site_accounts.service_login_active [OF _ assms(2,3)] assms(1,5-)
  by (intro allows_sessions) (auto intro: site_permitted)

lemma allow_refresh:
  assumes "wf_site (graph db)"
    "Refresh sha256 cfg (dgraph_session_repo dg) clk ent i db db db = (r, db')"
    "rh = Some (Hash sha256 (rin_RawRefreshToken i))"
  shows "allows graph caller rh known db db'"
  using site_sessions.refresh_own [OF _ assms(2)] assms(1,3)
  by (intro allows_sessions) (auto intro: site_permitted)

lemma allow_logout_all:
  assumes "wf_site (graph db)" "LogoutAll (dgraph_session_repo dg) now (prin_UserID p) db = (r, db')"
  shows "allows graph (Some p) rh known db db'"
  using site_sessions.revoke_all_own [OF _ assms(2) [unfolded LogoutAll_def]] assms(1)
  by (intro allows_sessions) (auto intro: site_permitted)

lemma allow_revoke:
  assumes "wf_site (graph db)" "RevokeSession (dgraph_session_repo dg) now sid (prin_UserID p) db = (r, db')"
  shows "allows graph (Some p) rh known db db'"
  using site_sessions.revoke_session_own [OF _ assms(2)] assms(1)
  by (intro allows_sessions) (auto intro: site_permitted)

text \<open>Logout and context activation look the session up again, with the token that has just verified.\<close>

lemma allow_logout:
  assumes "wf_site (graph db)" "VerifyToken sha256 (dgraph_session_repo dg) t raw db = (Inr p, ts)"
    "Logout sha256 (dgraph_session_repo dg) now raw db = (r, db')"
  shows "allows graph (Some p) rh known db db'"
proof (rule verify_Inr [OF assms(2)])
  fix s assume s: "sr_GetByAccessHash (dgraph_session_repo dg) (Hash sha256 raw) db = Inr (Some s)" "p = sessionToPrincipal s"
  show ?thesis
    using site_sessions.logout_own [OF _ s(1) assms(3)] assms(1) s(2)
    by (intro allows_sessions) (auto simp: sessionToPrincipal_def intro: site_permitted)
qed

lemma allow_activate:
  assumes "wf_site (graph db)" "VerifyToken sha256 (dgraph_session_repo dg) t raw db = (Inr p, ts)"
    "Session_ActivateContext sha256 cfg (dgraph_session_repo dg) clk ent raw a db = (r, db')"
  shows "allows graph (Some p) rh known db db'"
proof (rule verify_Inr [OF assms(2)])
  fix s assume s: "sr_GetByAccessHash (dgraph_session_repo dg) (Hash sha256 raw) db = Inr (Some s)" "p = sessionToPrincipal s"
  show ?thesis
    using site_sessions.activate_own [OF _ s(1) assms(3)] assms(1) s(2)
    by (intro allows_sessions) (auto simp: sessionToPrincipal_def intro: site_permitted)
qed

text \<open>Users and service accounts go without their sessions.\<close>

lemma deletion_frame:
  assumes "wf_site (graph db)" "as_repo sv = dgraph_user_repo dg" "Auth_DeleteUser sv caller target db db = (r, db')"
  shows "wf_site (graph db') \<and> session_view (graph db') = session_view (graph db)"
  using site_users.delete_own [OF _ assms(2,3)] assms(1) by simp

lemma deactivation_frame:
  assumes "wf_site (graph db)" "sas_repo sv = dgraph_service_account_repo bind dg"
    "ServiceAuth_DeactivateServiceAccount sv now ci db db = (r, db')"
  shows "wf_site (graph db') \<and> session_view (graph db') = session_view (graph db)"
  using site_accounts.deactivate_marks [OF _ assms(2,3)] assms(1) by simp

end

end
