(* ===== verification/Vault_Client.thy ===== *)
theory Vault_Client
  imports Vault
begin

text \<open>
  \<^verbatim>\<open>internal/vault/client.go\<close> and \<^verbatim>\<open>internal/vault/secrets.go\<close>: login to Vault, the goroutine that keeps the
  token renewed, and the typed reads of the key/value store. The Vault API is an argument of each
  operation. The goroutine is a function of what it meets: the time at which the stop channel is
  closed, if ever, and for each renewal call how long it takes and what it returns; it yields the
  times at which it calls Vault and how it ends. With as many answers as calls the recursion is
  structural.
\<close>

section \<open>Login\<close>

record vault_auth =
  va_ClientToken :: string
  va_Renewable :: bool
  va_LeaseDuration :: int

record vault_secret = vx_Auth :: "vault_auth option"

record 'tls VaultClientConfig =
  vcc_Address :: string
  vcc_RoleID :: string
  vcc_SecretID :: string
  vcc_Namespace :: string
  vcc_TLSConfig :: "'tls option"

record Client =
  cl_token :: string
  cl_namespace :: string
  cl_secret :: vault_secret

record 'tls vault_api =
  vapi_ConfigureTLS :: "'tls \<Rightarrow> goerr option"
  vapi_NewClient :: "string \<Rightarrow> goerr option"
  vapi_Login :: "string \<Rightarrow> string \<Rightarrow> string \<Rightarrow> vault_secret option res" \<comment> \<open>namespace, role id, secret id\<close>

definition Client_New :: "'tls vault_api \<Rightarrow> 'tls VaultClientConfig \<Rightarrow> Client res" where
  "Client_New api cfg =
     (case (case vcc_TLSConfig cfg of None \<Rightarrow> None | Some t \<Rightarrow> vapi_ConfigureTLS api t) of
        Some e \<Rightarrow> Inl (Wrap ''vault: configure TLS'' e)
      | None \<Rightarrow>
          (case vapi_NewClient api (vcc_Address cfg) of
             Some e \<Rightarrow> Inl (Wrap ''vault: new client'' e)
           | None \<Rightarrow>
               (case vapi_Login api (vcc_Namespace cfg) (vcc_RoleID cfg) (vcc_SecretID cfg) of
                  Inl e \<Rightarrow> Inl (Wrap ''vault: approle login'' e)
                | Inr None \<Rightarrow> Inl (Foreign ''vault: approle login returned empty auth'')
                | Inr (Some s) \<Rightarrow>
                    (case vx_Auth s of
                       None \<Rightarrow> Inl (Foreign ''vault: approle login returned empty auth'')
                     | Some a \<Rightarrow> Inr \<lparr>cl_token = va_ClientToken a, cl_namespace = vcc_Namespace cfg, cl_secret = s\<rparr>))))"

section \<open>Token renewal\<close>

definition five_seconds :: int where
  "five_seconds = 5 * second"

definition sleep_for :: "int \<Rightarrow> int" where \<comment> \<open>two thirds of the TTL, at least five seconds\<close>
  "sleep_for ttl =
     (let s = wrap64 (ttl * 2); d = (if s < 0 then - ((- s) div 3) else s div 3) in
      if d < five_seconds then five_seconds else d)"

text \<open>A \<^verbatim>\<open>select\<close> on the stop channel and a timer that fires at \<open>deadline\<close>: the time at which it exits, if it does.\<close>

definition stopped_by :: "int option \<Rightarrow> int \<Rightarrow> int \<Rightarrow> int option" where
  "stopped_by stop now deadline =
     (case stop of None \<Rightarrow> None | Some t \<Rightarrow> if t \<le> deadline then Some (max now t) else None)"

text \<open>
  The goroutine returns, or it panics (and the process with it): after a renewal it reads
  \<^verbatim>\<open>renewed.Auth.LeaseDuration\<close>, and the secret that \<^verbatim>\<open>RenewSelf\<close> returns may be nil or have a nil \<^verbatim>\<open>Auth\<close>.
  \<open>Renewing\<close>: it still runs when the answers given to it are used up.
\<close>

datatype renew_end = Renewing | Returned int | Panicked int

definition lease :: "vault_secret option \<Rightarrow> vault_secret option" where
  "lease renewed = (case renewed of None \<Rightarrow> None | Some x \<Rightarrow> (case vx_Auth x of None \<Rightarrow> None | Some a \<Rightarrow> Some x))"

fun renewToken ::
  "(vault_secret \<Rightarrow> int res) \<Rightarrow> int option \<Rightarrow> (int \<times> vault_secret option res) list \<Rightarrow> int \<Rightarrow> vault_secret \<Rightarrow>
   int list \<times> renew_end" where
  "renewToken tokenTTL stop calls now sec =
     (case tokenTTL sec of
        Inl e \<Rightarrow> ([], Returned now)
      | Inr ttl \<Rightarrow>
          (if ttl \<le> 0 then ([], Returned now)
           else
             (let wake = now + sleep_for ttl in
              case stopped_by stop now wake of
                Some t \<Rightarrow> ([], Returned t)
              | None \<Rightarrow>
                  (case calls of
                     [] \<Rightarrow> ([], Renewing)
                   | (took, Inr renewed) # rest \<Rightarrow>
                       (case lease renewed of
                          None \<Rightarrow> ([wake], Panicked (wake + took))
                        | Some sec' \<Rightarrow>
                            (case renewToken tokenTTL stop rest (wake + took) sec' of
                               (ts, fin) \<Rightarrow> (wake # ts, fin)))
                   | (took, Inl e) # rest \<Rightarrow>
                       (case stopped_by stop (wake + took) (wake + took + five_seconds) of
                          Some t \<Rightarrow> ([wake], Returned t)
                        | None \<Rightarrow>
                            (case renewToken tokenTTL stop rest (wake + took + five_seconds) sec of
                               (ts, fin) \<Rightarrow> (wake # ts, fin)))))))"

declare renewToken.simps [simp del]

lemma sleep_for_ge: "five_seconds \<le> sleep_for ttl"
  by (simp add: sleep_for_def Let_def)

lemma sleep_for_range:
  assumes "0 < ttl" "ttl < 2 ^ 62"
  shows "2 * ttl - 3 < 3 * sleep_for ttl" "15 * second \<le> 2 * ttl \<Longrightarrow> 3 * sleep_for ttl \<le> 2 * ttl"
proof -
  have w: "wrap64 (ttl * 2) = ttl * 2" using assms by (simp add: wrap64_def)
  have d: "ttl * 2 = 3 * (ttl * 2 div 3) + ttl * 2 mod 3" by simp
  have m: "0 \<le> ttl * 2 mod 3" "ttl * 2 mod 3 < 3" by simp_all
  show "2 * ttl - 3 < 3 * sleep_for ttl"
    using assms d m by (simp add: sleep_for_def w Let_def) linarith
  assume "15 * second \<le> 2 * ttl"
  then have "\<not> ttl * 2 div 3 < five_seconds" using d m by (simp add: five_seconds_def)
  then show "3 * sleep_for ttl \<le> 2 * ttl" using assms d m by (simp add: sleep_for_def w Let_def)
qed

section \<open>Secrets\<close>

type_synonym vault_read = "string \<Rightarrow> vsecret option res"

record SecretManager =
  sm_kvMount :: string
  sm_prefix :: string

record AuthSecrets =
  axs_JWTSigningKey :: string
  axs_AccessTokenTTL :: int
  axs_RefreshTokenTTL :: int
  axs_BcryptCost :: int

record DatabaseSecrets =
  dbs_DgraphTarget :: string
  dbs_TLSEnabled :: bool

definition readKV :: "vault_read \<Rightarrow> SecretManager \<Rightarrow> string \<Rightarrow> (string \<times> json) list res" where
  "readKV vr sm nm =
     (let path = sm_kvMount sm @ ''/data/'' @ sm_prefix sm @ ''/'' @ nm; what = ''kv read '' @ jquote path in
      case vr path of
        Inl e \<Rightarrow> Inl (Wrap what e)
      | Inr None \<Rightarrow> Inl (Foreign (what @ '': secret not found''))
      | Inr (Some s) \<Rightarrow>
          (case vs_Data s of
             None \<Rightarrow> Inl (Foreign (what @ '': secret not found''))
           | Some d \<Rightarrow>
               (case claim d ''data'' of
                  Some (JObj ms) \<Rightarrow> Inr ms
                | _ \<Rightarrow> Inl (Foreign (what @ '': unexpected data shape'')))))"

definition requireString :: "(string \<times> json) list \<Rightarrow> string \<Rightarrow> string res" where
  "requireString d key =
     (case claim d key of
        None \<Rightarrow> Inl (Foreign (''missing key '' @ jquote key))
      | Some (JStr s) \<Rightarrow>
          if s = '''' then Inl (Foreign (''key '' @ jquote key @ '' must be a non-empty string'')) else Inr s
      | Some _ \<Rightarrow> Inl (Foreign (''key '' @ jquote key @ '' must be a non-empty string'')))"

text \<open>
  \<^verbatim>\<open>strconv.Atoi\<close> (64-bit \<^verbatim>\<open>int\<close>) and \<^verbatim>\<open>time.ParseDuration\<close>: a sign, then numbers with a unit each; a
  fraction counts down to the nanosecond (Go multiplies in floating point, here exact).
\<close>

definition Atoi :: "string \<Rightarrow> int option" where
  "Atoi s =
     (let neg = (s \<noteq> [] \<and> hd s = CHR ''-'');
          t = (if s \<noteq> [] \<and> (hd s = CHR ''-'' \<or> hd s = CHR ''+'') then tl s else s);
          v = (if neg then - int (read_nat t) else int (read_nat t)) in
      if t = [] \<or> \<not> list_all is_dec t then None
      else if v < - (2 ^ 63) \<or> 2 ^ 63 \<le> v then None else Some v)"

definition duration_unit :: "string \<Rightarrow> int option" where
  "duration_unit u =
     map_of [(''ns'', 1), (''us'', 1000), ([CHR 0xC2, CHR 0xB5, CHR ''s''], 1000), ([CHR 0xCE, CHR 0xBC, CHR ''s''], 1000),
       (''ms'', 1000000), (''s'', 1000000000), (''m'', 60000000000), (''h'', 3600000000000)] u"

definition unit_char :: "char \<Rightarrow> bool" where
  "unit_char c = (c \<noteq> CHR ''.'' \<and> \<not> is_dec c)"

primrec duration_parts :: "nat \<Rightarrow> string \<Rightarrow> int \<Rightarrow> int option" where
  "duration_parts 0 s d = None"
| "duration_parts (Suc n) s d =
     (if s = [] then Some d
      else
        (let ints = takeWhile is_dec s; s1 = dropWhile is_dec s;
             dot = (s1 \<noteq> [] \<and> hd s1 = CHR ''.'');
             fracs = (if dot then takeWhile is_dec (tl s1) else []);
             s2 = (if dot then dropWhile is_dec (tl s1) else s1);
             u = takeWhile unit_char s2; v = int (read_nat ints) in
         if (ints = [] \<and> fracs = []) \<or> 2 ^ 63 < v then None
         else case duration_unit u of
           None \<Rightarrow> None
         | Some unt \<Rightarrow>
             (let w = v * unt + int (read_nat fracs) * unt div 10 ^ length fracs in
              if 2 ^ 63 < d + w then None
              else duration_parts n (dropWhile unit_char s2) (d + w))))"

definition ParseDuration :: "string \<Rightarrow> int option" where
  "ParseDuration s =
     (let neg = (s \<noteq> [] \<and> hd s = CHR ''-'');
          t = (if s \<noteq> [] \<and> (hd s = CHR ''-'' \<or> hd s = CHR ''+'') then tl s else s) in
      if t = ''0'' then Some 0
      else if t = [] then None
      else case duration_parts (Suc (length t)) t 0 of
        None \<Rightarrow> None
      | Some d \<Rightarrow> if neg then Some (- d) else if 2 ^ 63 - 1 < d then None else Some d)"

definition parsed :: "string \<Rightarrow> 'a option \<Rightarrow> 'a res" where
  "parsed what r = (case r of None \<Rightarrow> Inl (Wrap what (Foreign ''invalid syntax'')) | Some x \<Rightarrow> Inr x)"

definition wrapped :: "string \<Rightarrow> 'a res \<Rightarrow> 'a res" where
  "wrapped what r = (case r of Inl e \<Rightarrow> Inl (Wrap what e) | Inr x \<Rightarrow> Inr x)"

definition andthen :: "'a res \<Rightarrow> ('a \<Rightarrow> 'b res) \<Rightarrow> 'b res" where
  "andthen r k = (case r of Inl e \<Rightarrow> Inl e | Inr x \<Rightarrow> k x)"

lemma andthen_Inr [simp]: "andthen r k = Inr y \<longleftrightarrow> (\<exists>x. r = Inr x \<and> k x = Inr y)"
  by (simp add: andthen_def split: sum.split)

lemma wrapped_Inr [simp]: "wrapped what r = Inr y \<longleftrightarrow> r = Inr y"
  by (simp add: wrapped_def split: sum.split)

lemma parsed_Inr [simp]: "parsed what r = Inr y \<longleftrightarrow> r = Some y"
  by (simp add: parsed_def split: option.split)

definition ReadAuthSecrets :: "vault_read \<Rightarrow> SecretManager \<Rightarrow> AuthSecrets res" where
  "ReadAuthSecrets vr sm =
     andthen (wrapped ''vault secrets: read jwt config'' (readKV vr sm ''jwt'')) (\<lambda>jwtData.
     andthen (wrapped ''vault secrets: read bcrypt config'' (readKV vr sm ''bcrypt'')) (\<lambda>bcryptData.
     andthen (wrapped ''vault secrets: jwt.signing_key'' (requireString jwtData ''signing_key'')) (\<lambda>signingKey.
     andthen (wrapped ''vault secrets: jwt.access_ttl'' (requireString jwtData ''access_ttl'')) (\<lambda>accessTTLStr.
     andthen (parsed ''vault secrets: jwt.access_ttl parse'' (ParseDuration accessTTLStr)) (\<lambda>accessTTL.
     andthen (wrapped ''vault secrets: jwt.refresh_ttl'' (requireString jwtData ''refresh_ttl'')) (\<lambda>refreshTTLStr.
     andthen (parsed ''vault secrets: jwt.refresh_ttl parse'' (ParseDuration refreshTTLStr)) (\<lambda>refreshTTL.
     andthen (wrapped ''vault secrets: bcrypt.cost'' (requireString bcryptData ''cost'')) (\<lambda>costStr.
     andthen (parsed ''vault secrets: bcrypt.cost parse'' (Atoi costStr)) (\<lambda>cost.
       if cost < 12 then Inl (Foreign (''vault secrets: bcrypt cost '' @ show_int cost @ '' is below the minimum of 12''))
       else Inr \<lparr>axs_JWTSigningKey = signingKey, axs_AccessTokenTTL = accessTTL,
                 axs_RefreshTokenTTL = refreshTTL, axs_BcryptCost = cost\<rparr>)))))))))"

definition ReadDatabaseSecrets :: "vault_read \<Rightarrow> SecretManager \<Rightarrow> DatabaseSecrets res" where
  "ReadDatabaseSecrets vr sm =
     andthen (wrapped ''vault secrets: read database config'' (readKV vr sm ''database'')) (\<lambda>d.
     andthen (wrapped ''vault secrets: database.dgraph_target'' (requireString d ''dgraph_target'')) (\<lambda>target.
       Inr \<lparr>dbs_DgraphTarget = target, dbs_TLSEnabled = (claim d ''tls_enabled'' = Some (JStr ''true''))\<rparr>))"

lemma requireString_nonempty: "requireString d k = Inr s \<Longrightarrow> s \<noteq> ''''"
  by (auto simp: requireString_def split: option.splits json.splits if_splits)

lemma auth_secrets_ok:
  assumes "ReadAuthSecrets vr sm = Inr a"
  shows "12 \<le> axs_BcryptCost a" "axs_JWTSigningKey a \<noteq> ''''"
  using assms by (auto simp: ReadAuthSecrets_def dest: requireString_nonempty split: if_splits)

section \<open>Properties\<close>

text \<open>C38: One failed renewal is enough to lose the Vault token. The retry after a failure goes back to the top
  of the loop, where the goroutine sleeps two thirds of the TTL again before it calls Vault: the second
  attempt comes after the token of the last success has expired, whatever its TTL.\<close>

theorem failed_renewal_outlives_token:
  assumes "tokenTTL sec = Inr ttl" "0 < ttl" "ttl < 2 ^ 62" "0 \<le> took"
  shows "\<exists>second_try. fst (renewToken tokenTTL None [(took, Inl e), (took', r)] now sec) = [now + sleep_for ttl, second_try] \<and>
    now + ttl < second_try"
proof -
  have "fst (renewToken tokenTTL None [(took, Inl e), (took', r)] now sec) =
      [now + sleep_for ttl, now + sleep_for ttl + took + five_seconds + sleep_for ttl]"
    using assms(1,2)
    by (simp add: renewToken.simps [of _ _ "_ # _"] renewToken.simps [of _ _ "[]"] Let_def stopped_by_def
        split: sum.split prod.split option.split)
  moreover have "ttl < sleep_for ttl + took + five_seconds + sleep_for ttl"
    using sleep_for_range(1) [OF assms(2,3)] assms(2,4) by (simp add: five_seconds_def second_def)
  ultimately show ?thesis by auto
qed

theorem failed_renewal_outlives_token_witness:
  "\<exists>t. fst (renewToken (\<lambda>_. Inr (60 * second)) None [(0, Inl (Foreign ''503'')), (0, Inr (Some \<lparr>vx_Auth = None\<rparr>))] 0 \<lparr>vx_Auth = None\<rparr>) =
     [40 * second, t] \<and> 60 * second < t"
proof -
  have s: "(0 :: int) < 60 * second" "60 * second < (2 :: int) ^ 62" "sleep_for (60 * second) = 40 * second" by code_simp+
  show ?thesis
    using failed_renewal_outlives_token [of "\<lambda>_. Inr (60 * second)", OF refl s(1,2) order_refl, of "Foreign ''503''" 0
        "Inr (Some \<lparr>vx_Auth = None\<rparr>)" 0 "\<lparr>vx_Auth = None\<rparr>"] s(3) by simp
qed

text \<open>One turn of the loop, with the stop channel closed at \<open>t\<close>.\<close>

lemma renewal_turn:
  assumes "tokenTTL sec = Inr ttl" "0 < ttl"
  shows "t \<le> now + sleep_for ttl \<Longrightarrow> renewToken tokenTTL (Some t) (c # calls) now sec = ([], Returned (max now t))"
    and "now + sleep_for ttl < t \<Longrightarrow> renewToken tokenTTL (Some t) ((took, Inr renewed) # calls) now sec =
      (case lease renewed of None \<Rightarrow> ([now + sleep_for ttl], Panicked (now + sleep_for ttl + took))
       | Some sec' \<Rightarrow> apfst ((#) (now + sleep_for ttl)) (renewToken tokenTTL (Some t) calls (now + sleep_for ttl + took) sec'))"
    and "now + sleep_for ttl < t \<Longrightarrow> renewToken tokenTTL (Some t) ((took, Inl e) # calls) now sec =
      (if t \<le> now + sleep_for ttl + took + five_seconds
       then ([now + sleep_for ttl], Returned (max (now + sleep_for ttl + took) t))
       else apfst ((#) (now + sleep_for ttl)) (renewToken tokenTTL (Some t) calls (now + sleep_for ttl + took + five_seconds) sec))"
  using assms
  by (simp_all add: renewToken.simps [of _ _ "_ # _"] Let_def stopped_by_def split: prod.split option.split)

lemma five_positive: "five_seconds > 0"
  by (simp add: five_seconds_def second_def)

lemma calls_left:
  assumes "nat ((t - now) div five_seconds + 1) \<le> Suc n" "now + five_seconds \<le> now'"
  shows "nat ((t - now') div five_seconds + 1) \<le> n"
proof -
  have "(t - now') div five_seconds \<le> (t - now - five_seconds) div five_seconds"
    using assms(2) five_positive by (intro zdiv_mono1) auto
  also have "\<dots> = (t - now) div five_seconds - 1"
    using five_positive div_add_self2 [of five_seconds "t - now - five_seconds"] by simp
  finally show ?thesis using assms(1) by simp
qed

lemma no_call_left:
  assumes "nat ((t - now) div five_seconds + 1) = 0"
  shows "renewToken tokenTTL (Some t) [] now sec = ([], Returned now)"
proof -
  have "(t - now) div five_seconds < 0" using assms by simp
  then have "t < now" using pos_imp_zdiv_neg_iff [OF five_positive, of "t - now"] by simp
  then have "stopped_by (Some t) now (now + sleep_for ttl) = Some now" for ttl
    using sleep_for_ge [of ttl] five_positive by (simp add: stopped_by_def max_def)
  then show ?thesis by (simp add: renewToken.simps Let_def split: sum.split)
qed

text \<open>How the goroutine ends by \<open>t\<close>, with at most \<open>n\<close> calls: it returns, or an answer without \<^verbatim>\<open>Auth\<close> makes it panic.\<close>

definition ends_by :: "(int \<times> vault_secret option res) list \<Rightarrow> int \<Rightarrow> nat \<Rightarrow> int list \<times> renew_end \<Rightarrow> bool" where
  "ends_by calls t n res =
     (length (fst res) \<le> n \<and>
      (case snd res of
         Renewing \<Rightarrow> False
       | Returned fin \<Rightarrow> fin \<le> t
       | Panicked fin \<Rightarrow> fin \<le> t \<and> (\<exists>took x. (took, Inr x) \<in> set calls \<and> lease x = None)))"

lemma ends_by_later:
  "ends_by calls t n res \<Longrightarrow> t \<le> t' \<Longrightarrow> Suc n \<le> m \<Longrightarrow> ends_by (c # calls) t' m (apfst ((#) x) res)"
  by (auto simp: ends_by_def apfst_def split: renew_end.splits)

text \<open>C30: The renewal goroutine ends: once the stop channel is closed it returns, however often Vault fails, no later
  than one call to Vault after that (calls taking at most \<open>k\<close>), having called Vault at most once for every
  five seconds until then. The only other end is a panic, and only where Vault answers a renewal with a
  secret that has no \<^verbatim>\<open>Auth\<close>.\<close>

theorem renewal_stops:
  assumes "\<forall>c \<in> set calls. 0 \<le> fst c \<and> fst c \<le> k" "nat ((t - now) div five_seconds + 1) \<le> length calls" "0 \<le> k"
  shows "ends_by calls (max now (t + k)) (nat ((t - now) div five_seconds + 1)) (renewToken tokenTTL (Some t) calls now sec)"
  using assms
proof (induction calls arbitrary: now sec)
  case Nil
  then show ?case using no_call_left [of t now tokenTTL sec] by (simp add: ends_by_def)
next
  case (Cons c calls)
  obtain took r where c: "c = (took, r)" by (cases c)
  let ?n = "\<lambda>now. nat ((t - now) div five_seconds + 1)"
  have tk: "0 \<le> took" "took \<le> k" using Cons.prems(1) by (simp_all add: c)
  consider "\<not> (\<exists>ttl. tokenTTL sec = Inr ttl \<and> 0 < ttl)" | ttl where "tokenTTL sec = Inr ttl" "0 < ttl" by blast
  then show ?case
  proof cases
    case 1
    then show ?thesis by (cases "tokenTTL sec") (auto simp: renewToken.simps ends_by_def)
  next
    case (2 ttl)
    let ?w = "now + sleep_for ttl"
    note turn = renewal_turn [where t = t and tokenTTL = tokenTTL and sec = sec, OF 2]
    have w: "now + five_seconds \<le> ?w" using sleep_for_ge [of ttl] by simp
    show ?thesis
    proof (cases "t \<le> ?w")
      case True
      then show ?thesis using turn(1) Cons.prems(3) by (auto simp: ends_by_def)
    next
      case False
      have "0 \<le> (t - now) div five_seconds" using False w five_positive by (intro pos_imp_zdiv_nonneg_iff [THEN iffD2]) auto
      then obtain n where n: "?n now = Suc n" by (cases "?n now") auto
      have IH: "ends_by (c # calls) (max now (t + k)) (?n now)
          (apfst ((#) ?w) (renewToken tokenTTL (Some t) calls now' s))" if "now + five_seconds \<le> now'" "now' \<le> t + k" for now' s
      proof (rule ends_by_later [OF Cons.IH])
        show "?n now' \<le> length calls" using Cons.prems(2) that(1) by (auto intro: calls_left)
        show "Suc (?n now') \<le> ?n now" using calls_left [of t now n now'] n that(1) by simp
      qed (use Cons.prems that five_positive in auto)
      show ?thesis
      proof (cases r)
        case (Inl e)
        then show ?thesis
          using turn(3) [of now took e calls] IH [of "?w + took + five_seconds" sec] False w tk five_positive n
          by (auto simp: c ends_by_def)
      next
        case (Inr x)
        then show ?thesis
          using turn(2) [of now took x calls] IH [of "?w + took"] False w tk five_positive n
          by (auto simp: c ends_by_def split: option.split)
      qed
    qed
  qed
qed

theorem renewal_stops_witness:
  "ends_by [(0, Inl (Foreign ''503'')), (1, Inl (Foreign ''503''))] (8 * second + 1) 2
     (renewToken (\<lambda>_. Inr (60 * second)) (Some (8 * second))
       [(0, Inl (Foreign ''503'')), (1, Inl (Foreign ''503''))] 0 \<lparr>vx_Auth = None\<rparr>)"
proof -
  let ?calls = "[(0, Inl (Foreign ''503'')), (1 :: int, Inl (Foreign ''503'') :: vault_secret option res)]"
  have c: "\<forall>c \<in> set ?calls. 0 \<le> fst c \<and> fst c \<le> 1" by simp
  have n: "nat (8 * second div five_seconds + 1) = 2" "max 0 (8 * second + 1) = 8 * second + 1" by code_simp+
  have l: "nat ((8 * second - 0) div five_seconds + 1) \<le> length ?calls" by (simp add: n)
  from renewal_stops [OF c l, of "\<lambda>_. Inr (60 * second)" "\<lparr>vx_Auth = None\<rparr>"] n show ?thesis by simp
qed

text \<open>The panic: a renewal that succeeds without \<^verbatim>\<open>Auth\<close> (which \<^verbatim>\<open>New\<close> checks for at login) brings the process down.\<close>

theorem renewal_without_auth_panics:
  assumes "tokenTTL sec = Inr ttl" "0 < ttl" "lease renewed = None"
  shows "renewToken tokenTTL None ((took, Inr renewed) # calls) now sec =
    ([now + sleep_for ttl], Panicked (now + sleep_for ttl + took))"
  using assms by (simp add: renewToken.simps Let_def stopped_by_def)

theorem renewal_without_auth_panics_witness:
  "snd (renewToken (\<lambda>_. Inr (60 * second)) None [(0, Inr (Some \<lparr>vx_Auth = None\<rparr>))] 0 \<lparr>vx_Auth = None\<rparr>) = Panicked (40 * second)"
proof -
  have "sleep_for (60 * second) = 40 * second" "(0 :: int) < 60 * second" by code_simp+
  then show ?thesis using renewal_without_auth_panics [of "\<lambda>_. Inr (60 * second)"] by (simp add: lease_def)
qed

end
