(* ===== verification/Config.thy ===== *)
theory Config
  imports Vault_Client Service_Auth Session_Service Jwt
begin

text \<open>
  \<^verbatim>\<open>internal/config/config.go\<close>: the configuration from the environment and from Vault, and what the
  composition root may rely on. The environment is a function from names to values (an unset variable
  reads as the empty string, as \<^verbatim>\<open>os.Getenv\<close> has it). The rate is a float that only the rate limiter
  library looks at: \<^verbatim>\<open>strconv.ParseFloat\<close> is the argument \<open>pf\<close>.
\<close>

section \<open>Configuration\<close>

record 'f ServerConfig =
  sc_HTTPAddr :: string
  sc_GRPCAddr :: string
  sc_ShutdownTimeout :: int
  sc_LogLevel :: string
  sc_Env :: string
  sc_RateLimitRPS :: 'f
  sc_RateLimitBurst :: int

record AuthConfig =
  ac_Issuer :: string
  ac_BcryptCost :: int
  ac_AccessTokenTTL :: int
  ac_RefreshTokenTTL :: int
  ac_SigningKey :: string
  ac_UseTransit :: bool
  ac_TransitKeyName :: string
  ac_TransitMount :: string

record DatabaseConfig =
  dc_DgraphTarget :: string
  dc_TLSEnabled :: bool
  dc_DgraphApplySchema :: bool

record VaultConfig =
  vc_Address :: string
  vc_RoleID :: string
  vc_SecretID :: string
  vc_Namespace :: string
  vc_KVMount :: string
  vc_KVPrefix :: string

record 'f Config =
  cfg_Server :: "'f ServerConfig"
  cfg_Auth :: AuthConfig
  cfg_Database :: DatabaseConfig

type_synonym environ = "string \<Rightarrow> string"

definition envStr :: "environ \<Rightarrow> string \<Rightarrow> string \<Rightarrow> string" where
  "envStr env key fallback = (if env key \<noteq> '''' then env key else fallback)"

definition ParseBool :: "string \<Rightarrow> bool option" where
  "ParseBool s =
     (if List.member [''1'', ''t'', ''T'', ''true'', ''TRUE'', ''True''] s then Some True
      else if List.member [''0'', ''f'', ''F'', ''false'', ''FALSE'', ''False''] s then Some False
      else None)"

definition envBool :: "environ \<Rightarrow> string \<Rightarrow> bool \<Rightarrow> bool" where
  "envBool env key fallback =
     (let v = env key in
      if v = '''' then fallback
      else case ParseBool v of None \<Rightarrow> fallback | Some b \<Rightarrow> b)"

definition VaultConfigFromEnv :: "environ \<Rightarrow> VaultConfig" where
  "VaultConfigFromEnv env =
     \<lparr>vc_Address = envStr env ''VAULT_ADDR'' ''http://127.0.0.1:8200'', vc_RoleID = env ''VAULT_ROLE_ID'',
      vc_SecretID = env ''VAULT_SECRET_ID'', vc_Namespace = env ''VAULT_NAMESPACE'',
      vc_KVMount = envStr env ''VAULT_KV_MOUNT'' ''secret'',
      vc_KVPrefix = envStr env ''VAULT_KV_PREFIX'' ''auth-service''\<rparr>"

definition Load :: "(string \<Rightarrow> 'f option) \<Rightarrow> environ \<Rightarrow> vault_read \<Rightarrow> SecretManager \<Rightarrow> 'f Config res" where
  "Load pf env vr sm =
     andthen (wrapped ''config: load auth secrets'' (ReadAuthSecrets vr sm)) (\<lambda>authSecrets.
     andthen (wrapped ''config: load database secrets'' (ReadDatabaseSecrets vr sm)) (\<lambda>dbSecrets.
     andthen (parsed ''config: AUTH_RATE_LIMIT_RPS'' (pf (envStr env ''AUTH_RATE_LIMIT_RPS'' ''10''))) (\<lambda>rps.
     andthen (parsed ''config: AUTH_RATE_LIMIT_BURST'' (Atoi (envStr env ''AUTH_RATE_LIMIT_BURST'' ''30''))) (\<lambda>burst.
     andthen (parsed ''config: AUTH_SHUTDOWN_TIMEOUT'' (ParseDuration (envStr env ''AUTH_SHUTDOWN_TIMEOUT'' ''30s'')))
       (\<lambda>shutdownTimeout.
       Inr \<lparr>cfg_Server =
              \<lparr>sc_HTTPAddr = envStr env ''AUTH_HTTP_ADDR'' '':8980'', sc_GRPCAddr = envStr env ''AUTH_GRPC_ADDR'' '':9990'',
               sc_ShutdownTimeout = shutdownTimeout, sc_LogLevel = envStr env ''AUTH_LOG_LEVEL'' ''info'',
               sc_Env = envStr env ''AUTH_ENV'' ''production'', sc_RateLimitRPS = rps, sc_RateLimitBurst = burst\<rparr>,
            cfg_Auth =
              \<lparr>ac_Issuer = envStr env ''AUTH_ISSUER'' ''auth-service'', ac_BcryptCost = axs_BcryptCost authSecrets,
               ac_AccessTokenTTL = axs_AccessTokenTTL authSecrets, ac_RefreshTokenTTL = axs_RefreshTokenTTL authSecrets,
               ac_SigningKey = axs_JWTSigningKey authSecrets, ac_UseTransit = envBool env ''AUTH_USE_TRANSIT'' True,
               ac_TransitKeyName = envStr env ''AUTH_TRANSIT_KEY'' ''auth-service-jwt'',
               ac_TransitMount = envStr env ''AUTH_TRANSIT_MOUNT'' ''transit''\<rparr>,
            cfg_Database =
              \<lparr>dc_DgraphTarget = dbs_DgraphTarget dbSecrets, dc_TLSEnabled = dbs_TLSEnabled dbSecrets,
               dc_DgraphApplySchema = envBool env ''DGRAPH_APPLY_SCHEMA'' True\<rparr>\<rparr>)))))"

lemma envStr_nonempty: "d \<noteq> '''' \<Longrightarrow> envStr env k d \<noteq> ''''"
  by (simp add: envStr_def)

lemma Load_ok:
  assumes "Load pf env vr sm = Inr cfg"
  shows "12 \<le> ac_BcryptCost (cfg_Auth cfg)" "ac_SigningKey (cfg_Auth cfg) \<noteq> ''''" "ac_Issuer (cfg_Auth cfg) \<noteq> ''''"
proof -
  obtain a where a: "ReadAuthSecrets vr sm = Inr a" "ac_BcryptCost (cfg_Auth cfg) = axs_BcryptCost a"
      "ac_SigningKey (cfg_Auth cfg) = axs_JWTSigningKey a"
    using assms by (auto simp: Load_def)
  with auth_secrets_ok [OF a(1)] show "12 \<le> ac_BcryptCost (cfg_Auth cfg)" "ac_SigningKey (cfg_Auth cfg) \<noteq> ''''"
    by simp_all
  show "ac_Issuer (cfg_Auth cfg) \<noteq> ''''"
    using assms envStr_nonempty [of "''auth-service''" env "''AUTH_ISSUER''"] by (auto simp: Load_def)
qed

end
