(* ===== verification/Grpc.thy ===== *)
theory Grpc
  imports Http
begin

text \<open>
  \<^verbatim>\<open>internal/handler/grpc/server.go\<close> and the messages and method table of \<^verbatim>\<open>handler/grpc/pb\<close>. A call
  gets its metadata and its message and returns a message or a status (code and text); a panic is a
  value of its own, because the interceptors of \<^verbatim>\<open>cmd/server/main.go\<close> turn it into an error. \<^verbatim>\<open>int32\<close> fields
  are 32-bit words. The wire codec is an argument. State and ambient inputs are those of \<^verbatim>\<open>Http\<close>. The
  getters of the messages are the record selectors.
\<close>

section \<open>Messages\<close>

record RegisterRequest =
  rr_FirstName :: string
  rr_LastName :: string
  rr_Nickname :: string
  rr_Password :: string
  rr_Email :: string
  rr_Country :: string

record LoginRequest =
  lq_Email :: string
  lq_Password :: string

record LoginResponse =
  lp_AccessToken :: string
  lp_RefreshToken :: string
  lp_ExpiresIn :: int

record GetUserRequest =
  gq_Id :: string
  gq_Zookie :: string

record UpdateUserRequest =
  uq_Id :: string
  uq_FirstName :: string
  uq_LastName :: string
  uq_Nickname :: string
  uq_Country :: string

record DeleteUserRequest =
  dq_Id :: string

record DeleteUserResponse =
  dp_Message :: string
  dp_Zookie :: string

record ListUsersRequest =
  luq_Country :: string
  luq_Page :: "32 word"
  luq_PageSize :: "32 word"
  luq_Zookie :: string

text \<open>The times of a \<open>User\<close> message are formatted: the seconds they denote.\<close>

record pb_User =
  pu_Id :: string
  pu_FirstName :: string
  pu_LastName :: string
  pu_Nickname :: string
  pu_Email :: string
  pu_Country :: string
  pu_Active :: bool
  pu_CreatedAt :: int
  pu_UpdatedAt :: int

record WriteUserResponse = \<comment> \<open>also \<open>RegisterResponse\<close>, which has the same fields\<close>
  wu_User :: pb_User
  wu_Zookie :: string

record ListUsersResponse =
  lup_Users :: "pb_User list"
  lup_Total :: "32 word"
  lup_Page :: "32 word"
  lup_Pages :: "32 word"

record HealthCheckResponse =
  hc_Status :: string
  hc_Time :: int

section \<open>Status\<close>

datatype code =
    InvalidArgument | NotFound | AlreadyExists | PermissionDenied | Unauthenticated | ResourceExhausted
  | Internal | Unimplemented | Unknown

type_synonym status = "code \<times> string"

definition domainToGRPCError :: "goerr \<Rightarrow> status" where
  "domainToGRPCError err =
     (if errors_is err ErrUserNotFound then (NotFound, ''user not found'')
      else if errors_is err ErrUserAlreadyExists then (AlreadyExists, ''user already exists'')
      else if errors_is err ErrInvalidCredentials then (Unauthenticated, ''invalid credentials'')
      else if errors_is err ErrInvalidInput then (InvalidArgument, ''invalid input'')
      else if errors_is err ErrUnauthorized then (PermissionDenied, ''forbidden'')
      else if errors_is err ErrTokenExpired then (Unauthenticated, ''token expired'')
      else if errors_is err ErrTokenInvalid then (Unauthenticated, ''invalid token'')
      else if errors_is err ErrRateLimited then (ResourceExhausted, ''rate limit exceeded'')
      else (Internal, ''internal server error''))"

definition domainUserToProto :: "User \<Rightarrow> pb_User" where
  "domainUserToProto u =
     \<lparr>pu_Id = usr_ID u, pu_FirstName = usr_FirstName u, pu_LastName = usr_LastName u, pu_Nickname = usr_Nickname u,
      pu_Email = usr_Email u, pu_Country = usr_Country u, pu_Active = usr_Active u,
      pu_CreatedAt = fmt_rfc3339 (usr_CreatedAt u), pu_UpdatedAt = fmt_rfc3339 (usr_UpdatedAt u)\<rparr>"

definition zookieFromProto :: "string \<Rightarrow> Zookie option" where
  "zookieFromProto token = (if token = '''' then None else Some \<lparr>zk_Token = token\<rparr>)"

text \<open>Incoming metadata: absent, or the values of each (lower case) key.\<close>

type_synonym metadata = "(string \<Rightarrow> string list) option"

definition zookieMetaKey :: string where
  "zookieMetaKey = ''x-zookie''"

definition zookieMetaFromCtx :: "metadata \<Rightarrow> Zookie option" where
  "zookieMetaFromCtx ctx =
     (case ctx of
        None \<Rightarrow> None
      | Some md \<Rightarrow>
          (case md zookieMetaKey of
             [] \<Rightarrow> None
           | v # _ \<Rightarrow> if v = '''' then None else Some \<lparr>zk_Token = v\<rparr>))"

section \<open>The server\<close>

record 'db Server =
  gs_svc :: "'db AuthService"
  gs_cfg :: SessionConfig
  gs_sessions :: "'db session_repo"
  gs_bc :: bcrypt
  gs_sha256 :: "string \<Rightarrow> string"

definition Server_New ::
  "'db AuthService \<Rightarrow> SessionConfig \<Rightarrow> 'db session_repo \<Rightarrow> bcrypt \<Rightarrow> (string \<Rightarrow> string) \<Rightarrow> 'db Server" where
  "Server_New svc cfg sessions bc sha256 =
     \<lparr>gs_svc = svc, gs_cfg = cfg, gs_sessions = sessions, gs_bc = bc, gs_sha256 = sha256\<rparr>"

type_synonym ('q, 'p, 'db) rpc = "metadata \<Rightarrow> 'q \<Rightarrow> 'db hstate \<Rightarrow> (status + 'p) \<times> 'db hstate"

definition principalFromCtx :: "'db Server \<Rightarrow> ambient \<Rightarrow> metadata \<Rightarrow> 'db hstate \<Rightarrow> (status + Principal) \<times> 'db hstate" where
  "principalFromCtx g a ctx s =
     (case ctx of
        None \<Rightarrow> (Inl (Unauthenticated, ''missing metadata''), s)
      | Some md \<Rightarrow>
          (case md ''authorization'' of
             [] \<Rightarrow> (Inl (Unauthenticated, ''missing authorization header''), s)
           | v # _ \<Rightarrow>
               (if \<not> has_prefix v ''Bearer '' then (Inl (Unauthenticated, ''malformed authorization header''), s)
                else case VerifyToken (gs_sha256 g) (gs_sessions g) (am_clk a 0) (trim_prefix v ''Bearer '') (hs_db s) of
                  (Inl err, ts) \<Rightarrow>
                    (Inl (Unauthenticated, if errors_is err ErrTokenExpired then ''token expired'' else ''invalid token''),
                     s\<lparr>hs_touch := hs_touch s @ ts\<rparr>)
                | (Inr prin, ts) \<Rightarrow> (Inr prin, s\<lparr>hs_touch := hs_touch s @ ts\<rparr>))))"

definition Server_Register :: "'db Server \<Rightarrow> ambient \<Rightarrow> (RegisterRequest, WriteUserResponse, 'db) rpc" where
  "Server_Register g a ctx req s =
     (case Auth_Register (gs_svc g) (gs_bc g) (am_salt a) (am_clk a 1) (am_uuid a)
             \<lparr>cui_FirstName = rr_FirstName req, cui_LastName = rr_LastName req, cui_Nickname = rr_Nickname req,
              cui_Password = rr_Password req, cui_Email = rr_Email req, cui_Country = rr_Country req\<rparr> (hs_db s) of
        (Inl err, db) \<Rightarrow> (Inl (domainToGRPCError err), s\<lparr>hs_db := db\<rparr>)
      | (Inr (user, zookie), db) \<Rightarrow>
          (Inr \<lparr>wu_User = domainUserToProto user, wu_Zookie = zk_Token zookie\<rparr>, s\<lparr>hs_db := db\<rparr>))"

definition Server_Login :: "'db Server \<Rightarrow> ambient \<Rightarrow> (LoginRequest, LoginResponse, 'db) rpc" where
  "Server_Login g a ctx req s =
     (case fst (Auth_Login (gs_svc g) (gs_bc g) \<lparr>li_Email = lq_Email req, li_Password = lq_Password req\<rparr> (hs_db s)) of
        Inl err \<Rightarrow> (Inl (domainToGRPCError err), s)
      | Inr user \<Rightarrow>
          (case Session_Create (gs_sha256 g) (gs_cfg g) (gs_sessions g) (after 1 a) (am_ent a)
                  \<lparr>csn_Kind = PrincipalKindUser, csn_UserID = usr_ID user, csn_ClientID = '''', csn_ActorID = '''',
                   csn_ActorType = '''', csn_Permissions = [], csn_DelegatedPermissions = [], csn_PolicyGroups = [],
                   csn_PermissionVersion = 0, csn_UserAgent = '''', csn_IPAddress = ''''\<rparr> (hs_db s) of
             (Inl err, db) \<Rightarrow> (Inl (Internal, ''could not create session''), s\<lparr>hs_db := db\<rparr>)
           | (Inr out, db) \<Rightarrow>
               (Inr \<lparr>lp_AccessToken = cso_AccessToken out, lp_RefreshToken = cso_RefreshToken out,
                     lp_ExpiresIn = duration_seconds (accessTTL (gs_cfg g))\<rparr>, s\<lparr>hs_db := db\<rparr>)))"

definition Server_GetUser :: "'db Server \<Rightarrow> ambient \<Rightarrow> (GetUserRequest, pb_User, 'db) rpc" where
  "Server_GetUser g a ctx req s =
     (case principalFromCtx g a ctx s of
        (Inl e, s') \<Rightarrow> (Inl e, s')
      | (Inr _, s') \<Rightarrow>
          (case Auth_GetUser (gs_svc g) (gq_Id req) (zookieFromProto (gq_Zookie req)) (hs_db s') of
             Inl err \<Rightarrow> (Inl (domainToGRPCError err), s')
           | Inr user \<Rightarrow> (Inr (domainUserToProto user), s')))"

definition set_field :: "string \<Rightarrow> string option" where \<comment> \<open>\<open>if v != "" { input.F = &v }\<close>\<close>
  "set_field v = (if v \<noteq> '''' then Some v else None)"

definition Server_UpdateUser :: "'db Server \<Rightarrow> ambient \<Rightarrow> (UpdateUserRequest, WriteUserResponse, 'db) rpc" where
  "Server_UpdateUser g a ctx req s =
     (case principalFromCtx g a ctx s of
        (Inl e, s') \<Rightarrow> (Inl e, s')
      | (Inr prin, s') \<Rightarrow>
          (case Auth_UpdateUser (gs_svc g) (am_clk a 1) (prin_UserID prin) (uq_Id req)
                  \<lparr>uui_FirstName = set_field (uq_FirstName req), uui_LastName = set_field (uq_LastName req),
                   uui_Nickname = set_field (uq_Nickname req), uui_Country = set_field (uq_Country req)\<rparr>
                  (hs_db s') (hs_db s') of
             (Inl err, db) \<Rightarrow> (Inl (domainToGRPCError err), s'\<lparr>hs_db := db\<rparr>)
           | (Inr (user, zookie), db) \<Rightarrow>
               (Inr \<lparr>wu_User = domainUserToProto user, wu_Zookie = zk_Token zookie\<rparr>, s'\<lparr>hs_db := db\<rparr>)))"

definition Server_DeleteUser :: "'db Server \<Rightarrow> ambient \<Rightarrow> (DeleteUserRequest, DeleteUserResponse, 'db) rpc" where
  "Server_DeleteUser g a ctx req s =
     (case principalFromCtx g a ctx s of
        (Inl e, s') \<Rightarrow> (Inl e, s')
      | (Inr prin, s') \<Rightarrow>
          (case Auth_DeleteUser (gs_svc g) (prin_UserID prin) (dq_Id req) (hs_db s') (hs_db s') of
             (Inl err, db) \<Rightarrow> (Inl (domainToGRPCError err), s'\<lparr>hs_db := db\<rparr>)
           | (Inr zookie, db) \<Rightarrow>
               (Inr \<lparr>dp_Message = ''user deleted'', dp_Zookie = zk_Token zookie\<rparr>, s'\<lparr>hs_db := db\<rparr>)))"

definition Server_ListUsers :: "'db Server \<Rightarrow> ambient \<Rightarrow> (ListUsersRequest, ListUsersResponse, 'db) rpc" where
  "Server_ListUsers g a ctx req s =
     (case principalFromCtx g a ctx s of
        (Inl e, s') \<Rightarrow> (Inl e, s')
      | (Inr _, s') \<Rightarrow>
          (case Auth_ListUsers (gs_svc g)
                  \<lparr>lf_Country = luq_Country req, lf_Page = sint (luq_Page req), lf_PageSize = sint (luq_PageSize req)\<rparr>
                  (zookieFromProto (luq_Zookie req)) (hs_db s') of
             Inl err \<Rightarrow> (Inl (domainToGRPCError err), s')
           | Inr l \<Rightarrow>
               (Inr \<lparr>lup_Users = map domainUserToProto (lr_Users l), lup_Total = word_of_int (lr_Total l),
                     lup_Page = word_of_int (lr_Page l), lup_Pages = word_of_int (lr_Pages l)\<rparr>, s')))"

definition Server_HealthCheck :: "ambient \<Rightarrow> (unit, HealthCheckResponse, 'db) rpc" where
  "Server_HealthCheck a ctx req s = (Inr \<lparr>hc_Status = ''ok'', hc_Time = fmt_rfc3339 (am_clk a 1)\<rparr>, s)"

section \<open>Dispatch\<close>

text \<open>
  A generated handler decodes the message, then calls the method, through the interceptor if there is one.
  An interceptor gets the full method name and the call; a call may panic.
\<close>

datatype 'p outcome = Returns "status + 'p" | Panics string

type_synonym ('p, 's) call = "'s \<Rightarrow> 'p outcome \<times> 's"

type_synonym ('p, 's) interceptor = "string \<Rightarrow> ('p, 's) call \<Rightarrow> ('p, 's) call"

definition unary_handler ::
  "string \<Rightarrow> ('q \<Rightarrow> ('p, 's) call) \<Rightarrow> ('m \<Rightarrow> status + 'q) \<Rightarrow> ('p, 's) interceptor option \<Rightarrow> 'm \<Rightarrow> ('p, 's) call" where
  "unary_handler fullMethod method dec ic m s =
     (case dec m of
        Inl err \<Rightarrow> (Returns (Inl err), s)
      | Inr req \<Rightarrow>
          (case ic of
             None \<Rightarrow> method req s
           | Some f \<Rightarrow> f fullMethod (method req) s))"

definition returning :: "('a \<Rightarrow> 'p) \<Rightarrow> ('q, 'a, 'db) rpc \<Rightarrow> metadata \<Rightarrow> 'q \<Rightarrow> ('p, 'db hstate) call" where
  "returning wrap f ctx req s = (case f ctx req s of (r, s') \<Rightarrow> (Returns (map_sum (\<lambda>e. e) wrap r), s'))"

datatype response =
    UserWritten WriteUserResponse | LoggedIn LoginResponse | OneUser pb_User | UserDeleted DeleteUserResponse
  | UserList ListUsersResponse | Healthy HealthCheckResponse

record 'm codec =
  dec_Register :: "'m \<Rightarrow> status + RegisterRequest"
  dec_Login :: "'m \<Rightarrow> status + LoginRequest"
  dec_GetUser :: "'m \<Rightarrow> status + GetUserRequest"
  dec_UpdateUser :: "'m \<Rightarrow> status + UpdateUserRequest"
  dec_DeleteUser :: "'m \<Rightarrow> status + DeleteUserRequest"
  dec_ListUsers :: "'m \<Rightarrow> status + ListUsersRequest"
  dec_HealthCheck :: "'m \<Rightarrow> status + unit"

definition AuthService_ServiceDesc ::
  "'m codec \<Rightarrow> (response, 'db hstate) interceptor option \<Rightarrow> 'db Server \<Rightarrow> ambient \<Rightarrow> metadata \<Rightarrow>
     (string \<times> ('m \<Rightarrow> (response, 'db hstate) call)) list" where
  "AuthService_ServiceDesc cd ic g a ctx =
     [(''Register'', unary_handler ''/auth.AuthService/Register'' (returning UserWritten (Server_Register g a) ctx) (dec_Register cd) ic),
      (''Login'', unary_handler ''/auth.AuthService/Login'' (returning LoggedIn (Server_Login g a) ctx) (dec_Login cd) ic),
      (''GetUser'', unary_handler ''/auth.AuthService/GetUser'' (returning OneUser (Server_GetUser g a) ctx) (dec_GetUser cd) ic),
      (''UpdateUser'', unary_handler ''/auth.AuthService/UpdateUser'' (returning UserWritten (Server_UpdateUser g a) ctx) (dec_UpdateUser cd) ic),
      (''DeleteUser'', unary_handler ''/auth.AuthService/DeleteUser'' (returning UserDeleted (Server_DeleteUser g a) ctx) (dec_DeleteUser cd) ic),
      (''ListUsers'', unary_handler ''/auth.AuthService/ListUsers'' (returning UserList (Server_ListUsers g a) ctx) (dec_ListUsers cd) ic),
      (''HealthCheck'', unary_handler ''/auth.AuthService/HealthCheck'' (returning Healthy (Server_HealthCheck a) ctx) (dec_HealthCheck cd) ic)]"

definition UnimplementedAuthServiceServer :: "string \<Rightarrow> ('q, 'p, 'db) rpc" where
  "UnimplementedAuthServiceServer m ctx req s = (Inl (Unimplemented, ''method '' @ m @ '' not implemented''), s)"

end
