(* ===== verification/Startup.thy ===== *)
theory Startup
  imports Config Grpc Dgraph_Schema
begin

text \<open>
  \<^verbatim>\<open>cmd/server/main.go\<close>: the composition root. \<open>run\<close> is the boot sequence as a trace of what it does to the
  outside, and how it ends: an error, a clean stop, or a panic in a constructor (after which only the deferred
  calls run). What the outside answers at each point is the record \<open>world\<close>. Under it: the order of
  \<open>shutdownAll\<close>, the HTTP handler chain, the gRPC interceptors and the log level. The timeouts of the
  contexts and of \<^verbatim>\<open>http.Server\<close>, log output and reflection are left out.
\<close>

section \<open>Interceptors\<close>

record call_log =
  cl_method :: string
  cl_error :: bool

definition is_error :: "'p outcome \<Rightarrow> bool" where
  "is_error r = (case r of Returns (Inl e) \<Rightarrow> True | _ \<Rightarrow> False)"

text \<open>The loggers of both interceptors append to a list in front of the state. A panic passes through unlogged.\<close>

definition grpcLoggingInterceptor :: "('p, call_log list \<times> 's) interceptor" where
  "grpcLoggingInterceptor fullMethod handler st =
     (case handler st of (r, (lg, s)) \<Rightarrow>
        (case r of
           Panics p \<Rightarrow> (r, (lg, s))
         | Returns _ \<Rightarrow> (r, (lg @ [\<lparr>cl_method = fullMethod, cl_error = is_error r\<rparr>], s))))"

text \<open>\<^verbatim>\<open>grpc.ErrServerStopped\<close> is a plain error, not a status: the library sends such errors with code Unknown.\<close>

definition ErrServerStopped :: status where
  "ErrServerStopped = (Unknown, ''grpc: the server has been stopped'')"

definition grpcRecoveryInterceptor :: "('p, 's) interceptor" where
  "grpcRecoveryInterceptor fullMethod handler st =
     (case handler st of
        (Panics p, st') \<Rightarrow> (Returns (Inl ErrServerStopped), st')
      | (Returns r, st') \<Rightarrow> (Returns r, st'))"

definition ChainUnaryInterceptor :: "('p, 's) interceptor \<Rightarrow> ('p, 's) interceptor \<Rightarrow> ('p, 's) interceptor" where
  "ChainUnaryInterceptor outer inner fullMethod handler = outer fullMethod (inner fullMethod handler)"

definition server_interceptor :: "('p, call_log list \<times> 's) interceptor" where
  "server_interceptor = ChainUnaryInterceptor grpcLoggingInterceptor grpcRecoveryInterceptor"

section \<open>The HTTP handler chain\<close>

definition on_inner :: "'s handler \<Rightarrow> ('l, 's) site handler" where
  "on_inner f r w st = (case f r w (si_inner st) of (w', s') \<Rightarrow> (w', st\<lparr>si_inner := s'\<rparr>))"

definition site_handler ::
  "('f, 'l) limiter_lib \<Rightarrow> 'f ServerConfig \<Rightarrow> int \<Rightarrow> 's handler \<Rightarrow> ('l, 's) site handler" where
  "site_handler lib sc now mux =
     Chain [SecurityHeaders, RateLimiter lib (sc_RateLimitRPS sc) (sc_RateLimitBurst sc) now, RequestLogger] (on_inner mux)"

section \<open>Boot sequence\<close>

datatype level = LevelDebug | LevelInfo | LevelWarn | LevelError

definition newLogger :: "string \<Rightarrow> level" where
  "newLogger lvl =
     (if lvl = ''debug'' then LevelDebug else if lvl = ''warn'' then LevelWarn
      else if lvl = ''error'' then LevelError else LevelInfo)"

datatype event =
    VaultLogin | VaultShutdown | ConfigLoaded | DgraphDial string | DgraphClose | SchemaApplied schema
  | GRPCListen string | ServeHTTP string | ServeGRPC
  | GRPCGracefulStop | HTTPShutdown | GRPCStopped | GRPCForcedStop

datatype exit = Stopped | Failed goerr | Crashed

record ('f, 'tls, 'db) world =
  wd_env :: environ
  wd_vault :: "'tls vault_api"
  wd_read :: vault_read
  wd_write :: vault_write
  wd_jwt :: jwtlib
  wd_float :: "string \<Rightarrow> 'f option"
  wd_dial :: "string \<Rightarrow> goerr option"
  wd_alter :: "schema \<Rightarrow> goerr option"
  wd_dgraph :: "'db dgraph"
  wd_bind :: vbind
  wd_bcrypt :: bcrypt
  wd_sha256 :: "string \<Rightarrow> string"
  wd_listen :: "string \<Rightarrow> goerr option"
  wd_failure :: "goerr option" \<comment> \<open>a server fails, or else a signal arrives\<close>
  wd_drained :: bool \<comment> \<open>gRPC stops before the shutdown timeout\<close>

definition shutdownAll :: "bool \<Rightarrow> event list" where
  "shutdownAll drained =
     [GRPCGracefulStop, HTTPShutdown, if drained then GRPCStopped else GRPCForcedStop, VaultShutdown]"

definition make_signer :: "('f, 'tls, 'db) world \<Rightarrow> AuthConfig \<Rightarrow> signer_ops res" where
  "make_signer w ac =
     (if ac_UseTransit ac
      then Inr (transit_ops (wd_write w) (wd_jwt w)
             \<lparr>ts_mount = ac_TransitMount ac, ts_keyName = ac_TransitKeyName ac, ts_issuer = ac_Issuer ac\<rparr>)
      else case NewHMACSigner (ac_SigningKey ac) (ac_Issuer ac) of
        Inl e \<Rightarrow> Inl (Wrap ''create hmac signer'' e)
      | Inr h \<Rightarrow> Inr (hmac_ops (wd_jwt w) h))"

definition session_config :: "AuthConfig \<Rightarrow> SessionConfig" where
  "session_config ac = \<lparr>sc_AccessTTL = ac_AccessTokenTTL ac, sc_RefreshTTL = ac_RefreshTokenTTL ac\<rparr>"

text \<open>The services on one Dgraph client; \<open>None\<close> is a panic of a constructor.\<close>

definition service_graph ::
  "('f, 'tls, 'db) world \<Rightarrow> AuthConfig \<Rightarrow> signer_ops \<Rightarrow> ('db Handler \<times> 'db Server) option" where
  "service_graph w ac sg =
     (let repo = dgraph_user_repo (wd_dgraph w);
          sessions = dgraph_session_repo (wd_dgraph w) in
      case Manager_New (Some sg) (ac_Issuer ac) (ac_AccessTokenTTL ac) of
        None \<Rightarrow> None
      | Some tokenMgr \<Rightarrow>
          (case Auth_New repo (ac_BcryptCost ac) of
             None \<Rightarrow> None
           | Some svc \<Rightarrow>
               (case NewServiceAuth (dgraph_service_account_repo (wd_bind w) (wd_dgraph w)) (ac_BcryptCost ac) of
                  None \<Rightarrow> None
                | Some svcAuth \<Rightarrow>
                    Some (Handler_New svc svcAuth (session_config ac) sessions (ur_Ping repo) (wd_bcrypt w) (wd_sha256 w),
                          Server_New svc (session_config ac) sessions (wd_bcrypt w) (wd_sha256 w)))))"

definition also_before :: "event list \<Rightarrow> event list \<times> 'e \<Rightarrow> event list \<times> 'e" where
  "also_before evs r = (evs @ fst r, snd r)"

definition deferred :: "event \<Rightarrow> event list \<times> 'e \<Rightarrow> event list \<times> 'e" where
  "deferred ev r = (fst r @ [ev], snd r)"

text \<open>From the gRPC listener on.\<close>

definition run_servers :: "('f, 'tls, 'db) world \<Rightarrow> 'f ServerConfig \<Rightarrow> event list \<times> exit" where
  "run_servers w sc =
     (case wd_listen w (sc_GRPCAddr sc) of
        Some e \<Rightarrow> ([VaultShutdown], Failed (Wrap ''listen grpc'' e))
      | None \<Rightarrow>
          also_before [GRPCListen (sc_GRPCAddr sc), ServeHTTP (sc_HTTPAddr sc), ServeGRPC]
            (case wd_failure w of
               Some err \<Rightarrow> (shutdownAll (wd_drained w), Failed err)
             | None \<Rightarrow> (shutdownAll (wd_drained w), Stopped)))"

text \<open>The three schemas, in order; stops at the first that cannot be applied.\<close>

fun apply_schemas ::
  "(schema \<Rightarrow> goerr option) \<Rightarrow> (schema \<times> string \<times> ((schema \<Rightarrow> goerr option) \<Rightarrow> goerr option)) list \<Rightarrow>
     event list \<times> goerr option" where
  "apply_schemas alter [] = ([], None)"
| "apply_schemas alter ((sc, what, install) # rest) =
     (case install alter of
        Some e \<Rightarrow> ([], Some (Wrap what e))
      | None \<Rightarrow> (case apply_schemas alter rest of (evs, r) \<Rightarrow> (SchemaApplied sc # evs, r)))"

definition schemas :: "(schema \<times> string \<times> ((schema \<Rightarrow> goerr option) \<Rightarrow> goerr option)) list" where
  "schemas =
     [(userSchema, ''apply dgraph schema'', ApplySchema),
      (serviceAccountSchema, ''apply dgraph service account schema'', ApplyServiceAccountSchema),
      (sessionSchema, ''apply dgraph session schema'', ApplySessionSchema)]"

definition run_connected :: "('f, 'tls, 'db) world \<Rightarrow> 'f Config \<Rightarrow> signer_ops \<Rightarrow> event list \<times> exit" where
  "run_connected w cfg sg =
     (case (if dc_DgraphApplySchema (cfg_Database cfg) then apply_schemas (wd_alter w) schemas else ([], None)) of
        (evs, Some e) \<Rightarrow> (evs @ [VaultShutdown], Failed e)
      | (evs, None) \<Rightarrow>
          also_before evs
            (case service_graph w (cfg_Auth cfg) sg of
               None \<Rightarrow> ([], Crashed)
             | Some _ \<Rightarrow> run_servers w (cfg_Server cfg)))"

definition run :: "('f, 'tls, 'db) world \<Rightarrow> event list \<times> exit" where
  "run w =
     (let vc = VaultConfigFromEnv (wd_env w) in
      if vc_RoleID vc = '''' \<or> vc_SecretID vc = ''''
      then ([], Failed (Foreign ''VAULT_ROLE_ID and VAULT_SECRET_ID must be set''))
      else case Client_New (wd_vault w)
                  \<lparr>vcc_Address = vc_Address vc, vcc_RoleID = vc_RoleID vc, vcc_SecretID = vc_SecretID vc,
                   vcc_Namespace = vc_Namespace vc, vcc_TLSConfig = None\<rparr> of
        Inl e \<Rightarrow> ([], Failed (Wrap ''authenticate to vault'' e))
      | Inr client \<Rightarrow> also_before [VaultLogin]
          (case Load (wd_float w) (wd_env w) (wd_read w) \<lparr>sm_kvMount = vc_KVMount vc, sm_prefix = vc_KVPrefix vc\<rparr> of
             Inl e \<Rightarrow> ([VaultShutdown], Failed (Wrap ''load config from vault'' e))
           | Inr cfg \<Rightarrow> also_before [ConfigLoaded]
               (case make_signer w (cfg_Auth cfg) of
                  Inl e \<Rightarrow> ([VaultShutdown], Failed e)
                | Inr sg \<Rightarrow>
                    (case Repository_New (wd_dial w) (dc_DgraphTarget (cfg_Database cfg)) of
                       Some e \<Rightarrow> ([VaultShutdown], Failed (Wrap ''connect to dgraph'' e))
                     | None \<Rightarrow>
                         also_before [DgraphDial (dc_DgraphTarget (cfg_Database cfg))]
                           (deferred DgraphClose (run_connected w cfg sg))))))"

definition main_exit :: "exit \<Rightarrow> int" where \<comment> \<open>process status: 1 after a fatal error, 2 after a panic\<close>
  "main_exit e = (case e of Stopped \<Rightarrow> 0 | Failed _ \<Rightarrow> 1 | Crashed \<Rightarrow> 2)"

section \<open>Properties\<close>

lemma also_before_simps [simp]: "fst (also_before evs r) = evs @ fst r" "snd (also_before evs r) = snd r"
  by (simp_all add: also_before_def)

lemma deferred_simps [simp]: "fst (deferred ev r) = fst r @ [ev]" "snd (deferred ev r) = snd r"
  by (simp_all add: deferred_def)

lemma loaded_services:
  assumes "Load pf env vr sm = Inr cfg"
  shows "service_graph w (cfg_Auth cfg) sg \<noteq> None"
  using Load_ok [OF assms]
  by (simp add: service_graph_def Let_def Manager_New_def Auth_New_def NewServiceAuth_def bcryptFloor_def)

text \<open>Whatever configuration \<open>Load\<close> accepts is fit for every constructor of the composition root: none
  panics, the user and the service-account service hash at or above the bcrypt floor, and both
  transports work on the same services, session settings and session store.\<close>

theorem loaded_config_builds_services:
  assumes "Load pf env vr sm = Inr cfg"
  shows "\<exists>h g. service_graph w (cfg_Auth cfg) sg = Some (h, g) \<and> gs_svc g = hd_svc h \<and> gs_cfg g = hd_cfg h \<and>
    gs_sessions g = hd_sessions h \<and> bcryptFloor \<le> as_bcryptCost (hd_svc h) \<and>
    bcryptFloor \<le> sas_bcryptCost (hd_svcAuth h)"
  using Load_ok [OF assms]
  by (simp add: service_graph_def Let_def Manager_New_def Auth_New_def NewServiceAuth_def bcryptFloor_def
      Handler_New_def Server_New_def)

definition ex_read :: vault_read where
  "ex_read path =
     (let kv = (\<lambda>ms. Inr (Some \<lparr>vs_Data = Some [(''data'', JObj ms)]\<rparr>)) in
      if path = ''secret/data/auth-service/jwt''
      then kv [(''signing_key'', JStr ''0123456789abcdef0123456789abcdef''), (''access_ttl'', JStr ''15m''), (''refresh_ttl'', JStr ''720h'')]
      else if path = ''secret/data/auth-service/bcrypt'' then kv [(''cost'', JStr ''12'')]
      else if path = ''secret/data/auth-service/database'' then kv [(''dgraph_target'', JStr ''db:9080'')]
      else Inr None)"

definition ex_load :: "nat Config res" where
  "ex_load = Load (\<lambda>s. Some (length s)) (\<lambda>k. '''') ex_read \<lparr>sm_kvMount = ''secret'', sm_prefix = ''auth-service''\<rparr>"

theorem loaded_config_builds_services_witness:
  "\<exists>cfg. ex_load = Inr cfg \<and> (\<forall>(w :: (nat, unit, mem) world) sg. \<exists>h g.
     service_graph w (cfg_Auth cfg) sg = Some (h, g) \<and> bcryptFloor \<le> as_bcryptCost (hd_svc h))"
proof -
  have "is_ok ex_load" by code_simp
  then obtain cfg where cfg: "ex_load = Inr cfg" by (auto simp: is_ok_def split: sum.splits)
  from loaded_config_builds_services [OF this [unfolded ex_load_def]] cfg show ?thesis by blast
qed

text \<open>Shut down exactly once, with nothing behind it but the deferred close of the Dgraph connection.\<close>

definition vault_once :: "event list \<Rightarrow> bool" where
  "vault_once evs = (\<exists>pre post. evs = pre @ VaultShutdown # post \<and> VaultShutdown \<notin> set pre \<and> set post \<subseteq> {DgraphClose})"

lemma vault_once_before: "VaultShutdown \<notin> set xs \<Longrightarrow> vault_once ys \<Longrightarrow> vault_once (xs @ ys)"
  unfolding vault_once_def by (metis (no_types, lifting) Un_iff append.assoc set_append)

lemma vault_once_deferred:
  assumes "vault_once ys"
  shows "vault_once (ys @ [DgraphClose])"
proof -
  from assms obtain pre post where "ys = pre @ VaultShutdown # post" "VaultShutdown \<notin> set pre" "set post \<subseteq> {DgraphClose}"
    by (auto simp: vault_once_def)
  then have "ys @ [DgraphClose] = pre @ VaultShutdown # (post @ [DgraphClose]) \<and> VaultShutdown \<notin> set pre \<and>
      set (post @ [DgraphClose]) \<subseteq> {DgraphClose}" by simp
  then show ?thesis unfolding vault_once_def by blast
qed

lemma vault_once_single: "vault_once [VaultShutdown]"
  unfolding vault_once_def by (intro exI [of _ "[]"]) simp

lemma vault_once_shutdownAll: "vault_once (shutdownAll drained)"
  unfolding vault_once_def
  by (intro exI [of _ "[GRPCGracefulStop, HTTPShutdown, if drained then GRPCStopped else GRPCForcedStop]"] exI [of _ "[]"])
    (simp add: shutdownAll_def)

lemma schemas_quiet: "apply_schemas alter ss = (evs, r) \<Longrightarrow> VaultShutdown \<notin> set evs \<and> VaultLogin \<notin> set evs"
  by (induction ss arbitrary: evs r rule: apply_schemas.induct) (fastforce split: option.splits prod.splits)+

text \<open>The boot goes on only once every schema is installed.\<close>

lemma schemas_all: "apply_schemas alter schemas = (evs, None) \<Longrightarrow> evs = map SchemaApplied installed"
  by (auto simp: schemas_def installed_def split: option.splits)

lemma run_servers_once: "vault_once (fst (run_servers w sc)) \<and> snd (run_servers w sc) \<noteq> Crashed"
  by (auto simp: run_servers_def vault_once_single split: option.splits
      intro!: vault_once_before [of "[GRPCListen (sc_GRPCAddr sc), ServeHTTP (sc_HTTPAddr sc), ServeGRPC]", simplified]
        vault_once_shutdownAll)

lemma run_connected_once:
  assumes "service_graph w (cfg_Auth cfg) sg \<noteq> None"
  shows "vault_once (fst (run_connected w cfg sg)) \<and> snd (run_connected w cfg sg) \<noteq> Crashed"
proof -
  obtain evs r where e: "(if dc_DgraphApplySchema (cfg_Database cfg) then apply_schemas (wd_alter w) schemas else ([], None)) = (evs, r)"
    by fastforce
  then have q: "VaultShutdown \<notin> set evs" using schemas_quiet by (auto split: if_splits)
  then show ?thesis
    using assms run_servers_once [of w "cfg_Server cfg"]
    by (auto simp: run_connected_def e vault_once_before vault_once_single split: option.splits)
qed

text \<open>C29: However the start goes - any environment, any answer of Vault, Dgraph or the network - the process never
  panics while it is put together, and the Vault client is shut down exactly once if and only if the
  login succeeded (a second shutdown would close a closed channel), after everything else but the
  deferred close of the Dgraph connection. Without a login the start has failed.\<close>

theorem run_shuts_vault_down_once:
  "case run w of (evs, r) \<Rightarrow>
     r \<noteq> Crashed \<and>
     (if VaultLogin \<in> set evs then vault_once evs else evs = [] \<and> (\<exists>e. r = Failed e))"
proof -
  have c: "vault_once (fst (run_connected w cfg sg)) \<and> snd (run_connected w cfg sg) \<noteq> Crashed"
    if "Load (wd_float w) (wd_env w) (wd_read w) sm = Inr cfg" for sm cfg sg
    using loaded_services [OF that] by (rule run_connected_once)
  note one = vault_once_before [of "[VaultLogin]", simplified] vault_once_before [of "[ConfigLoaded]", simplified]
    vault_once_before [of "[DgraphDial d]" for d, simplified]
  show ?thesis
    by (auto simp: run_def Let_def case_prod_unfold split: sum.splits option.splits
        intro!: one vault_once_single vault_once_deferred c [THEN conjunct1] dest: c [THEN conjunct2])
qed

text \<open>The interceptors contain a panic of a gRPC method: the caller gets an error, the server goes on from the
  state the method left, and the call is logged as failed. The error has code Unknown, not Internal as
  the comment in the recovery interceptor says.\<close>

theorem panic_becomes_unknown:
  assumes "handler st = (Panics p, (lg, s))"
  shows "server_interceptor m handler st =
    (Returns (Inl (Unknown, ''grpc: the server has been stopped'')), (lg @ [\<lparr>cl_method = m, cl_error = True\<rparr>], s))"
  using assms by (simp add: server_interceptor_def ChainUnaryInterceptor_def grpcLoggingInterceptor_def
      grpcRecoveryInterceptor_def is_error_def ErrServerStopped_def)

theorem panic_becomes_unknown_witness:
  "fst (server_interceptor ''/auth.AuthService/Login'' (\<lambda>(lg, s). (Panics ''nil dereference'' :: unit outcome, (lg, s + (1 :: nat)))) ([], 4))
     = Returns (Inl (Unknown, ''grpc: the server has been stopped''))"
  by (subst panic_becomes_unknown) simp_all

end
