(* ===== verification/Grpc_Theorems.thy ===== *)
theory Grpc_Theorems
  imports Grpc Http_Theorems
begin

text \<open>
  The two transports agree: \<^verbatim>\<open>internal/handler/grpc/server.go\<close> and \<^verbatim>\<open>internal/handler/http/handler.go\<close>
  map the same service errors to corresponding codes, accept the same tokens, and leave the same
  database behind. Both are built on one set of services, as \<^verbatim>\<open>cmd/server/main.go\<close> builds them.
\<close>

text \<open>The HTTP status that the gRPC documentation assigns to a code.\<close>

fun http_code :: "code \<Rightarrow> int" where
  "http_code InvalidArgument = 400"
| "http_code NotFound = 404"
| "http_code AlreadyExists = 409"
| "http_code PermissionDenied = 403"
| "http_code Unauthenticated = 401"
| "http_code ResourceExhausted = 429"
| "http_code Internal = 500"
| "http_code Unimplemented = 501"
| "http_code Unknown = 500"

lemma service_error_grpc:
  "handleServiceError err w =
     writeError (http_code (fst (domainToGRPCError err))) (snd (domainToGRPCError err)) w"
  by (simp add: handleServiceError_def domainToGRPCError_def)

lemma error_code_range: "400 \<le> http_code (fst (domainToGRPCError err))"
  by (simp add: domainToGRPCError_def)

text \<open>C18: Registration is the same operation over both transports: from the same input and state they
  leave the same database; a gRPC error with code and text is the HTTP answer with the corresponding
  status and the same text, and a created user comes back with the same zookie.\<close>

theorem register_transports_agree:
  assumes "decode_body create_user_field zero_create_user r new_writer = (Some i, new_writer)"
    and "h = Handler_New svc svcAuth cfg sessions store bc sha256" "g = Server_New svc cfg sessions bc sha256"
    and "req = \<lparr>rr_FirstName = cui_FirstName i, rr_LastName = cui_LastName i, rr_Nickname = cui_Nickname i,
      rr_Password = cui_Password i, rr_Email = cui_Email i, rr_Country = cui_Country i\<rparr>"
  shows "case Server_Register g a ctx req s of
      (Inl (c, m), s') \<Rightarrow> Handler_register h a r new_writer s = (writeError (http_code c) m new_writer, s') \<and> 400 \<le> http_code c
    | (Inr p, s') \<Rightarrow> \<exists>u z. wu_User p = domainUserToProto u \<and> wu_Zookie p = zk_Token z \<and>
        Handler_register h a r new_writer s =
          (respond 201 (OObj [(''user'', user_out u), (''zookie'', OStr (wu_Zookie p))]) (setZookieHeader z new_writer), s')"
proof -
  let ?R = "Auth_Register svc bc (am_salt a) (am_clk a 1) (am_uuid a) i (hs_db s)"
  have G: "Server_Register g a ctx req s =
      (case ?R of
         (Inl err, db) \<Rightarrow> (Inl (domainToGRPCError err), s\<lparr>hs_db := db\<rparr>)
       | (Inr (user, zookie), db) \<Rightarrow>
           (Inr \<lparr>wu_User = domainUserToProto user, wu_Zookie = zk_Token zookie\<rparr>, s\<lparr>hs_db := db\<rparr>))"
    by (cases i) (simp add: Server_Register_def assms(3,4) Server_New_def)
  have H: "Handler_register h a r new_writer s =
      (case ?R of
         (Inl err, db) \<Rightarrow> (handleServiceError err new_writer, s\<lparr>hs_db := db\<rparr>)
       | (Inr (user, zookie), db) \<Rightarrow>
           (respond 201 (OObj [(''user'', user_out user), (''zookie'', OStr (zk_Token zookie))])
              (setZookieHeader zookie new_writer), s\<lparr>hs_db := db\<rparr>))"
    by (simp add: Handler_register_def assms(1,2) Handler_New_def)
  show ?thesis
  proof (cases "fst ?R")
    case (Inl err)
    obtain db where R: "?R = (Inl err, db)" using Inl by (cases ?R) auto
    show ?thesis using error_code_range [of err]
      unfolding G H R by (cases "domainToGRPCError err") (simp add: service_error_grpc)
  next
    case (Inr uz)
    obtain u z db where R: "?R = (Inr (u, z), db)" using Inr by (cases ?R; cases uz) auto
    show ?thesis unfolding G H R by auto
  qed
qed

definition ex_register_body :: "(string \<times> json) list" where
  "ex_register_body =
     [(''first_name'', JStr ''Ada''), (''last_name'', JStr ''L''), (''nickname'', JStr ''ada_l''),
      (''password'', JStr ''passw0rd''), (''email'', JStr ''ada@x.io''), (''country'', JStr ''KE'')]"

theorem register_transports_agree_witness:
  "case Server_Register (Server_New ex_auth ex_cfg ex_repo ex_bcrypt ex_sha) (ex_ambient ''k'') None
      \<lparr>rr_FirstName = ''Ada'', rr_LastName = ''L'', rr_Nickname = ''ada_l'', rr_Password = ''passw0rd'',
       rr_Email = ''ada@x.io'', rr_Country = ''KE''\<rparr> \<lparr>hs_db = ex_udb, hs_touch = []\<rparr> of
     (Inl (c, m), s') \<Rightarrow> Handler_register (Handler_New ex_auth ex_accounts ex_cfg ex_repo (\<lambda>_. Inr ()) ex_bcrypt ex_sha)
       (ex_ambient ''k'') (ex_request ''POST'' ''/auth/register'' [] ex_register_body) new_writer
       \<lparr>hs_db = ex_udb, hs_touch = []\<rparr> = (writeError (http_code c) m new_writer, s')
   | (Inr p, s') \<Rightarrow> True"
proof -
  let ?r = "ex_request ''POST'' ''/auth/register'' [] ex_register_body"
  have "length (Marshal (JObj ex_register_body)) < 300" by code_simp
  then have d: "Decode (take max_body (rq_Body ?r)) = Some (JObj ex_register_body)"
    by (intro printed_body) (simp_all add: ex_request_def max_body_def)
  have i: "into_struct create_user_field zero_create_user (JObj ex_register_body) = Some (ex_user_in ''ada_l'' ''ada@x.io'')"
    by code_simp
  have "decode_body create_user_field zero_create_user ?r new_writer = (Some (ex_user_in ''ada_l'' ''ada@x.io''), new_writer)"
    by (simp add: decode_body_def d i)
  from register_transports_agree [OF this refl refl refl, where svc = ex_auth and svcAuth = ex_accounts and cfg = ex_cfg
      and sessions = ex_repo and store = "\<lambda>_. Inr ()" and bc = ex_bcrypt and ?sha256.0 = ex_sha
      and a = "ex_ambient ''k''" and ctx = None and s = "\<lparr>hs_db = ex_udb, hs_touch = []\<rparr>"]
  show ?thesis by (auto simp: ex_user_in_def split: prod.splits sum.splits)
qed

text \<open>Both transports accept the same tokens: for a call whose metadata carries the value of the request's
  Authorization header, gRPC resolves a principal exactly when the HTTP middleware passes the request
  on with that principal; otherwise one answers Unauthenticated and the other 401, in the same state.\<close>

theorem token_checks_agree:
  "case principalFromCtx (Server_New svc cfg sessions bc sha256) a
      (Some (\<lambda>k. if k = ''authorization'' then [get_value (rq_Header r) ''Authorization''] else [])) s of
     (Inr p, s') \<Rightarrow>
       \<forall>nxt w. Authenticate (session_verifier (Handler_New svc svcAuth cfg sessions store bc sha256) a) nxt r w s =
         nxt (r\<lparr>rq_Principal := Some p\<rparr>) w s'
   | (Inl (c, m), s') \<Rightarrow> c = Unauthenticated \<and>
       (\<forall>nxt w. \<exists>m'. Authenticate (session_verifier (Handler_New svc svcAuth cfg sessions store bc sha256) a) nxt r w s =
         (mw_writeError (http_code c) m' w, s'))"
  by (auto simp: principalFromCtx_def Authenticate_def session_verifier_def Server_New_def Handler_New_def Let_def
      split: prod.splits sum.splits)

end
