(* ===== verification/Site.thy ===== *)
theory Site
  imports Site_Services Startup Http_Theorems Grpc_Theorems
begin

text \<open>
  The program as a whole: both transports on the services that \<^verbatim>\<open>cmd/server/main.go\<close> puts together, over one
  Dgraph client. Every request of either transport is a permitted change (\<open>permitted\<close> of \<^verbatim>\<open>Site_Services\<close>) for the
  caller whose token it carries; runs of requests and touch goroutines keep the data well-formed and lose,
  revive or move nothing.
\<close>

section \<open>The caller of a request\<close>

definition verified :: "Principal res \<times> string list \<Rightarrow> Principal option" where
  "verified r = (case fst r of Inr p \<Rightarrow> Some p | Inl _ \<Rightarrow> None)"

definition http_caller :: "'db Handler \<Rightarrow> ambient \<Rightarrow> request \<Rightarrow> 'db \<Rightarrow> Principal option" where
  "http_caller h a r db =
     (if has_prefix (get_value (rq_Header r) ''Authorization'') ''Bearer ''
      then verified (VerifyToken (hd_sha256 h) (hd_sessions h) (am_clk a 0) (bearer r) db) else None)"

definition http_refresh :: "'db Handler \<Rightarrow> request \<Rightarrow> string option" where
  "http_refresh h r = map_option (Hash (hd_sha256 h)) (map_of (rq_Cookies r) refreshCookieName)"

definition grpc_caller :: "'db Server \<Rightarrow> ambient \<Rightarrow> metadata \<Rightarrow> 'db \<Rightarrow> Principal option" where
  "grpc_caller g a ctx db =
     (case ctx of
        None \<Rightarrow> None
      | Some md \<Rightarrow> (case md ''authorization'' of
          [] \<Rightarrow> None
        | v # _ \<Rightarrow> if has_prefix v ''Bearer ''
            then verified (VerifyToken (gs_sha256 g) (gs_sessions g) (am_clk a 0) (trim_prefix v ''Bearer '') db) else None))"

definition http_secrets :: "request \<Rightarrow> string list" where
  "http_secrets r =
     (case fst (decode_body login_field zero_login r new_writer) of None \<Rightarrow> [] | Some i \<Rightarrow> [li_Password i]) @
     (case fst (decode_body service_login_field zero_service_login r new_writer) of None \<Rightarrow> [] | Some i \<Rightarrow> [sli_ClientSecret i])"

definition grpc_secrets :: "'m codec \<Rightarrow> 'm \<Rightarrow> string list" where
  "grpc_secrets cd msg = (case dec_Login cd msg of Inl _ \<Rightarrow> [] | Inr q \<Rightarrow> [lq_Password q])"

lemma decoded: "decode_body f z r w = (x, w') \<Longrightarrow> fst (decode_body f z r v) = x"
  by (auto simp: decode_body_def split: option.splits)

lemma http_presents:
  "decode_body login_field zero_login r w = (Some i, w') \<Longrightarrow> bc_Compare bc hash (li_Password i) \<Longrightarrow>
     presents bc (http_secrets r) hash"
  "decode_body service_login_field zero_service_login r w = (Some j, w') \<Longrightarrow> bc_Compare bc hash (sli_ClientSecret j) \<Longrightarrow>
     presents bc (http_secrets r) hash"
  by (drule decoded [where v = new_writer], simp add: http_secrets_def presents_def)+

text \<open>The services of \<open>service_graph\<close> work on the repositories of one client.\<close>

definition on_dgraph :: "'db dgraph \<Rightarrow> 'db Handler \<Rightarrow> bool" where
  "on_dgraph dg h =
     (hd_sessions h = dgraph_session_repo dg \<and> as_repo (hd_svc h) = dgraph_user_repo dg \<and>
      (\<exists>bind. sas_repo (hd_svcAuth h) = dgraph_service_account_repo bind dg))"

definition server_on_dgraph :: "'db dgraph \<Rightarrow> 'db Server \<Rightarrow> bool" where
  "server_on_dgraph dg g = (gs_sessions g = dgraph_session_repo dg \<and> as_repo (gs_svc g) = dgraph_user_repo dg)"

lemma services_on_dgraph:
  assumes "service_graph w ac sg = Some (h, g)"
  shows "on_dgraph (wd_dgraph w) h" "server_on_dgraph (wd_dgraph w) g"
  using assms
  by (auto simp: service_graph_def Let_def Auth_New_def NewServiceAuth_def Handler_New_def Server_New_def on_dgraph_def
      server_on_dgraph_def split: option.splits if_splits)

section \<open>HTTP requests\<close>

lemma route_handlers:
  "rt \<in> set (RegisterRoutes h a mw) \<Longrightarrow>
     rt_Handler rt \<in> {Handler_register h a, Handler_login h a, Handler_serviceLogin h a, Handler_health h a,
        Handler_ready h, Handler_refresh h a, Handler_verify h a} \<or>
     (\<exists>f \<in> {Handler_activateContext h a, Handler_listUsers h, Handler_getUser h, Handler_updateUser h a,
        Handler_deleteUser h, Handler_createServiceAccount h a, Handler_deactivateServiceAccount h a,
        Handler_logout h a, Handler_logoutAll h a, Handler_listSessions h, Handler_revokeSession h a, Handler_me h}.
        rt_Handler rt = mw f)"
  unfolding RegisterRoutes_def Let_def list.set insert_iff by (elim disjE emptyE) simp_all

lemma session_verifier_db: "session_verifier h a tok s = (res, s') \<Longrightarrow> hs_db s' = hs_db s"
  by (auto simp: session_verifier_def split: prod.splits)

lemma read_only_handlers:
  "Handler_health h a r w s = (w', s') \<Longrightarrow> hs_db s' = hs_db s"
  "Handler_ready h r w s = (w', s') \<Longrightarrow> hs_db s' = hs_db s"
  "Handler_verify h a r w s = (w', s') \<Longrightarrow> hs_db s' = hs_db s"
  "Handler_getUser h r w s = (w', s') \<Longrightarrow> hs_db s' = hs_db s"
  "Handler_listUsers h r w s = (w', s') \<Longrightarrow> hs_db s' = hs_db s"
  "Handler_listSessions h r w s = (w', s') \<Longrightarrow> hs_db s' = hs_db s"
  "Handler_me h r w s = (w', s') \<Longrightarrow> hs_db s' = hs_db s"
  by (auto simp: Handler_health_def Handler_ready_def Handler_verify_def Handler_getUser_def Handler_listUsers_def
      Handler_listSessions_def Handler_me_def Let_def split: if_splits sum.splits prod.splits option.splits
      dest: session_verifier_db)

context dgraph_client
begin

lemma public_allowed:
  assumes wf: "wf_site (graph (hs_db s))" and h: "on_dgraph dg h"
  shows "Handler_register h a r w s = (w', s') \<Longrightarrow> allows graph caller rh known (hs_db s) (hs_db s')"
    and "Handler_login h a r w s = (w', s') \<Longrightarrow> allows graph caller rh (presents (hd_bc h) (http_secrets r)) (hs_db s) (hs_db s')"
    and "Handler_serviceLogin h a r w s = (w', s') \<Longrightarrow> allows graph caller rh (presents (hd_bc h) (http_secrets r)) (hs_db s) (hs_db s')"
    and "Handler_refresh h a r w s = (w', s') \<Longrightarrow> allows graph caller (http_refresh h r) known (hs_db s) (hs_db s')"
proof -
  obtain bind where b: "hd_sessions h = dgraph_session_repo dg" "as_repo (hd_svc h) = dgraph_user_repo dg"
      "sas_repo (hd_svcAuth h) = dgraph_service_account_repo bind dg"
    using h by (auto simp: on_dgraph_def)
  show "Handler_register h a r w s = (w', s') \<Longrightarrow> allows graph caller rh known (hs_db s) (hs_db s')"
    using wf by (auto simp: Handler_register_def split: prod.splits option.splits sum.splits
        intro: allows_same allow_register [OF _ b(2)])
  show "Handler_login h a r w s = (w', s') \<Longrightarrow> allows graph caller rh (presents (hd_bc h) (http_secrets r)) (hs_db s) (hs_db s')"
    using wf by (auto simp: Handler_login_def b(1) split: prod.splits option.splits sum.splits
        intro: allows_same allow_user_login [OF _ b(2)] http_presents(1))
  show "Handler_serviceLogin h a r w s = (w', s') \<Longrightarrow> allows graph caller rh (presents (hd_bc h) (http_secrets r)) (hs_db s) (hs_db s')"
    using wf by (auto simp: Handler_serviceLogin_def b(1) split: prod.splits option.splits sum.splits
        intro: allows_same allow_service_login [OF _ b(3)] http_presents(2))
  show "Handler_refresh h a r w s = (w', s') \<Longrightarrow> allows graph caller (http_refresh h r) known (hs_db s) (hs_db s')"
    using wf by (auto simp: Handler_refresh_def b(1) http_refresh_def split: prod.splits option.splits sum.splits
        intro: allows_same allow_refresh)
qed

lemma protected_allowed:
  assumes wf: "wf_site (graph (hs_db s))" and h: "on_dgraph dg h" and p: "rq_Principal r = Some p"
    and v: "VerifyToken (hd_sha256 h) (hd_sessions h) (am_clk a 0) (bearer r) (hs_db s) = (Inr p, ts)"
  shows "Handler_updateUser h a r w s = (w', s') \<Longrightarrow> allows graph (Some p) rh known (hs_db s) (hs_db s')"
    and "Handler_deleteUser h r w s = (w', s') \<Longrightarrow> allows graph (Some p) rh known (hs_db s) (hs_db s')"
    and "Handler_createServiceAccount h a r w s = (w', s') \<Longrightarrow> allows graph (Some p) rh known (hs_db s) (hs_db s')"
    and "Handler_deactivateServiceAccount h a r w s = (w', s') \<Longrightarrow> allows graph (Some p) rh known (hs_db s) (hs_db s')"
    and "Handler_logout h a r w s = (w', s') \<Longrightarrow> allows graph (Some p) rh known (hs_db s) (hs_db s')"
    and "Handler_logoutAll h a r w s = (w', s') \<Longrightarrow> allows graph (Some p) rh known (hs_db s) (hs_db s')"
    and "Handler_revokeSession h a r w s = (w', s') \<Longrightarrow> allows graph (Some p) rh known (hs_db s) (hs_db s')"
    and "Handler_activateContext h a r w s = (w', s') \<Longrightarrow> allows graph (Some p) rh known (hs_db s) (hs_db s')"
proof -
  obtain bind where b: "hd_sessions h = dgraph_session_repo dg" "as_repo (hd_svc h) = dgraph_user_repo dg"
      "sas_repo (hd_svcAuth h) = dgraph_service_account_repo bind dg"
    using h by (auto simp: on_dgraph_def)
  note split = prod.splits option.splits sum.splits if_splits
  note v = v [unfolded b(1)] and p = p [folded PrincipalFromContext_def]
  show "Handler_updateUser h a r w s = (w', s') \<Longrightarrow> allows graph (Some p) rh known (hs_db s) (hs_db s')"
    using wf by (auto simp: Handler_updateUser_def p split: split intro: allows_same allow_update [OF _ b(2)])
  show "Handler_deleteUser h r w s = (w', s') \<Longrightarrow> allows graph (Some p) rh known (hs_db s) (hs_db s')"
    using wf by (auto simp: Handler_deleteUser_def p split: split intro: allow_delete [OF _ b(2)])
  show "Handler_createServiceAccount h a r w s = (w', s') \<Longrightarrow> allows graph (Some p) rh known (hs_db s) (hs_db s')"
    using wf by (auto simp: Handler_createServiceAccount_def split: split
        intro: allows_same allow_create_account [OF _ b(3)])
  show "Handler_deactivateServiceAccount h a r w s = (w', s') \<Longrightarrow> allows graph (Some p) rh known (hs_db s) (hs_db s')"
    using wf by (auto simp: Handler_deactivateServiceAccount_def split: split intro: allow_deactivate_account [OF _ b(3)])
  show "Handler_logout h a r w s = (w', s') \<Longrightarrow> allows graph (Some p) rh known (hs_db s) (hs_db s')"
    using wf by (auto simp: Handler_logout_def b(1) split: split intro: allow_logout [OF _ v])
  show "Handler_logoutAll h a r w s = (w', s') \<Longrightarrow> allows graph (Some p) rh known (hs_db s) (hs_db s')"
    using wf by (auto simp: Handler_logoutAll_def b(1) p Let_def split: split intro: allows_same allow_logout_all)
  show "Handler_revokeSession h a r w s = (w', s') \<Longrightarrow> allows graph (Some p) rh known (hs_db s) (hs_db s')"
    using wf by (auto simp: Handler_revokeSession_def b(1) p Let_def split: split intro: allows_same allow_revoke)
  show "Handler_activateContext h a r w s = (w', s') \<Longrightarrow> allows graph (Some p) rh known (hs_db s) (hs_db s')"
    using wf by (auto simp: Handler_activateContext_def b(1) p Let_def split: split intro: allows_same allow_activate [OF _ v])
qed

lemma authenticated_allowed:
  assumes wf: "wf_site (graph (hs_db s))" and h: "on_dgraph dg h"
    and f: "f \<in> {Handler_activateContext h a, Handler_listUsers h, Handler_getUser h, Handler_updateUser h a,
        Handler_deleteUser h, Handler_createServiceAccount h a, Handler_deactivateServiceAccount h a,
        Handler_logout h a, Handler_logoutAll h a, Handler_listSessions h, Handler_revokeSession h a, Handler_me h}"
    and m: "Authenticate (session_verifier h a) f r w s = (w', s')"
  shows "allows graph (http_caller h a r (hs_db s)) rh known (hs_db s) (hs_db s')"
proof (cases "has_prefix (get_value (rq_Header r) ''Authorization'') ''Bearer ''")
  case False
  then show ?thesis using m wf by (auto simp: Authenticate_def Let_def intro: allows_same)
next
  case True
  obtain res ts where v: "VerifyToken (hd_sha256 h) (hd_sessions h) (am_clk a 0) (bearer r) (hs_db s) = (res, ts)"
    by fastforce
  show ?thesis
  proof (cases res)
    case (Inl e)
    then show ?thesis using m wf True v
      by (auto simp: Authenticate_def Let_def session_verifier_def bearer_def split: if_splits intro: allows_same)
  next
    case (Inr p)
    let ?r = "r\<lparr>rq_Principal := Some p\<rparr>" and ?s = "s\<lparr>hs_touch := hs_touch s @ ts\<rparr>"
    have c: "http_caller h a r (hs_db s) = Some p"
      using True v Inr by (simp add: http_caller_def verified_def)
    have g: "f ?r w ?s = (w', s')"
      using m True v Inr by (simp add: Authenticate_def Let_def session_verifier_def bearer_def)
    have b: "bearer ?r = bearer r" by (simp add: bearer_def)
    have k: "VerifyToken (hd_sha256 h) (hd_sessions h) (am_clk a 0) (bearer ?r) (hs_db ?s) = (Inr p, ts)"
      using v Inr b by simp
    have "wf_site (graph (hs_db ?s))" "rq_Principal ?r = Some p" using wf by simp_all
    note al = protected_allowed [OF this(1) h this(2) k, of w w' s' rh]
    have same: "hs_db s' = hs_db ?s \<Longrightarrow> allows graph (Some p) rh known (hs_db s) (hs_db s')"
      using wf by (simp add: allows_same)
    have "allows graph (Some p) rh known (hs_db s) (hs_db s')"
      using f al [simplified] g read_only_handlers(4-7) [of h ?r w ?s w' s'] same by auto
    with c show ?thesis by simp
  qed
qed

text \<open>Every HTTP request.\<close>

lemma http_allowed:
  assumes wf: "wf_site (graph (hs_db s))" and h: "on_dgraph dg h" and m: "http_mux h a r w s = (w', s')"
  shows "allows graph (http_caller h a r (hs_db s)) (http_refresh h r) (presents (hd_bc h) (http_secrets r)) (hs_db s) (hs_db s')"
proof (cases "find_route (rq_Method r) (segments (rq_Path r)) (RegisterRoutes h a (Authenticate (session_verifier h a)))")
  case None
  then show ?thesis using m wf by (auto simp: http_mux_def ServeMux_def Let_def split: if_splits intro: allows_same)
next
  case (Some fv)
  obtain f vs where fv: "fv = (f, vs)" by (cases fv)
  let ?r = "r\<lparr>rq_PathValue := vs\<rparr>"
  have g: "f ?r w s = (w', s')" using m Some fv by (simp add: http_mux_def ServeMux_def Let_def)
  have c: "http_caller h a ?r = http_caller h a r" "http_refresh h ?r = http_refresh h r" "http_secrets ?r = http_secrets r"
    by (simp_all add: http_caller_def http_refresh_def http_secrets_def decode_body_def bearer_def fun_eq_iff)
  from find_routeD [OF Some [unfolded fv]] obtain rt where
    "rt \<in> set (RegisterRoutes h a (Authenticate (session_verifier h a)))" "rt_Handler rt = f" by blast
  with route_handlers [OF this(1)] consider
      (public) "f \<in> {Handler_register h a, Handler_login h a, Handler_serviceLogin h a, Handler_health h a,
        Handler_ready h, Handler_refresh h a, Handler_verify h a}"
    | (guarded) e where "f = Authenticate (session_verifier h a) e"
        "e \<in> {Handler_activateContext h a, Handler_listUsers h, Handler_getUser h, Handler_updateUser h a,
        Handler_deleteUser h, Handler_createServiceAccount h a, Handler_deactivateServiceAccount h a,
        Handler_logout h a, Handler_logoutAll h a, Handler_listSessions h, Handler_revokeSession h a, Handler_me h}"
    by metis
  then show ?thesis
  proof cases
    case public
    note al = public_allowed [OF wf h, of a ?r w w' s', unfolded c]
    have same: "hs_db s' = hs_db s \<Longrightarrow> allows graph (http_caller h a r (hs_db s)) (http_refresh h r) (presents (hd_bc h) (http_secrets r)) (hs_db s) (hs_db s')"
      using wf by (simp add: allows_same)
    show ?thesis using public al g same by (auto dest: read_only_handlers(1-3))
  next
    case (guarded e)
    show ?thesis using authenticated_allowed [OF wf h guarded(2) g [unfolded guarded(1)]] by (simp add: c)
  qed
qed

end


section \<open>gRPC calls\<close>

lemma principal_ctx:
  assumes "principalFromCtx g a ctx s = (x, s')"
  shows "hs_db s' = hs_db s" "x = Inr p \<Longrightarrow> grpc_caller g a ctx (hs_db s) = Some p"
  using assms by (auto simp: principalFromCtx_def grpc_caller_def verified_def split: option.splits list.splits if_splits
      prod.splits sum.splits)

context dgraph_client
begin

lemma grpc_allowed:
  assumes wf: "wf_site (graph (hs_db s))" and g: "server_on_dgraph dg g"
    and m: "(n, f) \<in> set (AuthService_ServiceDesc cd None g a ctx)" "f msg s = (out, s')"
  shows "allows graph (grpc_caller g a ctx (hs_db s)) rh (presents (gs_bc g) (grpc_secrets cd msg)) (hs_db s) (hs_db s')"
proof -
  have b: "gs_sessions g = dgraph_session_repo dg" "as_repo (gs_svc g) = dgraph_user_repo dg"
    using g by (simp_all add: server_on_dgraph_def)
  note split = prod.splits option.splits sum.splits if_splits
  let ?ok = "allows graph (grpc_caller g a ctx (hs_db s)) rh (presents (gs_bc g) (grpc_secrets cd msg)) (hs_db s)"
  have reg: "?ok (hs_db s')" if "Server_Register g a ctx q s = (x, s')" for q x s'
    using that wf by (auto simp: Server_Register_def split: split intro: allow_register [OF _ b(2)])
  have log: "?ok (hs_db s')" if "Server_Login g a ctx q s = (x, s')" "dec_Login cd msg = Inr q" for q x s'
    using that wf by (auto simp: Server_Login_def b(1) grpc_secrets_def presents_def split: split intro: allows_same allow_user_login [OF _ b(2)])
  have get: "?ok (hs_db s')" if "Server_GetUser g a ctx q s = (x, s')" for q x s'
    using that wf by (auto simp: Server_GetUser_def split: split dest!: principal_ctx(1) intro: allows_same)
  have lst: "?ok (hs_db s')" if "Server_ListUsers g a ctx q s = (x, s')" for q x s'
    using that wf by (auto simp: Server_ListUsers_def split: split dest!: principal_ctx(1) intro: allows_same)
  have hc: "?ok (hs_db s')" if "Server_HealthCheck a ctx q s = (x, s')" for q x s'
    using that wf by (auto simp: Server_HealthCheck_def intro: allows_same)
  have upd: "?ok (hs_db s')" if "Server_UpdateUser g a ctx q s = (x, s')" for q x s'
  proof (cases "principalFromCtx g a ctx s")
    case (Pair y t)
    note pc = principal_ctx(1) [OF Pair] principal_ctx(2) [OF Pair]
    show ?thesis using that Pair wf pc
      by (auto simp: Server_UpdateUser_def split: split intro: allows_same allow_update [OF _ b(2)])
  qed
  have del: "?ok (hs_db s')" if "Server_DeleteUser g a ctx q s = (x, s')" for q x s'
  proof (cases "principalFromCtx g a ctx s")
    case (Pair y t)
    note pc = principal_ctx(1) [OF Pair] principal_ctx(2) [OF Pair]
    show ?thesis using that Pair wf pc
      by (auto simp: Server_DeleteUser_def split: split intro: allows_same allow_delete [OF _ b(2)])
  qed
  have dec: "?ok (hs_db s')" if "unary_handler full (returning wrap f ctx) d None msg s = (out, s')"
    "\<And>q x s'. f ctx q s = (x, s') \<Longrightarrow> d msg = Inr q \<Longrightarrow> ?ok (hs_db s')"
    for full and wrap :: "'r \<Rightarrow> response" and f :: "('q, 'r, 'db) rpc" and d out s'
    using that wf by (auto simp: unary_handler_def returning_def split: sum.splits prod.splits intro: allows_same)
  show ?thesis using m unfolding AuthService_ServiceDesc_def
    by (auto dest: dec [OF _ reg] dec [OF _ log] dec [OF _ get] dec [OF _ lst] dec [OF _ hc] dec [OF _ upd] dec [OF _ del])
qed

end

section \<open>The running program\<close>

text \<open>
  What can happen: an HTTP request, through the whole middleware chain; a gRPC call; a touch goroutine that runs, or
  one that is lost (its context is cancelled), picked by its position; a round of the rate limiter's cleanup.
  The interceptors of gRPC are left out: they add log lines and do not change what a method does to the state.
\<close>

record ('f, 'l, 'db) process =
  pr_handler :: "'db Handler"
  pr_server :: "'db Server"
  pr_limiter :: "('f, 'l) limiter_lib"
  pr_config :: "'f ServerConfig"
  pr_codec :: "string codec"

datatype happening =
    HttpRequest int ambient request \<comment> \<open>the limiter's clock, the handler's ambient inputs\<close>
  | GrpcCall ambient metadata string string \<comment> \<open>method, message\<close>
  | TouchRuns int nat | TouchLost nat | LimiterCleanup int

definition on_state :: "('s \<Rightarrow> 's) \<Rightarrow> ('l, 's) site \<Rightarrow> ('l, 's) site" where
  "on_state f st = st\<lparr>si_inner := f (si_inner st)\<rparr>"

definition drop_nth :: "nat \<Rightarrow> 'a list \<Rightarrow> 'a list" where
  "drop_nth i xs = take i xs @ drop (Suc i) xs"

fun site_do :: "('f, 'l, 'db) process \<Rightarrow> happening \<Rightarrow> ('l, 'db hstate) site \<Rightarrow> ('l, 'db hstate) site" where
  "site_do P (HttpRequest now a r) st =
     snd (site_handler (pr_limiter P) (pr_config P) now (http_mux (pr_handler P) a) r new_writer st)"
| "site_do P (GrpcCall a ctx m msg) st =
     (case map_of (AuthService_ServiceDesc (pr_codec P) None (pr_server P) a ctx) m of
        None \<Rightarrow> st
      | Some f \<Rightarrow> on_state (\<lambda>s. snd (f msg s)) st)"
| "site_do P (TouchRuns now i) st =
     on_state (\<lambda>s. if i < length (hs_touch s)
       then s\<lparr>hs_db := run_touch (hd_sessions (pr_handler P)) now (hs_touch s ! i) (hs_db s),
              hs_touch := drop_nth i (hs_touch s)\<rparr> else s) st"
| "site_do P (TouchLost i) st = on_state (\<lambda>s. s\<lparr>hs_touch := drop_nth i (hs_touch s)\<rparr>) st"
| "site_do P (LimiterCleanup now) st = st\<lparr>si_clients := cleanup now (si_clients st)\<rparr>"

definition site_run :: "('f, 'l, 'db) process \<Rightarrow> happening list \<Rightarrow> ('l, 'db hstate) site \<Rightarrow> ('l, 'db hstate) site" where
  "site_run P hs st = fold (site_do P) hs st"

text \<open>The credentials presented: an access token, with the time it is checked at, and a refresh token.\<close>

definition bearer_token :: "int \<Rightarrow> string \<Rightarrow> (int \<times> string) option" where
  "bearer_token now v = (if has_prefix v ''Bearer '' then Some (now, trim_prefix v ''Bearer '') else None)"

fun access_token :: "happening \<Rightarrow> (int \<times> string) option" where
  "access_token (HttpRequest now a r) = bearer_token (am_clk a 0) (get_value (rq_Header r) ''Authorization'')"
| "access_token (GrpcCall a (Some md) m msg) =
     (case md ''authorization'' of v # _ \<Rightarrow> bearer_token (am_clk a 0) v | [] \<Rightarrow> None)"
| "access_token _ = None"

fun refresh_token :: "happening \<Rightarrow> string option" where
  "refresh_token (HttpRequest now a r) = map_of (rq_Cookies r) refreshCookieName"
| "refresh_token _ = None"

definition caller_of :: "(string \<Rightarrow> string) \<Rightarrow> 'db session_repo \<Rightarrow> happening \<Rightarrow> 'db \<Rightarrow> Principal option" where
  "caller_of sha256 repo ev db =
     (case access_token ev of None \<Rightarrow> None | Some (now, tok) \<Rightarrow> verified (VerifyToken sha256 repo now tok db))"

definition secrets_of :: "string codec \<Rightarrow> happening \<Rightarrow> string list" where
  "secrets_of cd ev =
     (case ev of HttpRequest _ a r \<Rightarrow> http_secrets r | GrpcCall a ctx m msg \<Rightarrow> grpc_secrets cd msg | _ \<Rightarrow> [])"

definition is_request :: "happening \<Rightarrow> bool" where
  "is_request ev = (case ev of HttpRequest _ _ _ \<Rightarrow> True | GrpcCall _ _ _ _ \<Rightarrow> True | _ \<Rightarrow> False)"

lemma graph_parts:
  assumes "service_graph w ac sg = Some (h, g)"
  shows "hd_sessions h = dgraph_session_repo (wd_dgraph w)" "gs_sessions g = dgraph_session_repo (wd_dgraph w)"
    "hd_sha256 h = wd_sha256 w" "gs_sha256 g = wd_sha256 w" "hd_bc h = wd_bcrypt w" "gs_bc g = wd_bcrypt w"
  using assms
  by (auto simp: service_graph_def Let_def Auth_New_def NewServiceAuth_def Handler_New_def Server_New_def
      split: option.splits if_splits)

lemma chain_state:
  "si_inner (snd (site_handler lib sc now mux r w st)) = si_inner st \<or>
   (\<exists>w1 w2. mux r w1 (si_inner st) = (w2, si_inner (snd (site_handler lib sc now mux r w st))))"
  by (auto simp: site_handler_def Chain_foldr SecurityHeaders_def RateLimiter_def RequestLogger_def on_inner_def Let_def
      split: prod.splits)

lemma on_state_inner [simp]: "si_inner (on_state f st) = f (si_inner st)"
  by (simp add: on_state_def)

abbreviation db_of :: "('l, 'db hstate) site \<Rightarrow> 'db" where
  "db_of st \<equiv> hs_db (si_inner st)"

lemma caller_http:
  "hd_sha256 h = sha256 \<Longrightarrow> hd_sessions h = repo \<Longrightarrow> caller_of sha256 repo (HttpRequest now a r) db = http_caller h a r db"
  by (auto simp: caller_of_def http_caller_def bearer_token_def bearer_def)

lemma caller_grpc:
  "gs_sha256 g = sha256 \<Longrightarrow> gs_sessions g = repo \<Longrightarrow> caller_of sha256 repo (GrpcCall a ctx m msg) db = grpc_caller g a ctx db"
  by (cases ctx) (auto simp: caller_of_def grpc_caller_def bearer_token_def split: list.splits)

lemma request_allowed:
  assumes w: "service_graph w ac sg = Some (pr_handler P, pr_server P)" and d: "dgraph_client (wd_dgraph w) graph"
    and wf: "wf_site (graph (db_of st))" and ev: "is_request ev"
  shows "allows graph (caller_of (wd_sha256 w) (dgraph_session_repo (wd_dgraph w)) ev (db_of st))
    (map_option (Hash (wd_sha256 w)) (refresh_token ev)) (presents (wd_bcrypt w) (secrets_of (pr_codec P) ev))
    (db_of st) (db_of (site_do P ev st))"
proof (cases ev)
  case (HttpRequest now a r)
  note c = caller_http [OF graph_parts(3,1) [OF w], of now a r]
  have t: "map_option (Hash (wd_sha256 w)) (refresh_token ev) = http_refresh (pr_handler P) r"
    by (simp add: HttpRequest http_refresh_def graph_parts(3) [OF w])
  show ?thesis
    using chain_state [of "pr_limiter P" "pr_config P" now "http_mux (pr_handler P) a" r new_writer st]
  proof (elim disjE exE)
    assume "si_inner (snd (site_handler (pr_limiter P) (pr_config P) now (http_mux (pr_handler P) a) r new_writer st)) = si_inner st"
    then show ?thesis using wf by (simp add: HttpRequest allows_same)
  next
    fix w1 w2
    assume "http_mux (pr_handler P) a r w1 (si_inner st) = (w2, si_inner
      (snd (site_handler (pr_limiter P) (pr_config P) now (http_mux (pr_handler P) a) r new_writer st)))"
    from dgraph_client.http_allowed [OF d wf services_on_dgraph(1) [OF w] this]
    show ?thesis unfolding t by (simp add: HttpRequest c secrets_of_def graph_parts(5) [OF w])
  qed
next
  case (GrpcCall a ctx m msg)
  note c = caller_grpc [OF graph_parts(4,2) [OF w], of a ctx m msg]
  show ?thesis
  proof (cases "map_of (AuthService_ServiceDesc (pr_codec P) None (pr_server P) a ctx) m")
    case None
    then show ?thesis using wf by (simp add: GrpcCall allows_same)
  next
    case (Some f)
    obtain out s' where f: "f msg (si_inner st) = (out, s')" by fastforce
    from dgraph_client.grpc_allowed [OF d wf services_on_dgraph(2) [OF w] map_of_SomeD [OF Some] f]
    show ?thesis using Some f by (simp add: GrpcCall c secrets_of_def graph_parts(6) [OF w])
  qed
qed (use ev in \<open>simp_all add: is_request_def\<close>)

section \<open>Runs\<close>

text \<open>What every happening keeps: nothing is deleted from or revived in the tables of sessions and accounts.\<close>

definition keeps :: "tables \<Rightarrow> tables \<Rightarrow> bool" where
  "keeps t t' =
     (evolves (tb_sessions t) (tb_sessions t') \<and> accounts_age (tb_accounts t) (tb_accounts t') \<and>
      (unique_emails (tb_users t) \<longrightarrow> unique_emails (tb_users t')))"

lemma keeps_refl [simp]: "keeps t t"
  by (simp add: keeps_def)

lemma keeps_trans: "keeps t u \<Longrightarrow> keeps u v \<Longrightarrow> keeps t v"
  unfolding keeps_def using evolves_trans accounts_age_trans by blast

lemma permitted_keeps_all: "permitted caller rh known t t' \<Longrightarrow> keeps t t'"
  using permitted_keeps by (simp add: keeps_def)

context dgraph_client
begin

lemma touch_keeps:
  assumes "wf_site (graph db)"
  shows "wf_site (graph (run_touch (dgraph_session_repo dg) now sid db)) \<and>
    keeps (site_tables (graph db)) (site_tables (graph (run_touch (dgraph_session_repo dg) now sid db)))"
    and "user_view (graph (run_touch (dgraph_session_repo dg) now sid db)) = user_view (graph db)"
    and "session_view (graph db) v = None \<Longrightarrow> session_view (graph (run_touch (dgraph_session_repo dg) now sid db)) v = None"
    and "session_view (graph db) v = Some s \<Longrightarrow>
      \<exists>t. session_view (graph (run_touch (dgraph_session_repo dg) now sid db)) v = Some t \<and> ses_Revoked t = ses_Revoked s"
proof -
  obtain y db' where t: "sr_Touch (dgraph_session_repo dg) now sid db = (y, db')" by fastforce
  have inv: "wf_site (graph db) \<and> user_view (graph db) = user_view (graph db) \<and> account_view (graph db) = account_view (graph db)"
    using assms by simp
  note st = site_sessions.touch_step [OF inv t] and no = site_sessions.touch_only [OF inv t]
  show "wf_site (graph (run_touch (dgraph_session_repo dg) now sid db)) \<and>
    keeps (site_tables (graph db)) (site_tables (graph (run_touch (dgraph_session_repo dg) now sid db)))"
    "user_view (graph (run_touch (dgraph_session_repo dg) now sid db)) = user_view (graph db)"
    "session_view (graph db) v = None \<Longrightarrow> session_view (graph (run_touch (dgraph_session_repo dg) now sid db)) v = None"
    using st no by (simp_all add: run_touch_def t keeps_def)
  show "\<exists>t. session_view (graph (run_touch (dgraph_session_repo dg) now sid db)) v = Some t \<and> ses_Revoked t = ses_Revoked s"
    if "session_view (graph db) v = Some s"
    using st that unfolding evolves_def by (simp add: run_touch_def t) blast
qed

end

lemma happening_keeps:
  assumes w: "service_graph w ac sg = Some (pr_handler P, pr_server P)" and d: "dgraph_client (wd_dgraph w) graph"
    and wf: "wf_site (graph (db_of st))"
  shows "wf_site (graph (db_of (site_do P ev st))) \<and>
    keeps (site_tables (graph (db_of st))) (site_tables (graph (db_of (site_do P ev st))))"
proof (cases "is_request ev")
  case True
  from request_allowed [OF w d wf True] show ?thesis by (auto simp: allows_def intro: permitted_keeps_all)
next
  case False
  note t = dgraph_client.touch_keeps(1) [OF d wf]
  show ?thesis using False wf t by (cases ev) (auto simp: is_request_def graph_parts(1) [OF w])
qed

lemma run_keeps:
  assumes w: "service_graph w ac sg = Some (pr_handler P, pr_server P)" and d: "dgraph_client (wd_dgraph w) graph"
    and wf: "wf_site (graph (db_of st))"
  shows "wf_site (graph (db_of (site_run P hs st))) \<and>
    keeps (site_tables (graph (db_of st))) (site_tables (graph (db_of (site_run P hs st))))"
  using wf
proof (induction hs arbitrary: st)
  case (Cons ev hs)
  from happening_keeps [OF w d Cons.prems] Cons.IH [of "site_do P ev st"] show ?case
    using keeps_trans by (auto simp: site_run_def)
qed (simp add: site_run_def)

end
