(* ===== verification/Site_Theorems.thy ===== *)
theory Site_Theorems
  imports Site
begin

text \<open>
  Properties of the running program, over any sequence of requests of both transports and of touches: the data
  stay well-formed, and whoever changes an account, ends a session or gets a new one has presented the credential for it.
\<close>

section \<open>Credentials\<close>

text \<open>A token of a session of \<open>usr\<close> that is neither revoked nor expired at the time of the check.\<close>

definition live_session :: "(string \<Rightarrow> string) \<Rightarrow> sessions \<Rightarrow> (int \<times> string) option \<Rightarrow> string \<Rightarrow> bool" where
  "live_session sha256 S tok usr =
     (\<exists>now raw v s. tok = Some (now, raw) \<and> S v = Some s \<and> ses_AccessTokenHash s = Hash sha256 raw \<and>
        \<not> ses_Revoked s \<and> now \<le> ses_ExpiresAt s \<and> ses_UserID s = usr)"

definition refresh_of :: "(string \<Rightarrow> string) \<Rightarrow> sessions \<Rightarrow> string option \<Rightarrow> string \<Rightarrow> bool" where
  "refresh_of sha256 S tok usr =
     (\<exists>raw v s. tok = Some raw \<and> S v = Some s \<and> ses_RefreshTokenHash s = Hash sha256 raw \<and> ses_UserID s = usr)"

lemma verified_Some: "verified r = Some p \<Longrightarrow> fst r = Inr p"
  by (auto simp: verified_def split: sum.splits)

context session_repository
begin

lemma caller_live:
  assumes "inv db" "caller_of sha256 repo ev db = Some p"
  shows "live_session sha256 (sessions db) (access_token ev) (prin_UserID p)"
proof -
  obtain now raw where t: "access_token ev = Some (now, raw)" "fst (VerifyToken sha256 repo now raw db) = Inr p"
    using assms(2) by (auto simp: caller_of_def dest: verified_Some split: option.splits)
  obtain r ts where l: "lookupAndCheck sha256 repo now raw db = (r, ts)" by fastforce
  then obtain s where s: "r = Inr s" "p = sessionToPrincipal s"
    using t(2) by (auto simp: verify_of_lookup split: sum.splits if_splits)
  from lookup_Inr [OF assms(1) l [unfolded s(1)]] t(1) s(2) show ?thesis
    by (auto simp: live_session_def sessionToPrincipal_def)
qed

end

lemma evolves_both: "evolves S T \<Longrightarrow> S u = Some s \<Longrightarrow> T u = Some t \<Longrightarrow> ages s t"
  unfolding evolves_def by fastforce

section \<open>Runs\<close>

lemma site_run_Cons: "site_run P (ev # hs) st = site_run P hs (site_do P ev st)"
  by (simp add: site_run_def)

lemma site_run_app: "site_run P (hs @ hs') st = site_run P hs' (site_run P hs st)"
  by (simp add: site_run_def)

text \<open>What holds at the start and not at the end was ended by one of the happenings.\<close>

lemma first_change:
  assumes "Q st" "\<not> Q (site_run P hs st)"
  obtains pre ev post where "hs = pre @ ev # post" "Q (site_run P pre st)" "\<not> Q (site_do P ev (site_run P pre st))"
  using assms
proof (induction hs arbitrary: st thesis)
  case Nil
  then show ?case by (simp add: site_run_def)
next
  case (Cons ev hs)
  show ?case
  proof (cases "Q (site_do P ev st)")
    case True
    from Cons.prems(3) have "\<not> Q (site_run P hs (site_do P ev st))" by (simp add: site_run_Cons)
    from Cons.IH [OF _ True this] obtain pre ev' post where
      "hs = pre @ ev' # post" "Q (site_run P pre (site_do P ev st))" "\<not> Q (site_do P ev' (site_run P pre (site_do P ev st)))"
      by blast
    then show ?thesis using Cons.prems(1) [of "ev # pre" ev' post] by (simp add: site_run_Cons)
  next
    case False
    then show ?thesis using Cons.prems(1) [of "[]" ev hs] Cons.prems(2) by (simp add: site_run_def)
  qed
qed

text \<open>Only a request changes a user, ends a session or opens one.\<close>

lemma only_requests:
  assumes w: "service_graph w ac sg = Some (pr_handler P, pr_server P)" and d: "dgraph_client (wd_dgraph w) graph"
    and wf: "wf_site (graph (db_of st))" and n: "\<not> is_request ev"
  shows "user_view (graph (db_of (site_do P ev st))) = user_view (graph (db_of st))"
    and "session_view (graph (db_of st)) v = None \<Longrightarrow> session_view (graph (db_of (site_do P ev st))) v = None"
    and "session_view (graph (db_of st)) v = Some s \<Longrightarrow>
      \<exists>t. session_view (graph (db_of (site_do P ev st))) v = Some t \<and> ses_Revoked t = ses_Revoked s"
  using n dgraph_client.touch_keeps(2,3,4) [OF d wf]
  by (cases ev; auto simp: is_request_def graph_parts(1) [OF w])+

lemma live_caller:
  assumes "dgraph_client dg graph" "wf_site (graph db)" "caller_of sha256 (dgraph_session_repo dg) ev db = Some p"
  shows "live_session sha256 (session_view (graph db)) (access_token ev) (prin_UserID p)"
  using session_repository.caller_live [OF dgraph_client.dgraph_sessions [OF assms(1)] _ assms(3)] assms(2)
  by (simp add: wf_siteD)

lemma presented:
  assumes "dgraph_client dg graph" "wf_site (graph db)"
    and "(\<exists>p. caller_of sha256 (dgraph_session_repo dg) ev db = Some p \<and> prin_UserID p = usr) \<or>
      (\<exists>v s. session_view (graph db) v = Some s \<and>
        map_option (Hash sha256) (refresh_token ev) = Some (ses_RefreshTokenHash s) \<and> ses_UserID s = usr)"
  shows "live_session sha256 (session_view (graph db)) (access_token ev) usr \<or>
    refresh_of sha256 (session_view (graph db)) (refresh_token ev) usr"
  using assms(3)
proof
  assume "\<exists>p. caller_of sha256 (dgraph_session_repo dg) ev db = Some p \<and> prin_UserID p = usr"
  then show ?thesis using live_caller [OF assms(1,2)] by blast
next
  assume "\<exists>v s. session_view (graph db) v = Some s \<and>
    map_option (Hash sha256) (refresh_token ev) = Some (ses_RefreshTokenHash s) \<and> ses_UserID s = usr"
  then have "refresh_of sha256 (session_view (graph db)) (refresh_token ev) usr"
    unfolding refresh_of_def by (metis map_option_eq_Some)
  then show ?thesis ..
qed

lemma request_permitted:
  assumes "service_graph w ac sg = Some (pr_handler P, pr_server P)" "dgraph_client (wd_dgraph w) graph"
    and "wf_site (graph (db_of st))" "is_request ev"
  shows "permitted (caller_of (wd_sha256 w) (dgraph_session_repo (wd_dgraph w)) ev (db_of st))
      (map_option (Hash (wd_sha256 w)) (refresh_token ev)) (presents (wd_bcrypt w) (secrets_of (pr_codec P) ev))
      (site_tables (graph (db_of st))) (site_tables (graph (db_of (site_do P ev st))))"
  using request_allowed [OF assms] by (simp add: allows_def)

section \<open>Properties\<close>

text \<open>C5: Every request of either transport, whatever its outcome, is a change that the access control
  specification \<open>permitted\<close> allows to the caller whose token it carries, to the holder of the refresh token and of the
  passwords in it - and it leaves the data well-formed.\<close>

theorem requests_refine_access_control:
  assumes "service_graph w ac sg = Some (pr_handler P, pr_server P)" "dgraph_client (wd_dgraph w) graph"
    and "wf_site (graph (db_of st))" "is_request ev"
  shows "wf_site (graph (db_of (site_do P ev st))) \<and>
    permitted (caller_of (wd_sha256 w) (dgraph_session_repo (wd_dgraph w)) ev (db_of st))
      (map_option (Hash (wd_sha256 w)) (refresh_token ev)) (presents (wd_bcrypt w) (secrets_of (pr_codec P) ev))
      (site_tables (graph (db_of st))) (site_tables (graph (db_of (site_do P ev st))))"
  using request_allowed [OF assms] by (simp add: allows_def)

text \<open>C9: Over any run of the program the data stay well-formed and no two users share an email address; sessions are
  never deleted, never change owner or tokens, and once revoked stay revoked; service accounts are never deleted
  or reactivated and keep their identity, secret and permissions.\<close>

theorem site_run_keeps:
  assumes "service_graph w ac sg = Some (pr_handler P, pr_server P)" "dgraph_client (wd_dgraph w) graph"
    and "wf_site (graph (db_of st))" "unique_emails (user_view (graph (db_of st)))"
  shows "wf_site (graph (db_of (site_run P hs st))) \<and> unique_emails (user_view (graph (db_of (site_run P hs st)))) \<and>
    evolves (session_view (graph (db_of st))) (session_view (graph (db_of (site_run P hs st)))) \<and>
    accounts_age (account_view (graph (db_of st))) (account_view (graph (db_of (site_run P hs st))))"
  using run_keeps [OF assms(1-3)] assms(4) by (simp add: keeps_def)

text \<open>C6: If a user's record is changed or deleted in a run, then some request of the run carried the token
  of a live session of that very user.\<close>

theorem only_owner_changes_account:
  assumes "service_graph w ac sg = Some (pr_handler P, pr_server P)" "dgraph_client (wd_dgraph w) graph"
    and "wf_site (graph (db_of st))"
    and "user_view (graph (db_of st)) x = Some u" "user_view (graph (db_of (site_run P hs st))) x \<noteq> Some u"
  shows "\<exists>pre ev post. hs = pre @ ev # post \<and>
    live_session (wd_sha256 w) (session_view (graph (db_of (site_run P pre st)))) (access_token ev) (usr_ID u)"
proof (rule first_change [of "\<lambda>s. user_view (graph (db_of s)) x = Some u", OF assms(4,5)])
  fix pre ev post
  let ?st = "site_run P pre st"
  assume h: "hs = pre @ ev # post" "user_view (graph (db_of ?st)) x = Some u"
    "user_view (graph (db_of (site_do P ev ?st))) x \<noteq> Some u"
  have wf: "wf_site (graph (db_of ?st))" using run_keeps [OF assms(1-3)] by simp
  have ev: "is_request ev" using only_requests(1) [OF assms(1,2) wf, of ev] h(2,3) by metis
  from permitted_user_row [OF request_permitted [OF assms(1,2) wf ev], of x u] h(2,3)
  obtain p where "caller_of (wd_sha256 w) (dgraph_session_repo (wd_dgraph w)) ev (db_of ?st) = Some p" "prin_UserID p = usr_ID u"
    by auto
  with live_caller [OF assms(2) wf] h(1) show ?thesis by metis
qed

text \<open>C7: If a session is ended in a run, then some request of the run carried the token of a live
  session of the same user ID, or a refresh token of a session of that user ID.\<close>

theorem only_owner_ends_session:
  assumes "service_graph w ac sg = Some (pr_handler P, pr_server P)" "dgraph_client (wd_dgraph w) graph"
    and "wf_site (graph (db_of st))"
    and "session_view (graph (db_of st)) v = Some s" "\<not> ses_Revoked s"
    and "session_view (graph (db_of (site_run P hs st))) v = Some s'" "ses_Revoked s'"
  shows "\<exists>pre ev post. hs = pre @ ev # post \<and>
    (live_session (wd_sha256 w) (session_view (graph (db_of (site_run P pre st)))) (access_token ev) (ses_UserID s) \<or>
     refresh_of (wd_sha256 w) (session_view (graph (db_of (site_run P pre st)))) (refresh_token ev) (ses_UserID s))"
proof -
  let ?Q = "\<lambda>st. \<exists>t. session_view (graph (db_of st)) v = Some t \<and> \<not> ses_Revoked t \<and> ses_UserID t = ses_UserID s"
  have "?Q st" "\<not> ?Q (site_run P hs st)" using assms(4-) by auto
  then show ?thesis
  proof (rule first_change [of ?Q])
    fix pre ev post
    let ?st = "site_run P pre st"
    assume h: "hs = pre @ ev # post" "?Q ?st" "\<not> ?Q (site_do P ev ?st)"
    have wf: "wf_site (graph (db_of ?st))" using run_keeps [OF assms(1-3)] by simp
    obtain t where t: "session_view (graph (db_of ?st)) v = Some t" "\<not> ses_Revoked t" "ses_UserID t = ses_UserID s"
      using h(2) by blast
    have "evolves (session_view (graph (db_of ?st))) (session_view (graph (db_of (site_do P ev ?st))))"
      using happening_keeps [OF assms(1,2) wf] by (simp add: keeps_def)
    then obtain t' where t': "session_view (graph (db_of (site_do P ev ?st))) v = Some t'" "ages t t'"
      using t(1) by (auto simp: evolves_def)
    then have rv: "ses_Revoked t'" using h(3) agesD(4) [OF t'(2)] t(3) by auto
    have ev: "is_request ev"
    proof (rule ccontr)
      assume "\<not> is_request ev"
      from only_requests(3) [OF assms(1,2) wf this t(1)] t(2) t'(1) rv show False by auto
    qed
    have "session_view (graph (db_of (site_do P ev ?st))) v \<noteq> Some t" using t(2) t'(1) rv by auto
    note row = permitted_session_row [OF request_permitted [OF assms(1,2) wf ev], unfolded site_tables_simps, OF t(1) this]
    from presented [OF assms(2) wf row] h(1) show ?thesis unfolding t(3) by blast
  qed
qed

text \<open>C8: If a session appears in a run, then some request of the run presented the password of a stored active
  user, whose session it is, or the secret of a stored active service account, whose client ID and permissions it carries,
  or the token of a live session or a refresh token of the user ID of the new session.\<close>

theorem new_session_needs_credentials:
  assumes "service_graph w ac sg = Some (pr_handler P, pr_server P)" "dgraph_client (wd_dgraph w) graph"
    and "wf_site (graph (db_of st))"
    and "session_view (graph (db_of st)) v = None" "session_view (graph (db_of (site_run P hs st))) v = Some s"
  shows "\<exists>pre ev post. hs = pre @ ev # post \<and>
    ((\<exists>x u. user_view (graph (db_of (site_run P pre st))) x = Some u \<and> usr_Active u \<and>
        presents (wd_bcrypt w) (secrets_of (pr_codec P) ev) (usr_PasswordHash u) \<and>
        ses_Kind s = PrincipalKindUser \<and> ses_UserID s = usr_ID u \<and> ses_Permissions s = []) \<or>
     (\<exists>x a. account_view (graph (db_of (site_run P pre st))) x = Some a \<and> sa_Active a \<and>
        presents (wd_bcrypt w) (secrets_of (pr_codec P) ev) (sa_SecretHash a) \<and>
        ses_Kind s = PrincipalKindService \<and> ses_ClientID s = sa_ClientID a \<and>
        set (ses_Permissions s) = set (sa_Permissions a)) \<or>
     live_session (wd_sha256 w) (session_view (graph (db_of (site_run P pre st)))) (access_token ev) (ses_UserID s) \<or>
     refresh_of (wd_sha256 w) (session_view (graph (db_of (site_run P pre st)))) (refresh_token ev) (ses_UserID s))"
proof -
  let ?Q = "\<lambda>st. session_view (graph (db_of st)) v = None"
  have "?Q st" "\<not> ?Q (site_run P hs st)" using assms(4-) by auto
  then show ?thesis
  proof (rule first_change [of ?Q])
    fix pre ev post
    let ?st = "site_run P pre st"
    assume h: "hs = pre @ ev # post" "?Q ?st" "\<not> ?Q (site_do P ev ?st)"
    have wf: "wf_site (graph (db_of ?st))" using run_keeps [OF assms(1-3)] by simp
    have ev: "is_request ev"
    proof (rule ccontr)
      assume "\<not> is_request ev"
      from only_requests(2) [OF assms(1,2) wf this h(2)] h(3) show False by contradiction
    qed
    obtain t where t: "session_view (graph (db_of (site_do P ev ?st))) v = Some t" using h(3) by auto
    have wf': "wf_site (graph (db_of (site_do P ev ?st)))" using happening_keeps [OF assms(1,2) wf] by simp
    have "evolves (session_view (graph (db_of (site_do P ev ?st)))) (session_view (graph (db_of (site_run P hs st))))"
      using run_keeps [OF assms(1,2) wf', of post] h(1) by (simp add: keeps_def site_run_app site_run_Cons)
    from evolves_both [OF this t assms(5)] have "ages t s" .
    note a = agesD(3,4,5,13) [OF this]
    note new = permitted_new_session [OF request_permitted [OF assms(1,2) wf ev], unfolded site_tables_simps, OF h(2) t]
    show ?thesis unfolding a
      by (intro exI conjI, rule h(1), rule disj_forward [OF new], assumption, erule disj_forward, assumption,
        rule presented [OF assms(2) wf])
  qed
qed

text \<open>C26: Deleting a user, or deactivating a service account, does not end its sessions: a token that was good before
  verifies afterwards, as the same principal, until it expires.\<close>

theorem sessions_survive_their_account:
  assumes "dgraph_client dg graph" "wf_site (graph db)"
    and "as_repo sv = dgraph_user_repo dg" "sas_repo sva = dgraph_service_account_repo bind dg"
    and "db' = snd (Auth_DeleteUser sv caller target db db) \<or>
      db' = snd (ServiceAuth_DeactivateServiceAccount sva t client db db)"
    and "sole (session_view (graph db)) ses_AccessTokenHash (Hash sha256 raw) v"
    and "session_view (graph db) v = Some s" "ses_AccessTokenHash s = Hash sha256 raw" "\<not> ses_Revoked s" "now \<le> ses_ExpiresAt s"
  shows "store_error (fst (VerifyToken sha256 (dgraph_session_repo dg) now raw db')) \<or>
    VerifyToken sha256 (dgraph_session_repo dg) now raw db' = (Inr (sessionToPrincipal s), [v])"
proof -
  have k: "wf_site (graph db') \<and> session_view (graph db') = session_view (graph db)"
    using assms(5)
  proof
    assume d: "db' = snd (Auth_DeleteUser sv caller target db db)"
    show ?thesis
      using dgraph_client.deletion_frame [OF assms(1-3), of caller target "fst (Auth_DeleteUser sv caller target db db)" db'] d by simp
  next
    assume d: "db' = snd (ServiceAuth_DeactivateServiceAccount sva t client db db)"
    show ?thesis
      using dgraph_client.deactivation_frame [OF assms(1,2,4), of t client "fst (ServiceAuth_DeactivateServiceAccount sva t client db db)" db'] d
      by simp
  qed
  then have wf: "wf_graph (graph db')" by (simp add: wf_siteD)
  from session_repository.verify_live [OF dgraph_client.dgraph_sessions [OF assms(1)] wf, of sha256 raw v s now] assms(6-) k
  show ?thesis by (auto simp: store_error_def)
qed

section \<open>Runs on the in-memory store\<close>

definition ex_server :: "mem Server" where
  "ex_server = Server_New ex_auth ex_cfg (dgraph_session_repo mem_dgraph) ex_bcrypt ex_sha"

definition ex_auth_config :: AuthConfig where
  "ex_auth_config = \<lparr>ac_Issuer = ''auth-service'', ac_BcryptCost = 12, ac_AccessTokenTTL = 0, ac_RefreshTokenTTL = 0,
     ac_SigningKey = '''', ac_UseTransit = True, ac_TransitKeyName = ''jwt'', ac_TransitMount = ''transit''\<rparr>"

text \<open>Any world with the in-memory store in it.\<close>

definition ex_world :: "(nat, unit, mem) world \<Rightarrow> (nat, unit, mem) world" where
  "ex_world w = w\<lparr>wd_dgraph := mem_dgraph, wd_bind := bare_bind, wd_bcrypt := ex_bcrypt, wd_sha256 := ex_sha\<rparr>"

definition ex_bad :: "string \<Rightarrow> status + 'a" where
  "ex_bad m = Inl (Internal, ''cannot decode'')"

definition ex_codec :: "string codec" where
  "ex_codec =
     \<lparr>dec_Register = ex_bad, dec_Login = (\<lambda>m. Inr \<lparr>lq_Email = ''ada@x.io'', lq_Password = m\<rparr>), dec_GetUser = ex_bad,
      dec_UpdateUser = ex_bad, dec_DeleteUser = ex_bad, dec_ListUsers = ex_bad, dec_HealthCheck = (\<lambda>m. Inr ())\<rparr>"

definition ex_process :: "(nat, unit, mem) process" where
  "ex_process =
     \<lparr>pr_handler = ex_handler, pr_server = ex_server,
      pr_limiter = \<lparr>lim_New = (\<lambda>r b. ()), lim_Allow = (\<lambda>t l. (True, ()))\<rparr>,
      pr_config = \<lparr>sc_HTTPAddr = '''', sc_GRPCAddr = '''', sc_ShutdownTimeout = 0, sc_LogLevel = '''', sc_Env = '''',
        sc_RateLimitRPS = 20, sc_RateLimitBurst = 50\<rparr>,
      pr_codec = ex_codec\<rparr>"

definition ex_state :: "mem \<Rightarrow> (unit, mem hstate) site" where
  "ex_state db = \<lparr>si_clients = [], si_log = [], si_inner = \<lparr>hs_db = db, hs_touch = []\<rparr>\<rparr>"

definition ex_site :: mem where
  "ex_site = [(''0x2'', ex_node ''id1'' '''' ''k'' 1001 None ''ua'' ''ip''), (''0x1'', ex_unode ''id1'' ''ada_l'' ''ada@x.io'')]"

definition ex_http :: "string \<Rightarrow> string \<Rightarrow> happening" where
  "ex_http m p = HttpRequest 0 (ex_ambient ''m'') (ex_request m p (ex_token ''atk_6b'') [])"

definition ex_grpc :: happening where
  "ex_grpc = GrpcCall (ex_ambient ''m'') None ''Login'' ''passw0rd''"

lemma ex_db [simp]: "db_of (ex_state db) = db"
  by (simp add: ex_state_def)

lemma ex_services: "service_graph (ex_world w) ex_auth_config sg = Some (pr_handler ex_process, pr_server ex_process)"
  by (simp add: service_graph_def Let_def Manager_New_def Auth_New_def NewServiceAuth_def bcryptFloor_def ex_world_def
      ex_auth_config_def ex_process_def ex_handler_def ex_server_def ex_auth_def ex_accounts_def ex_cfg_def session_config_def)

lemma wf_site_Cons:
  assumes "wf_site g" "wf_node n" "wf_user_node n" "wf_sa_node n" "n DgraphType = [v]"
  shows "wf_site (g(u := n))"
  using assms by (auto simp: wf_site_def wf_graph_def wf_users_def wf_accounts_def exclusive_def typed_def)

lemma ex_wf_site0: "wf_site (mem_graph [])"
  using ex_wf0 ex_uwf0 ex_wf_accounts0 by (auto simp: wf_site_def exclusive_def mem_graph_def)

lemma ex_wf_site: "wf_site (mem_graph ex_site)" "wf_site (mem_graph ex_udb)"
proof -
  have u: "wf_sa_node (node_of (ex_unode ''id1'' ''ada_l'' ''ada@x.io''))"
    "node_of (ex_unode ''id1'' ''ada_l'' ''ada@x.io'') DgraphType = [VStr ''User'']"
    by (simp_all add: wf_sa_node_def sa_typed_def ex_unode_def node_of_def)
  have s: "wf_sa_node (node_of (ex_node ''id1'' '''' ''k'' 1001 None ''ua'' ''ip''))"
    "wf_user_node (node_of (ex_node ''id1'' '''' ''k'' 1001 None ''ua'' ''ip''))"
    "node_of (ex_node ''id1'' '''' ''k'' 1001 None ''ua'' ''ip'') DgraphType = [VStr ''Session'']"
    by (simp_all add: wf_sa_node_def sa_typed_def wf_user_node_def user_typed_def user_strs_def ex_node_def node_of_def)
  note ada = wf_site_Cons [OF ex_wf_site0 ex_unode_session ex_unode_wf u]
  show "wf_site (mem_graph ex_udb)"
    unfolding ex_udb_def mem_graph_Cons by (rule ada) simp_all
  show "wf_site (mem_graph ex_site)"
    unfolding ex_site_def mem_graph_Cons by (rule wf_site_Cons [OF ada ex_node_wf s(2,1,3)]) simp_all
qed

lemma ex_unique: "unique_emails (user_view (mem_graph ex_site))"
proof -
  have "user_view (mem_graph ex_site) x = None" if "x \<noteq> ''0x1''" for x
    using that by (auto simp: ex_site_def user_view_def user_typed_def mem_graph_def node_of_def ex_node_def)
  then show ?thesis unfolding unique_emails_def by (metis option.discI)
qed

lemma ex_user: "\<exists>u. user_view (mem_graph ex_site) ''0x1'' = Some u \<and> usr_ID u = ''id1''"
proof -
  have "case user_view (mem_graph ex_site) ''0x1'' of Some u \<Rightarrow> usr_ID u = ''id1'' | None \<Rightarrow> False" by code_simp
  then show ?thesis by (auto split: option.splits)
qed

definition ex_delete_user :: happening where
  "ex_delete_user = ex_http ''DELETE'' ''/users/id1''"

definition ex_end_session :: happening where
  "ex_end_session = ex_http ''DELETE'' ''/auth/sessions/0x2''"

text \<open>One evaluation for all runs: most of its time goes into the code equations of the whole program.\<close>

lemma ex_runs:
  "(case user_view (mem_graph (db_of (site_run ex_process [ex_delete_user] (ex_state ex_site)))) ''0x1'' of
      None \<Rightarrow> True | Some _ \<Rightarrow> False) \<and>
   (case session_view (mem_graph (db_of (site_run ex_process [ex_end_session] (ex_state ex_site)))) ''0x2'' of
      Some s \<Rightarrow> ses_Revoked s | None \<Rightarrow> False) \<and>
   (case session_view (mem_graph (db_of (site_run ex_process [ex_grpc] (ex_state ex_udb)))) ''0x1111'' of
      Some s \<Rightarrow> ses_UserID s = ''id1'' | None \<Rightarrow> False) \<and>
   is_ok (fst (VerifyToken ex_sha ex_repo (1100 * second) ''atk_6b'' (snd (Auth_DeleteUser ex_auth ''id1'' ''id1'' ex_site ex_site))))"
  by code_simp

lemma ex_deleted: "user_view (mem_graph (db_of (site_run ex_process [ex_delete_user] (ex_state ex_site)))) ''0x1'' = None"
  using ex_runs by (simp split: option.splits)

lemma ex_session: "\<exists>s. session_view (mem_graph ex_site) ''0x2'' = Some s \<and> \<not> ses_Revoked s \<and> ses_UserID s = ''id1''"
proof -
  have "case session_view (mem_graph ex_site) ''0x2'' of Some s \<Rightarrow> \<not> ses_Revoked s \<and> ses_UserID s = ''id1'' | None \<Rightarrow> False"
    by code_simp
  then show ?thesis by (auto split: option.splits)
qed

lemma ex_ended: "\<exists>s. session_view (mem_graph (db_of (site_run ex_process [ex_end_session] (ex_state ex_site)))) ''0x2'' = Some s \<and> ses_Revoked s"
  using ex_runs by (auto split: option.splits)

lemma ex_opened: "\<exists>s. session_view (mem_graph ex_udb) ''0x1111'' = None \<and>
  session_view (mem_graph (db_of (site_run ex_process [ex_grpc] (ex_state ex_udb)))) ''0x1111'' = Some s \<and> ses_UserID s = ''id1''"
proof -
  have "session_view (mem_graph ex_udb) ''0x1111'' = None" 
    by (simp add: session_view_def session_typed_def mem_graph_def ex_udb_def)
  then show ?thesis using ex_runs by (auto split: option.splits)
qed

text \<open>The rewriting above, once for the witnesses: the client of \<open>ex_world\<close> is the in-memory store.\<close>

lemma ex_client: "dgraph_client (wd_dgraph (ex_world w)) mem_graph"
  using mem.dgraph_client_axioms by (simp add: ex_world_def)

lemma ex_world_simps [simp]: "wd_sha256 (ex_world w) = ex_sha" "wd_bcrypt (ex_world w) = ex_bcrypt"
    "wd_dgraph (ex_world w) = mem_dgraph" "pr_codec ex_process = ex_codec"
  by (simp_all add: ex_world_def ex_process_def)

lemma one_event: "[e] = pre @ ev # post \<Longrightarrow> pre = [] \<and> ev = e"
  by (cases pre) auto

theorem requests_refine_access_control_witness:
  "permitted (caller_of ex_sha (dgraph_session_repo mem_dgraph) ex_delete_user ex_site) None
     (presents ex_bcrypt (secrets_of ex_codec ex_delete_user)) (site_tables (mem_graph ex_site))
     (site_tables (mem_graph (db_of (site_do ex_process ex_delete_user (ex_state ex_site)))))"
proof -
  have "is_request ex_delete_user" "refresh_token ex_delete_user = None"
    by (simp_all add: is_request_def ex_delete_user_def ex_http_def ex_request_def)
  with requests_refine_access_control [OF ex_services ex_client, of "ex_state ex_site" ex_delete_user] ex_wf_site
  show ?thesis by simp
qed

theorem site_run_keeps_witness:
  "wf_site (mem_graph (db_of (site_run ex_process [ex_end_session, ex_grpc, TouchRuns 0 0, ex_delete_user] (ex_state ex_site)))) \<and>
   evolves (session_view (mem_graph ex_site))
     (session_view (mem_graph (db_of (site_run ex_process [ex_end_session, ex_grpc, TouchRuns 0 0, ex_delete_user] (ex_state ex_site)))))"
  using site_run_keeps [OF ex_services ex_client, of "ex_state ex_site"
      "[ex_end_session, ex_grpc, TouchRuns 0 0, ex_delete_user]"] ex_wf_site ex_unique
  by simp

theorem only_owner_changes_account_witness:
  "live_session ex_sha (session_view (mem_graph ex_site)) (access_token ex_delete_user) ''id1''"
proof -
  obtain u where u: "user_view (mem_graph ex_site) ''0x1'' = Some u" "usr_ID u = ''id1''" using ex_user by blast
  have "\<exists>pre ev post. [ex_delete_user] = pre @ ev # post \<and>
      live_session ex_sha (session_view (mem_graph (db_of (site_run ex_process pre (ex_state ex_site))))) (access_token ev) ''id1''"
    using only_owner_changes_account [OF ex_services ex_client, of "ex_state ex_site" "''0x1''" u "[ex_delete_user]"]
      ex_wf_site u ex_deleted by simp
  then show ?thesis by (auto dest!: one_event simp: site_run_def)
qed

theorem only_owner_ends_session_witness:
  "live_session ex_sha (session_view (mem_graph ex_site)) (access_token ex_end_session) ''id1''"
proof -
  obtain s where s: "session_view (mem_graph ex_site) ''0x2'' = Some s" "\<not> ses_Revoked s" "ses_UserID s = ''id1''"
    using ex_session by blast
  obtain s' where s': "session_view (mem_graph (db_of (site_run ex_process [ex_end_session] (ex_state ex_site)))) ''0x2'' = Some s'"
    "ses_Revoked s'" using ex_ended by blast
  have "\<exists>pre ev post. [ex_end_session] = pre @ ev # post \<and>
      (live_session ex_sha (session_view (mem_graph (db_of (site_run ex_process pre (ex_state ex_site))))) (access_token ev) ''id1'' \<or>
       refresh_of ex_sha (session_view (mem_graph (db_of (site_run ex_process pre (ex_state ex_site))))) (refresh_token ev) ''id1'')"
    using only_owner_ends_session [OF ex_services ex_client, of "ex_state ex_site" "''0x2''" s "[ex_end_session]" s']
      ex_wf_site s s' by simp
  moreover have "refresh_token ex_end_session = None" by (simp add: ex_end_session_def ex_http_def ex_request_def)
  ultimately show ?thesis by (auto dest!: one_event simp: site_run_def refresh_of_def)
qed

theorem new_session_needs_credentials_witness:
  "\<exists>x u. user_view (mem_graph ex_udb) x = Some u \<and> usr_Active u \<and> usr_ID u = ''id1'' \<and>
     presents ex_bcrypt [''passw0rd''] (usr_PasswordHash u)"
proof -
  obtain s where s: "session_view (mem_graph ex_udb) ''0x1111'' = None"
    "session_view (mem_graph (db_of (site_run ex_process [ex_grpc] (ex_state ex_udb)))) ''0x1111'' = Some s" "ses_UserID s = ''id1''"
    using ex_opened by blast
  have e: "access_token ex_grpc = None" "refresh_token ex_grpc = None" "secrets_of ex_codec ex_grpc = [''passw0rd'']"
    by (simp_all add: ex_grpc_def secrets_of_def grpc_secrets_def ex_codec_def)
  have a: "account_view (mem_graph ex_udb) x = None" for x
    by (simp add: account_view_def sa_typed_def mem_graph_def ex_udb_def ex_unode_def node_of_def)
  from new_session_needs_credentials [OF ex_services ex_client, of "ex_state ex_udb" "''0x1111''" "[ex_grpc]" s] ex_wf_site s
  show ?thesis
    by (auto dest!: one_event simp: site_run_def a e live_session_def refresh_of_def) metis
qed

theorem sessions_survive_their_account_witness:
  "\<exists>p. VerifyToken ex_sha ex_repo (1100 * second) ''atk_6b'' (snd (Auth_DeleteUser ex_auth ''id1'' ''id1'' ex_site ex_site)) =
     (Inr p, [''0x2'']) \<and> prin_UserID p = ''id1''"
proof -
  have ok: "is_ok (fst (VerifyToken ex_sha ex_repo (1100 * second) ''atk_6b'' (snd (Auth_DeleteUser ex_auth ''id1'' ''id1'' ex_site ex_site))))"
    using ex_runs by simp
  have so: "sole (session_view (mem_graph ex_site)) ses_AccessTokenHash (Hash ex_sha ''atk_6b'') ''0x2''"
    by (rule mem_sole) code_simp
  have "case session_view (mem_graph ex_site) ''0x2'' of Some s \<Rightarrow> \<not> ses_Revoked s \<and> 1100 * second \<le> ses_ExpiresAt s \<and>
      ses_AccessTokenHash s = Hash ex_sha ''atk_6b'' \<and> ses_UserID s = ''id1'' | None \<Rightarrow> False" by code_simp
  then obtain s where s: "session_view (mem_graph ex_site) ''0x2'' = Some s" "ses_AccessTokenHash s = Hash ex_sha ''atk_6b''"
    "\<not> ses_Revoked s" "1100 * second \<le> ses_ExpiresAt s" and u: "ses_UserID s = ''id1''" by (auto split: option.splits)
  have r: "as_repo ex_auth = dgraph_user_repo mem_dgraph" "sas_repo ex_accounts = dgraph_service_account_repo bare_bind mem_dgraph"
    by (simp_all add: ex_auth_def ex_accounts_def)
  from sessions_survive_their_account [OF mem.dgraph_client_axioms ex_wf_site(1) r disjI1 [OF refl] so s, of "''id1''" "''id1''"]
  show ?thesis using ok_not_store_error [OF ok] u by (auto simp: ex_repo_def sessionToPrincipal_def)
qed

end
