(* ===== verification/Spec2Isabelle.thy ===== *)
theory Spec2Isabelle
  imports Session_Runs Session_Spec Query_Text Login_Theorems Site_Theorems
begin

text \<open>
  Verification of the authentication service: users, service accounts and opaque-token sessions, stored in
  Dgraph, with secrets and keys in Vault, served over HTTP and gRPC. Paths below are under \<^verbatim>\<open>src/\<close>.

  \<^bold>\<open>The program.\<close> \<^verbatim>\<open>cmd/server/main.go\<close> logs in to Vault, reads the configuration, connects to Dgraph, installs
  the schemas, builds one repository per kind of entity, the three services on top of them and the two
  transports on top of these, and shuts everything down in order. A request passes the middleware chain
  (rate limit, security headers, logging, for protected routes authentication), a handler decodes it, a service
  decides, a repository turns the decision into a query and a mutation of the database. A login opens a
  session: a random access token and a random refresh token, of which only the SHA-256 hashes are stored. The
  access token is looked up on every request; the refresh token is exchanged once for a new pair, and a second
  use of it revokes the user's sessions.

  \<^bold>\<open>Conventions.\<close> Go structs are records, enumerations of strings are string constants, interfaces are records
  of their methods, errors are values of \<open>goerr\<close> and results \<open>goerr + 'a\<close>, nil pointers are \<open>None\<close>, a panic is a
  value of its own. Everything ambient is an argument: clock readings (one per call of \<^verbatim>\<open>time.Now\<close>, never assumed
  to increase), random bytes, UUIDs, the environment. Code that is not in the repository is an argument too, with
  its documented behaviour as the assumptions of a locale where a lemma needs it: \<open>dgraph_client\<close> (Dgraph and
  dgo), \<open>dgraph_binding\<close> (the same with query variables), \<open>bcrypt_lib\<close>, \<open>jwt_library\<close>, \<open>transit_engine\<close> (Vault's Transit engine); SHA-256 and the limiter library
  need none. Each locale is interpreted: \<open>dgraph_client\<close> on the executable store \<open>mem_dgraph\<close>, on
  which the witnesses run, the contracts of the repositories (\<open>session_repository\<close>, \<open>user_repository\<close>,
  \<open>service_account_repository\<close>, extended to whole sites by \<open>session_store\<close>, \<open>user_store\<close>, \<open>account_store\<close>) on the Dgraph
  repositories, \<open>signer\<close> on both signers.

  \<^bold>\<open>Theories, in the order of the layers.\<close>

  \<^item> \<^verbatim>\<open>Prelude\<close>, \<^verbatim>\<open>Regex\<close>, \<^verbatim>\<open>Encoding\<close>, \<^verbatim>\<open>Json\<close>: what the program uses of Go and its standard library. Errors and their
    wrapping, strings as bytes, times; anchored regular expressions by derivatives, equivalent to the relation
    \<open>matches\<close>; hex, base64url and little-endian words, and JSON, each with its round trip. \<^verbatim>\<open>Encoding\<close> also holds
    \<^verbatim>\<open>internal/domain/zookie.go\<close>.
  \<^item> \<^verbatim>\<open>Domain\<close> (\<^verbatim>\<open>internal/domain\<close>) and \<^verbatim>\<open>Opaque_Token\<close> (\<^verbatim>\<open>internal/token/opaque.go\<close>): entities, inputs, validation,
    principals; tokens and their hashes.
  \<^item> \<^verbatim>\<open>Dgraph\<close>: graph, queries, mutations, conditional writes and transactions, the locale \<open>dgraph_client\<close> and the
    store \<open>mem_dgraph\<close>.
  \<^item> \<^verbatim>\<open>Session_Repo\<close>, \<^verbatim>\<open>User_Repo\<close>, \<^verbatim>\<open>Service_Account_Repo\<close> (\<^verbatim>\<open>internal/repository\<close>): the interfaces, as records of
    operations and locales of laws over abstract tables. \<^verbatim>\<open>Dgraph_Session\<close>, \<^verbatim>\<open>Dgraph_User\<close> and
    \<^verbatim>\<open>Dgraph_Service_Account\<close> (\<^verbatim>\<open>internal/repository/dgraph\<close>) implement them; the theories with the suffix \<^verbatim>\<open>_Laws\<close>
    prove the laws, as sublocales of \<open>dgraph_client\<close>. \<^verbatim>\<open>Dgraph_Schema\<close> holds the three schemas, and shows that a
    server that enforces them, the blocks of the types for new and existing nodes alike, refuses no request of the repositories. \<^verbatim>\<open>Dgraph_Frames\<close>: the three kinds of entity share
    one graph, and a write of one repository leaves the nodes of the others alone (\<open>wf_site\<close>).
  \<^item> \<^verbatim>\<open>Nquads\<close>, \<^verbatim>\<open>Dql\<close>: Go's \<^verbatim>\<open>%q\<close> with its decoder of UTF-8, a reader of N-Quads, a scanner of Dgraph's query language with the
    binding of variables. \<^verbatim>\<open>Session_Text\<close>, \<^verbatim>\<open>Query_Text\<close>: the texts of the mutations and queries as
    \<^verbatim>\<open>internal/repository/dgraph\<close> writes them, and that they mean the data above.
  \<^item> \<^verbatim>\<open>Session_Service\<close> (\<^verbatim>\<open>internal/service/session.go\<close>): its operations over any session store, with the lemmas
    about one operation inside \<open>session_repository\<close>. \<^verbatim>\<open>Session_Theorems\<close>: creation, verification, rotation, reuse
    detection, concurrent refreshes. \<^verbatim>\<open>Session_Authz\<close>: who may end which session, listing, context activation.
    \<^verbatim>\<open>Session_Runs\<close>: operations and touch goroutines interleaved in any order, with stale reads
    (\<open>session_step\<close>), and what every run keeps. \<^verbatim>\<open>Session_Spec\<close>: an abstract specification on a table of
    sessions, and the simulation by the service on Dgraph.
  \<^item> \<^verbatim>\<open>Auth_Service\<close>, \<^verbatim>\<open>Auth_Theorems\<close> (\<^verbatim>\<open>internal/service/auth.go\<close>): registration, login, profiles, paging.
    \<^verbatim>\<open>Service_Auth\<close> (\<^verbatim>\<open>internal/service/service_auth.go\<close>): service accounts. How the client binds query variables is an argument
    there: under \<open>declared_vars\<close>, the documented rule, their operations fail; under any client that binds them as the code
    intends (\<open>faithful_vars\<close>) they do what they promise.
  \<^item> \<^verbatim>\<open>Vault\<close>, \<^verbatim>\<open>Jwt\<close>, \<^verbatim>\<open>Vault_Client\<close>, \<^verbatim>\<open>Config\<close> (\<^verbatim>\<open>internal/vault\<close>, \<^verbatim>\<open>internal/token/jwt.go\<close>, \<^verbatim>\<open>internal/config\<close>): both signers,
    the token manager over any signer, login and the renewal loop as a function of time and answers, its panic included, typed secrets, configuration.
  \<^item> \<^verbatim>\<open>Middleware\<close>, \<^verbatim>\<open>Http\<close>, \<^verbatim>\<open>Http_Theorems\<close> (\<^verbatim>\<open>internal/middleware\<close>, \<^verbatim>\<open>internal/handler/http\<close>): handlers as functions of request,
    response writer and state, every endpoint and the route table; the sharded lock as a step relation over any number of
    requests, several of one address included. \<^verbatim>\<open>Login_Theorems\<close>: what the two login endpoints hand out and what it opens.
    \<^verbatim>\<open>Grpc\<close>, \<^verbatim>\<open>Grpc_Theorems\<close> (\<^verbatim>\<open>internal/handler/grpc\<close>): every method, and where the two transports agree.
  \<^item> \<^verbatim>\<open>Startup\<close> (\<^verbatim>\<open>cmd/server/main.go\<close>): boot and shutdown as traces, the handler chain, the interceptors.
  \<^item> The running program. \<^verbatim>\<open>Site_Stores\<close>: what each operation of a repository does to its table, row by row, and that it
    touches no other table. \<^verbatim>\<open>Site_Services\<close>: the access control specification \<open>permitted\<close>, which says from who is
    calling and which secrets are presented how the three tables may change, and that every operation of
    a service is permitted. \<^verbatim>\<open>Site\<close>: the handlers and methods composed as \<^verbatim>\<open>main.go\<close> composes them on one database
    (\<open>process\<close>, \<open>site_do\<close>), driven by a list of happenings: HTTP requests through the whole chain, gRPC
    calls, and touch goroutines that run whenever they like. \<^verbatim>\<open>Site_Theorems\<close>: what holds over all such runs.

  \<^bold>\<open>What is shown.\<close> Site: every request refines \<open>permitted\<close>; over any run an account is changed and a session ended only
  by requests with a credential of its owner, a session appears only for presented credentials, the invariants of the
  three tables and the uniqueness of email addresses are kept; but deleting an account does not end its sessions. Session life cycle: what a token is good for and until when, rotation, reuse detection,
  revocation as a fact about all later states of every run, refinement of the table specification. Accounts:
  uniqueness under concurrent registration, the outcomes of login, registration followed by login, paging.
  Transports: protected routes need a token that verifies, the gateway endpoint agrees with the middleware, both
  transports agree on registration and on tokens, login leads to the right identity. Infrastructure: token
  round trips through signer and verifier, termination and timing of the renewal loop, constructors
  that cannot panic on a loaded configuration, Vault shut down exactly once on every path, requests
  within the schemas, texts that mean the statements and queries intended whatever strings clients
  choose. Where the code departs from its documentation the departure itself is the property:
  the ownership of service sessions, unchecked permissions on activation, unverified uniqueness on update, the
  request bodies in the comments, the rate limiter's map, key rotation, query variables, the renewal retry, quoting that is Go's and not that of N-Quads.

  \<^bold>\<open>Bounds.\<close> The JSON parser has the length of its input as fuel, enough because every level of nesting consumes a
  character (\<open>Marshal_Unmarshal\<close>); the duration parser likewise. The readers of N-Quads and queries recurse on the
  length of their input; the length test in them never fails (\<open>nq_string_length\<close>, \<open>nq_statement_length\<close>). The renewal loop recurses over the answers of Vault.
  Go's 64-bit \<^verbatim>\<open>int\<close> wraps (\<open>wrap64\<close>) where the code computes with values from requests or from Vault (paging,
  token lifetimes) or lets them grow (the shard hash); \<^verbatim>\<open>int32\<close> fields of messages are 32-bit words. Times and durations are unbounded.

  \<^bold>\<open>Abstractions to know about.\<close> Uids are compared as spelled. Queries and mutations are data for the proofs about the
  repositories; \<^verbatim>\<open>Session_Text\<close> and \<^verbatim>\<open>Query_Text\<close> relate them to the texts, except for the JSON of users and
  service accounts. The reader of N-Quads follows the W3C grammar, the scanner of
  queries the forms in use; how Dgraph itself reads them is not in the repository. A formatted time is the number of whole seconds it denotes.
  Permission versions are naturals. Lower-casing and trimming act on ASCII. JSON numbers are integers; invalid
  UTF-8 and the line separators U+2028 and U+2029 are not treated. An empty slice and a nil slice are the same
  list, which JSON shows as null. Error texts keep the wrapping chain, not every interpolated value. The rate of the limiter is an opaque
  number. HTTP and gRPC requests run one after another, in \<open>site_run\<close> too; interleaving is treated for the services
  (\<^verbatim>\<open>Session_Runs\<close>, and the two states of the operations that read before they write) and for the limiter's lock.
  \<open>site_do\<close> leaves out the gRPC interceptors, which log and turn a panic into a status (\<^verbatim>\<open>Startup\<close>).
  \<^verbatim>\<open>DeleteExpired\<close> is modelled but is no step of a run: nothing calls it. Paths are as \<^verbatim>\<open>net/http\<close> hands them to
  the multiplexer.

  \<^bold>\<open>Not modelled.\<close> Log output, the deadlines of contexts and servers, TLS, gRPC reflection, the generated client
  stubs and the wire codec of gRPC, the compile-time assertions of \<^verbatim>\<open>internal/repository/dgraph/assert.go\<close>; tests,
  build files and deployment.
\<close>

end
